(* ===== verification/Prelude.thy ===== *)
theory Prelude
  imports Main "HOL-Library.Word" "HOL-Library.Multiset"
begin

text \<open>
  Shared vocabulary of the VMLens development: the Go types and the few functions of the
  Go language and standard library the components use (machine integers, byte strings,
  times and durations), the development's theorem collections, and the list and word
  lemmas that several components need.
\<close>

section \<open>Theorem collections\<close>

named_theorems go_const \<open>string constants of the Go packages\<close>
named_theorems counters \<open>additive laws of the reducers\<close>

section \<open>Machine integers\<close>

text \<open>
  Go's unsigned integers are words, so that their arithmetic wraps by itself. Go's
  \<open>int\<close> and \<open>int64\<close> (64 bits on every platform the program is built for) are HOL integers;
  where a value can leave the 64-bit range the wrap-around is written out with \<open>wrap64\<close>.
\<close>

type_synonym u8 = "8 word"
type_synonym u16 = "16 word"
type_synonym u32 = "32 word"
type_synonym u64 = "64 word"
type_synonym i64 = int

definition wrap64 :: "int \<Rightarrow> i64" where
  "wrap64 x = (x + 2 ^ 63) mod 2 ^ 64 - 2 ^ 63"

definition in_i64 :: "int \<Rightarrow> bool" where
  "in_i64 x \<longleftrightarrow> - (2 ^ 63) \<le> x \<and> x < 2 ^ 63"

text \<open>Conversions between the widths: \<open>uint64(x)\<close>, \<open>uint32(x)\<close> and \<open>int64(w)\<close> of Go.\<close>

definition to_u64 :: "i64 \<Rightarrow> u64" where
  "to_u64 x = word_of_int x"

definition to_u32 :: "i64 \<Rightarrow> u32" where
  "to_u32 x = word_of_int x"

definition u64_to_i64 :: "u64 \<Rightarrow> i64" where
  "u64_to_i64 w = sint w"

definition u32_to_u64 :: "u32 \<Rightarrow> u64" where
  "u32_to_u64 w = ucast w"

definition u32_to_i64 :: "u32 \<Rightarrow> i64" where
  "u32_to_i64 w = uint w"

lemma wrap64_in_range [simp]: "in_i64 x \<Longrightarrow> wrap64 x = x"
  by (simp add: wrap64_def in_i64_def)

lemma in_i64_wrap64 [simp]: "in_i64 (wrap64 x)"
  using pos_mod_bound [of "2 ^ 64" "x + 2 ^ 63"] pos_mod_sign [of "2 ^ 64" "x + 2 ^ 63"]
  by (simp add: wrap64_def in_i64_def)

lemma wrap64_add_left [simp]: "wrap64 (wrap64 x + y) = wrap64 (x + y)"
proof -
  have "((x + 2 ^ 63) mod 2 ^ 64 - 2 ^ 63 + y + 2 ^ 63) mod 2 ^ 64
      = (x + y + 2 ^ 63) mod (2 ^ 64 :: int)"
    by (simp add: algebra_simps mod_simps)
  then show ?thesis by (simp only: wrap64_def)
qed

lemma wrap64_add_right [simp]: "wrap64 (x + wrap64 y) = wrap64 (x + y)"
  using wrap64_add_left [of y x] by (simp only: add.commute)

lemma u32_to_i64_nonneg [simp]: "0 \<le> u32_to_i64 w"
  by (simp add: u32_to_i64_def)

lemma to_u64_u32 [simp]: "to_u64 (u32_to_i64 w) = u32_to_u64 w"
  unfolding to_u64_def u32_to_i64_def u32_to_u64_def by (rule ucast_eq [symmetric])

lemma to_u64_0 [simp]: "to_u64 0 = 0"
  by (simp add: to_u64_def)

lemma to_u32_0 [simp]: "to_u32 0 = 0"
  by (simp add: to_u32_def)

lemma uint_to_u64: "0 \<le> x \<Longrightarrow> x < 2 ^ 64 \<Longrightarrow> uint (to_u64 x) = x"
  by (simp add: to_u64_def uint_word_of_int)

lemma uint_to_u32: "0 \<le> x \<Longrightarrow> x < 2 ^ 32 \<Longrightarrow> uint (to_u32 x) = x"
  by (simp add: to_u32_def uint_word_of_int)

lemma uint_u32_to_u64 [simp]: "uint (u32_to_u64 w) = uint w"
  by (simp add: u32_to_u64_def uint_up_ucast is_up)

lemma uint_of_nat_u64: "n < 2 ^ 64 \<Longrightarrow> uint (of_nat n :: u64) = int n"
  by (simp add: uint_word_of_int unsigned_of_nat take_bit_nat_eq_self_iff)

lemma of_nat_u64_eq_0: "n < 2 ^ 64 \<Longrightarrow> (of_nat n :: u64) = 0 \<longleftrightarrow> n = 0"
  using uint_of_nat_u64 [of n] by (auto simp: word_of_nat_eq_0_iff dest: nat_dvd_not_less)

lemma u64_to_i64_small: "uint w < 2 ^ 63 \<Longrightarrow> u64_to_i64 w = uint w"
  by (simp add: u64_to_i64_def sint_uint signed_take_bit_int_eq_self_iff order_trans [of _ 0])

section \<open>Byte strings\<close>

text \<open>
  A Go string is a sequence of bytes, here a \<open>char list\<close>. \<open>strings.TrimSpace\<close> removes the
  Unicode white space at both ends; its runes are one, two or three bytes long in UTF-8,
  so the trimming is written over these byte patterns.
\<close>

definition space1 :: "char \<Rightarrow> bool" where
  "space1 a \<longleftrightarrow> a \<in> {CHR 0x09, CHR 0x0A, CHR 0x0B, CHR 0x0C, CHR 0x0D, CHR 0x20}"

definition space2 :: "char \<Rightarrow> char \<Rightarrow> bool" where
  "space2 a b \<longleftrightarrow> a = CHR 0xC2 \<and> b \<in> {CHR 0x85, CHR 0xA0}"

definition space3 :: "char \<Rightarrow> char \<Rightarrow> char \<Rightarrow> bool" where
  "space3 a b c \<longleftrightarrow>
     (a = CHR 0xE1 \<and> b = CHR 0x9A \<and> c = CHR 0x80) \<or>
     (a = CHR 0xE2 \<and> b = CHR 0x80 \<and>
        c \<in> {CHR 0x80, CHR 0x81, CHR 0x82, CHR 0x83, CHR 0x84, CHR 0x85, CHR 0x86, CHR 0x87,
              CHR 0x88, CHR 0x89, CHR 0x8A, CHR 0xA8, CHR 0xA9, CHR 0xAF}) \<or>
     (a = CHR 0xE2 \<and> b = CHR 0x81 \<and> c = CHR 0x9F) \<or>
     (a = CHR 0xE3 \<and> b = CHR 0x80 \<and> c = CHR 0x80)"

fun trim_left :: "string \<Rightarrow> string" where
  "trim_left [] = []"
| "trim_left [a] = (if space1 a then [] else [a])"
| "trim_left [a, b] =
     (if space1 a then trim_left [b] else if space2 a b then [] else [a, b])"
| "trim_left (a # b # c # s) =
     (if space1 a then trim_left (b # c # s)
      else if space2 a b then trim_left (c # s)
      else if space3 a b c then trim_left s
      else a # b # c # s)"

text \<open>The same on the reversed string, where a rune's bytes come last byte first.\<close>

fun trim_rev :: "string \<Rightarrow> string" where
  "trim_rev [] = []"
| "trim_rev [a] = (if space1 a then [] else [a])"
| "trim_rev [a, b] =
     (if space1 a then trim_rev [b] else if space2 b a then [] else [a, b])"
| "trim_rev (a # b # c # s) =
     (if space1 a then trim_rev (b # c # s)
      else if space2 b a then trim_rev (c # s)
      else if space3 c b a then trim_rev s
      else a # b # c # s)"

definition TrimSpace :: "string \<Rightarrow> string" where
  "TrimSpace s = rev (trim_rev (rev (trim_left s)))"

text \<open>
  \<open>strings.ToLower\<close>: bytewise on ASCII strings. On a string with other bytes Go consults the
  Unicode tables, which are the parameter \<open>ul\<close>.
\<close>

definition is_ascii :: "char \<Rightarrow> bool" where
  "is_ascii c \<longleftrightarrow> (of_char c :: nat) < 128"

definition ascii_lower :: "char \<Rightarrow> char" where
  "ascii_lower c =
     (let n = (of_char c :: nat) in if 65 \<le> n \<and> n \<le> 90 then char_of (n + 32) else c)"

definition ToLower :: "(string \<Rightarrow> string) \<Rightarrow> string \<Rightarrow> string" where
  "ToLower ul s = (if list_all is_ascii s then map ascii_lower s else ul s)"

fun Split :: "char \<Rightarrow> string \<Rightarrow> string list" where
  "Split c [] = [[]]"
| "Split c (x # xs) =
     (if x = c then [] # Split c xs
      else case Split c xs of [] \<Rightarrow> [[x]] | y # ys \<Rightarrow> (x # y) # ys)"

fun Join :: "string \<Rightarrow> string list \<Rightarrow> string" where
  "Join sep [] = []"
| "Join sep [x] = x"
| "Join sep (x # y # ys) = x @ sep @ Join sep (y # ys)"

fun HasPrefix :: "'a list \<Rightarrow> 'a list \<Rightarrow> bool" where
  "HasPrefix s [] = True"
| "HasPrefix [] (p # ps) = False"
| "HasPrefix (x # xs) (p # ps) = (x = p \<and> HasPrefix xs ps)"

definition digit :: "nat \<Rightarrow> char" where
  "digit n = char_of (48 + n)"

fun show_nat :: "nat \<Rightarrow> string" where
  "show_nat n = (if n < 10 then [digit n] else show_nat (n div 10) @ [digit (n mod 10)])"

declare show_nat.simps [simp del]

text \<open>\<open>fmt.Sprint\<close> and the verb \<open>%d\<close> on a Go \<open>int\<close>.\<close>

definition itoa :: "int \<Rightarrow> string" where
  "itoa x = (if x < 0 then ''-'' @ show_nat (nat (- x)) else show_nat (nat x))"

definition is_digit :: "char \<Rightarrow> bool" where
  "is_digit c \<longleftrightarrow> 48 \<le> (of_char c :: nat) \<and> (of_char c :: nat) \<le> 57"

definition digits_val :: "string \<Rightarrow> nat" where
  "digits_val s = foldl (\<lambda>acc c. acc * 10 + (of_char c - 48)) 0 s"

text \<open>\<open>strconv.Atoi\<close>: an optional sign, at least one digit, nothing else, and in range.\<close>

definition Atoi :: "string \<Rightarrow> int option" where
  "Atoi s =
     (let neg = (s \<noteq> [] \<and> hd s = CHR ''-'');
          ds = (if s \<noteq> [] \<and> (hd s = CHR ''-'' \<or> hd s = CHR ''+'') then tl s else s);
          v = (if neg then - int (digits_val ds) else int (digits_val ds))
      in if ds \<noteq> [] \<and> list_all is_digit ds \<and> in_i64 v then Some v else None)"

section \<open>Trimming is idempotent\<close>

fun starts_space :: "string \<Rightarrow> bool" where
  "starts_space [] = False"
| "starts_space [a] = space1 a"
| "starts_space [a, b] = (space1 a \<or> space2 a b)"
| "starts_space (a # b # c # s) = (space1 a \<or> space2 a b \<or> space3 a b c)"

lemma trim_left_trimmed: "\<not> starts_space (trim_left s)"
  by (induction s rule: trim_left.induct) auto

lemma trim_left_id: "\<not> starts_space s \<Longrightarrow> trim_left s = s"
  by (cases s rule: starts_space.cases) auto

lemma starts_space_append: "starts_space s \<Longrightarrow> starts_space (s @ t)"
  by (cases s rule: starts_space.cases; cases t; cases "tl t"; auto)

lemma trim_rev_suffix: "\<exists>p. s = p @ trim_rev s"
proof (induction s rule: trim_rev.induct)
  case (3 a b)
  then show ?case by (auto intro: exI [of _ "[a]"] exI [of _ "[]"])
next
  case (4 a b c s)
  have step: "\<exists>p. a # b # c # s = p @ r" if "\<exists>p. t = p @ r" "a # b # c # s = q @ t" for r t q
    using that by (metis append.assoc)
  show ?case
    using step [OF 4(1), of "[a]"] step [OF 4(2), of "[a, b]"] step [OF 4(3), of "[a, b, c]"] by auto
qed auto

lemma trim_rev_idem: "trim_rev (trim_rev s) = trim_rev s"
  by (induction s rule: trim_rev.induct) auto

lemma TrimSpace_idem [simp]: "TrimSpace (TrimSpace s) = TrimSpace s"
proof -
  obtain p where p: "rev (trim_left s) = p @ trim_rev (rev (trim_left s))" using trim_rev_suffix by blast
  have "\<not> starts_space (TrimSpace s)"
  proof
    assume "starts_space (TrimSpace s)"
    then have "starts_space (TrimSpace s @ rev p)" by (rule starts_space_append)
    moreover have "TrimSpace s @ rev p = trim_left s"
      using p unfolding TrimSpace_def by (metis rev_append rev_rev_ident)
    ultimately show False using trim_left_trimmed by metis
  qed
  then have "trim_left (TrimSpace s) = TrimSpace s" by (rule trim_left_id)
  then show ?thesis by (simp add: TrimSpace_def trim_rev_idem)
qed

section \<open>Times and durations\<close>

text \<open>
  A \<open>time.Time\<close> is its instant in nanoseconds since Go's zero time (so \<open>IsZero\<close> is
  equality with 0), a \<open>time.Duration\<close> a number of nanoseconds. \<open>Time.Sub\<close> saturates at the
  64-bit range of \<open>Duration\<close>.
\<close>

type_synonym gotime = int
type_synonym duration = int

definition Millisecond :: duration where "Millisecond = 1000000"
definition Second :: duration where "Second = 1000000000"
definition Minute :: duration where "Minute = 60 * Second"
definition Hour :: duration where "Hour = 60 * Minute"

definition IsZero :: "gotime \<Rightarrow> bool" where
  "IsZero t \<longleftrightarrow> t = 0"

definition time_Sub :: "gotime \<Rightarrow> gotime \<Rightarrow> duration" where
  "time_Sub t u = max (- (2 ^ 63)) (min (2 ^ 63 - 1) (t - u))"

lemmas duration_defs = Millisecond_def Second_def Minute_def Hour_def

section \<open>Maps as association lists\<close>

text \<open>
  A Go map is an association list with distinct keys. Go iterates over a map in an
  unspecified order; an operation that does so takes the order as a parameter, a function
  that permutes its argument (\<open>map_order\<close>).
\<close>

fun alist_get :: "('k \<times> 'v) list \<Rightarrow> 'k \<Rightarrow> 'v option" where
  "alist_get [] k = None"
| "alist_get ((k', v) # m) k = (if k' = k then Some v else alist_get m k)"

fun alist_set :: "'k \<Rightarrow> 'v \<Rightarrow> ('k \<times> 'v) list \<Rightarrow> ('k \<times> 'v) list" where
  "alist_set k v [] = [(k, v)]"
| "alist_set k v ((k', v') # m) =
     (if k' = k then (k, v) # m else (k', v') # alist_set k v m)"

definition distinct_keys :: "('k \<times> 'v) list \<Rightarrow> bool" where
  "distinct_keys m \<longleftrightarrow> distinct (map fst m)"

definition map_order :: "('a list \<Rightarrow> 'a list) \<Rightarrow> bool" where
  "map_order ord \<longleftrightarrow> (\<forall>xs. mset (ord xs) = mset xs)"

lemma alist_get_set: "alist_get (alist_set k v m) k' = (if k' = k then Some v else alist_get m k')"
  by (induction k v m rule: alist_set.induct) auto

lemma alist_get_None: "alist_get m k = None \<longleftrightarrow> k \<notin> fst ` set m"
  by (induction m k rule: alist_get.induct) auto

lemma alist_get_in: "alist_get m k = Some v \<Longrightarrow> (k, v) \<in> set m"
  by (induction m k rule: alist_get.induct) (auto split: if_splits)

lemma keys_alist_set: "fst ` set (alist_set k v m) = insert k (fst ` set m)"
  by (induction k v m rule: alist_set.induct) auto

lemma set_alist_set: "set (alist_set k v m) \<subseteq> insert (k, v) (set m)"
  by (induction k v m rule: alist_set.induct) auto

lemma distinct_keys_set [simp]: "distinct_keys m \<Longrightarrow> distinct_keys (alist_set k v m)"
proof (induction k v m rule: alist_set.induct)
  case (2 k v k' v' m)
  have "fst ` set (alist_set k v m) = insert k (fst ` set m)"
    by (rule keys_alist_set)
  with 2 show ?case by (auto simp: distinct_keys_def)
qed (simp add: distinct_keys_def)

lemma distinct_keys_Nil [simp]: "distinct_keys []"
  by (simp add: distinct_keys_def)

lemma alist_get_distinct:
  "distinct_keys m \<Longrightarrow> (k, v) \<in> set m \<Longrightarrow> alist_get m k = Some v"
  by (induction m k rule: alist_get.induct) (force simp: distinct_keys_def)+

lemma sum_list_mset_eq:
  fixes f :: "'a \<Rightarrow> 'b::comm_monoid_add"
  assumes "mset xs = mset ys"
  shows "(\<Sum>x\<leftarrow>xs. f x) = (\<Sum>x\<leftarrow>ys. f x)"
  using assms by (metis mset_map sum_mset_sum_list)

lemma map_order_mset [simp]: "map_order ord \<Longrightarrow> mset (ord xs) = mset xs"
  by (simp add: map_order_def)

lemma map_order_set: "map_order ord \<Longrightarrow> set (ord xs) = set xs"
  by (metis map_order_mset set_mset_mset)

lemma map_order_id: "map_order id"
  by (simp add: map_order_def)

lemma map_order_rev: "map_order rev"
  by (simp add: map_order_def)

lemma alist_set_absent: "k \<notin> fst ` set m \<Longrightarrow> alist_set k v m = m @ [(k, v)]"
  by (induction k v m rule: alist_set.induct) auto

text \<open>
  Updating one entry changes a sum over all the entries by the difference at that entry.
\<close>

lemma sum_alist_set:
  fixes f :: "'v \<Rightarrow> 'a::ab_group_add"
  assumes "distinct_keys m"
  shows "(\<Sum>(k', v')\<leftarrow>alist_set k v m. f v')
       = (\<Sum>(k', v')\<leftarrow>m. f v') - (case alist_get m k of None \<Rightarrow> 0 | Some u \<Rightarrow> f u) + f v"
  using assms
  by (induction k v m rule: alist_set.induct)
     (auto simp: distinct_keys_def algebra_simps split: option.splits)

section \<open>The interface of a counting reducer\<close>

text \<open>
  Every reducer of the agent folds events into a model whose counters are 64-bit words. The
  locale \<open>tallying\<close> states this contract for a family of counters indexed by \<open>'i\<close>:
  \<open>tally i s\<close> is counter \<open>i\<close> of model \<open>s\<close>, \<open>contrib i e\<close> what event \<open>e\<close> adds to it. Its
  clients get the fold laws: a counter after any sequence of events is the sum of the
  contributions, whatever their order. \<open>counting\<close> adds an empty model and a merge: events
  may be folded in separate models that are merged later.
\<close>

locale tallying =
  fixes step :: "'s \<Rightarrow> 'e \<Rightarrow> 's"
    and tally :: "'i \<Rightarrow> 's \<Rightarrow> 'w::len word"
    and contrib :: "'i \<Rightarrow> 'e \<Rightarrow> 'w::len word"
  assumes tally_step: "tally i (step s e) = tally i s + contrib i e"
begin

lemma tally_fold: "tally i (foldl step s es) = tally i s + (\<Sum>e\<leftarrow>es. contrib i e)"
  by (induction es arbitrary: s) (simp_all add: tally_step algebra_simps)

lemma tally_reorder:
  assumes "mset es = mset fs"
  shows "tally i (foldl step s es) = tally i (foldl step s fs)"
  using sum_list_mset_eq [OF assms, of "contrib i"] by (simp add: tally_fold)

end

locale counting = tallying step tally contrib
  for step :: "'s \<Rightarrow> 'e \<Rightarrow> 's"
    and tally :: "'i \<Rightarrow> 's \<Rightarrow> 'w::len word"
    and contrib :: "'i \<Rightarrow> 'e \<Rightarrow> 'w::len word" +
  fixes empty :: 's
    and merge :: "'s \<Rightarrow> 's \<Rightarrow> 's"
  assumes tally_empty: "tally i empty = 0"
    and tally_merge: "tally i (merge s t) = tally i s + tally i t"
begin

lemma tally_split:
  "tally i (merge (foldl step empty es) (foldl step empty fs)) = tally i (foldl step empty (es @ fs))"
  by (simp add: tally_merge tally_fold tally_empty)

lemma tally_merge_all: "tally i (foldl merge s ts) = tally i s + (\<Sum>t\<leftarrow>ts. tally i t)"
  by (induction ts arbitrary: s) (simp_all add: tally_merge algebra_simps)

end

end
