(* ===== verification/Float64.thy ===== *)
theory Float64
  imports Complex_Main "HOL-Library.Log_Nat" Prelude
begin

text \<open>
  Go's \<open>float64\<close>. A finite value is the rational number it denotes; an arithmetic operation
  computes the exact result and rounds it to the nearest value of the format (IEEE 754
  binary64, ties to even, gradual underflow at \<open>2 powi -1074\<close>). Infinities and NaN are not
  represented: the program's floats are latencies that come from 32-bit microsecond
  counters, from JSON numbers or from rows it wrote itself, and stay far inside the finite
  range. The theory proves what the components rely on (rounding is monotone, exact on the
  format, and never moves a value across a power of two), states it as the locale
  \<open>rounding\<close>, and derives there that the incremental mean the agent computes stays between
  the smallest and the largest sample in spite of the rounding.
\<close>

type_synonym f64 = rat

section \<open>Rounding to binary64\<close>

definition rhe :: "rat \<Rightarrow> int" where
  "rhe x =
     (let f = \<lfloor>x\<rfloor>; r = x - of_int f
      in if r < 1/2 then f else if 1/2 < r then f + 1 else if even f then f else f + 1)"

definition log2_floor :: "rat \<Rightarrow> int" where
  "log2_floor q =
     (case quotient_of q of (a, b) \<Rightarrow>
        let k = bitlen a - bitlen b in if 2 powi k \<le> q then k else k - 1)"

definition ulp_exp :: "rat \<Rightarrow> int" where
  "ulp_exp q = max (log2_floor q - 52) (- 1074)"

definition f64_round :: "rat \<Rightarrow> f64" where
  "f64_round q =
     (if q = 0 then 0
      else let u = ulp_exp \<bar>q\<bar> in sgn q * of_int (rhe (\<bar>q\<bar> / 2 powi u)) * 2 powi u)"

definition f64_add :: "f64 \<Rightarrow> f64 \<Rightarrow> f64" where "f64_add a b = f64_round (a + b)"
definition f64_sub :: "f64 \<Rightarrow> f64 \<Rightarrow> f64" where "f64_sub a b = f64_round (a - b)"
definition f64_mul :: "f64 \<Rightarrow> f64 \<Rightarrow> f64" where "f64_mul a b = f64_round (a * b)"
definition f64_div :: "f64 \<Rightarrow> f64 \<Rightarrow> f64" where "f64_div a b = f64_round (a / b)"
definition f64_of_int :: "int \<Rightarrow> f64" where "f64_of_int n = f64_round (of_int n)"
definition f64_of_u64 :: "u64 \<Rightarrow> f64" where "f64_of_u64 w = f64_round (of_int (uint w))"

text \<open>\<open>Duration.Seconds\<close>: whole seconds and the remaining nanoseconds are converted apart.\<close>

definition trunc_quot :: "int \<Rightarrow> int \<Rightarrow> int" where
  "trunc_quot a b = sgn a * sgn b * (\<bar>a\<bar> div \<bar>b\<bar>)"

definition trunc_rem :: "int \<Rightarrow> int \<Rightarrow> int" where
  "trunc_rem a b = a - b * trunc_quot a b"

definition duration_Seconds :: "duration \<Rightarrow> f64" where
  "duration_Seconds d =
     f64_add (f64_of_int (trunc_quot d Second)) (f64_div (f64_of_int (trunc_rem d Second)) 1000000000)"

definition is_f64 :: "rat \<Rightarrow> bool" where
  "is_f64 x \<longleftrightarrow> f64_round x = x"

lemmas f64_ops = f64_add_def f64_sub_def f64_mul_def f64_div_def f64_of_int_def f64_of_u64_def

section \<open>Rounding to an integer\<close>

lemma rhe_cases: "rhe x = \<lfloor>x\<rfloor> \<or> rhe x = \<lfloor>x\<rfloor> + 1 \<and> of_int \<lfloor>x\<rfloor> < x"
proof -
  have "of_int \<lfloor>x\<rfloor> \<le> x" by linarith
  then show ?thesis by (auto simp: rhe_def Let_def)
qed

lemma rhe_of_int [simp]: "rhe (of_int n) = n"
  by (simp add: rhe_def)

lemma rhe_mono: assumes "x \<le> y" shows "rhe x \<le> rhe y"
proof (cases "\<lfloor>x\<rfloor> = \<lfloor>y\<rfloor>")
  case True
  with assms show ?thesis by (auto simp: rhe_def Let_def)
next
  case False
  with assms have "\<lfloor>x\<rfloor> + 1 \<le> \<lfloor>y\<rfloor>" using floor_mono [of x y] by linarith
  with rhe_cases [of x] rhe_cases [of y] show ?thesis by linarith
qed

lemma rhe_le_int: "x \<le> of_int n \<Longrightarrow> rhe x \<le> n"
  using rhe_mono [of x "of_int n"] by simp

lemma rhe_ge_int: "of_int n \<le> x \<Longrightarrow> n \<le> rhe x"
  using rhe_mono [of "of_int n" x] by simp

section \<open>The binary exponent\<close>

lemma powi_mono2: "i \<le> j \<Longrightarrow> (2::rat) powi i \<le> 2 powi j"
  by (simp add: power_int_increasing)

lemma powi_less2: "(2::rat) powi i < 2 powi j \<longleftrightarrow> i < j"
  by (meson linorder_not_le order_less_le_trans power_int_strict_increasing powi_mono2 one_less_numeral_iff semiring_norm(76))

lemma powi_pos2 [simp]: "0 < (2::rat) powi i"
  by simp

lemma powi_split: "(2::rat) powi i = of_int (2 ^ nat (i - j)) * 2 powi j" if "j \<le> i"
proof -
  have "(2::rat) powi i = 2 powi (i - j) * 2 powi j"
    by (simp flip: power_int_add)
  also have "(2::rat) powi (i - j) = of_int (2 ^ nat (i - j))"
    using that by (simp add: power_int_def)
  finally show ?thesis .
qed

lemma bitlen_powi:
  assumes "0 < a"
  shows "2 powi (bitlen a - 1) \<le> (of_int a :: rat)" and "(of_int a :: rat) < 2 powi bitlen a"
proof -
  have "0 < bitlen a" using bitlen_nonneg [of a] bitlen_eq_zero_iff [of a] assms by linarith
  then have e: "(2::rat) powi (bitlen a - 1) = of_int (2 ^ nat (bitlen a - 1))"
      "(2::rat) powi bitlen a = of_int (2 ^ nat (bitlen a))"
    by (simp_all add: power_int_def)
  from bitlen_bounds [OF assms] show "2 powi (bitlen a - 1) \<le> (of_int a :: rat)"
    unfolding e by (simp only: of_int_le_iff)
  from bitlen_bounds [OF assms] show "(of_int a :: rat) < 2 powi bitlen a"
    unfolding e by (simp only: of_int_less_iff)
qed

lemma log2_floor_bounds:
  assumes "0 < q"
  shows "2 powi log2_floor q \<le> q" and "q < 2 powi (log2_floor q + 1)"
proof -
  obtain a b where ab: "quotient_of q = (a, b)" by fastforce
  have q: "q = of_int a / of_int b" and b: "0 < b"
    using ab by (simp_all add: quotient_of_div quotient_of_denom_pos)
  with assms have a: "0 < a"
    by (simp add: zero_less_divide_iff)
  define i j where "i = bitlen a" and "j = bitlen b"
  have i: "2 powi (i - 1) \<le> (of_int a :: rat)" "(of_int a :: rat) < 2 powi i"
    and j: "2 powi (j - 1) \<le> (of_int b :: rat)" "(of_int b :: rat) < 2 powi j"
    using bitlen_powi [OF a] bitlen_powi [OF b] by (simp_all add: i_def j_def)
  have "q < 2 powi i / 2 powi (j - 1)"
    unfolding q using i j b a by (intro frac_less) auto
  also have "\<dots> = (2::rat) powi (i - j + 1)"
    by (simp flip: power_int_diff add: algebra_simps)
  finally have up: "q < 2 powi (i - j + 1)" .
  have "2 powi (i - 1) / 2 powi j \<le> q"
    unfolding q using i j b a by (intro frac_le) auto
  then have lo: "2 powi (i - j - 1) \<le> q"
    by (simp flip: power_int_diff add: algebra_simps)
  show "2 powi log2_floor q \<le> q" and "q < 2 powi (log2_floor q + 1)"
    using up lo by (auto simp: log2_floor_def ab Let_def i_def j_def)
qed

lemma log2_floor_unique:
  assumes "2 powi e \<le> q" and "q < 2 powi (e + 1)"
  shows "log2_floor q = e"
proof -
  have "0 < q" using assms(1) powi_pos2 [of e] by linarith
  note b = log2_floor_bounds [OF this]
  have "(2::rat) powi e < 2 powi (log2_floor q + 1)" and "(2::rat) powi log2_floor q < 2 powi (e + 1)"
    using assms b by linarith+
  then show ?thesis by (simp add: powi_less2)
qed

lemma log2_floor_mono: assumes "0 < p" "p \<le> q" shows "log2_floor p \<le> log2_floor q"
proof -
  have "(2::rat) powi log2_floor p < 2 powi (log2_floor q + 1)"
    using log2_floor_bounds [of p] log2_floor_bounds [of q] assms by linarith
  then show ?thesis by (simp add: powi_less2)
qed

section \<open>Rounding is monotone and exact on the format\<close>

lemma f64_round_0 [simp]: "f64_round 0 = 0"
  by (simp add: f64_round_def)

lemma f64_round_minus: "f64_round (- q) = - f64_round q"
  by (simp add: f64_round_def Let_def sgn_minus)

lemma f64_round_pos:
  "0 < q \<Longrightarrow> f64_round q = of_int (rhe (q / 2 powi ulp_exp q)) * 2 powi ulp_exp q"
  by (simp add: f64_round_def Let_def)

lemma ulp_exp_mono: "0 < p \<Longrightarrow> p \<le> q \<Longrightarrow> ulp_exp p \<le> ulp_exp q"
  using log2_floor_mono [of p q] by (simp add: ulp_exp_def)

text \<open>A value of the grid a number is rounded to bounds the rounded number too.\<close>

lemma f64_round_le_grid:
  assumes "0 < q" "q \<le> of_int n * 2 powi v" "ulp_exp q \<le> v"
  shows "f64_round q \<le> of_int n * 2 powi v"
proof -
  let ?u = "ulp_exp q"
  define m where "m = n * 2 ^ nat (v - ?u)"
  have eq: "of_int n * 2 powi v = (of_int m * 2 powi ?u :: rat)"
    using powi_split [OF assms(3)] by (simp add: m_def)
  have "q / 2 powi ?u \<le> of_int m"
    using assms(2) by (simp add: eq pos_divide_le_eq)
  then have "rhe (q / 2 powi ?u) \<le> m" by (rule rhe_le_int)
  then show ?thesis
    by (simp add: f64_round_pos [OF assms(1)] eq mult_right_mono)
qed

lemma f64_round_ge_grid:
  assumes "0 < q" "of_int n * 2 powi v \<le> q" "ulp_exp q \<le> v"
  shows "of_int n * 2 powi v \<le> f64_round q"
proof -
  let ?u = "ulp_exp q"
  define m where "m = n * 2 ^ nat (v - ?u)"
  have eq: "of_int n * 2 powi v = (of_int m * 2 powi ?u :: rat)"
    using powi_split [OF assms(3)] by (simp add: m_def)
  have "of_int m \<le> q / 2 powi ?u"
    using assms(2) by (simp add: eq pos_le_divide_eq)
  then have "m \<le> rhe (q / 2 powi ?u)" by (rule rhe_ge_int)
  then show ?thesis
    by (simp add: f64_round_pos [OF assms(1)] eq mult_right_mono)
qed

lemma f64_round_nonneg: "0 \<le> q \<Longrightarrow> 0 \<le> f64_round q"
  using f64_round_ge_grid [of q 0 "ulp_exp q"] by (cases "q = 0") auto

lemma f64_round_on_grid:
  assumes "0 < q" "q = of_int n * 2 powi v" "ulp_exp q \<le> v"
  shows "f64_round q = q"
  using f64_round_le_grid [OF assms(1), of n v] f64_round_ge_grid [OF assms(1), of n v] assms
  by simp

lemma f64_round_pow2:
  assumes "- 1074 \<le> e" shows "f64_round (2 powi e) = 2 powi e"
proof -
  have "log2_floor (2 powi e) = e"
    by (rule log2_floor_unique) (simp_all add: powi_less2)
  with assms have "ulp_exp (2 powi e) \<le> e" by (simp add: ulp_exp_def)
  then show ?thesis using f64_round_on_grid [of "2 powi e" 1 e] by simp
qed

lemma f64_round_mono_pos:
  assumes "0 < p" "p \<le> q" shows "f64_round p \<le> f64_round q"
proof (cases "ulp_exp p = ulp_exp q")
  case True
  have "p / 2 powi ulp_exp q \<le> q / 2 powi ulp_exp q"
    using assms by (simp add: divide_right_mono)
  with True assms show ?thesis
    by (auto simp: f64_round_pos intro!: mult_right_mono rhe_mono)
next
  case False
  with ulp_exp_mono [OF assms] have less: "ulp_exp p < ulp_exp q" by simp
  then have uq: "ulp_exp q = log2_floor q - 52" and lt: "log2_floor p < log2_floor q"
    by (auto simp: ulp_exp_def max_def split: if_splits)
  have q: "0 < q" using assms by simp
  have "p \<le> 2 powi log2_floor q"
    using log2_floor_bounds(2) [OF assms(1)] powi_mono2 [of "log2_floor p + 1" "log2_floor q"] lt
    by simp
  then have "f64_round p \<le> 2 powi log2_floor q"
    using f64_round_le_grid [OF assms(1), of 1 "log2_floor q"] less uq by simp
  also have "\<dots> \<le> f64_round q"
    using f64_round_ge_grid [OF q, of 1 "log2_floor q"] log2_floor_bounds(1) [OF q] uq by simp
  finally show ?thesis .
qed

lemma f64_round_mono:
  assumes "p \<le> q" shows "f64_round p \<le> f64_round q"
proof -
  consider "0 < p" | "p \<le> 0" "0 \<le> q" | "q < 0" by linarith
  then show ?thesis
  proof cases
    case 1 then show ?thesis using assms by (rule f64_round_mono_pos)
  next
    case 2
    then have "0 \<le> f64_round (- p)" "0 \<le> f64_round q"
      using f64_round_nonneg [of "- p"] f64_round_nonneg [of q] by simp_all
    then show ?thesis by (simp add: f64_round_minus)
  next
    case 3
    then show ?thesis
      using f64_round_mono_pos [of "- q" "- p"] assms by (simp add: f64_round_minus)
  qed
qed

lemma f64_round_idem_pos:
  assumes "0 < q" shows "f64_round (f64_round q) = f64_round q"
proof -
  let ?u = "ulp_exp q"
  define m where "m = rhe (q / 2 powi ?u)"
  have r: "f64_round q = of_int m * 2 powi ?u"
    using f64_round_pos [OF assms] by (simp add: m_def)
  have "q < 2 powi (log2_floor q + 1)" by (rule log2_floor_bounds(2) [OF assms])
  also have "\<dots> \<le> 2 powi (?u + 53)" by (rule powi_mono2) (simp add: ulp_exp_def)
  finally have le: "f64_round q \<le> 2 powi (?u + 53)"
    using f64_round_le_grid [OF assms, of 1 "?u + 53"] by simp
  consider "f64_round q = 0" | "f64_round q = 2 powi (?u + 53)"
    | "0 < f64_round q" "f64_round q < 2 powi (?u + 53)"
    using le f64_round_nonneg [of q] assms by linarith
  then show ?thesis
  proof cases
    case 2
    then show ?thesis using f64_round_pow2 [of "?u + 53"] by (simp add: ulp_exp_def)
  next
    case 3
    then have "(2::rat) powi log2_floor (f64_round q) < 2 powi (?u + 53)"
      using log2_floor_bounds(1) [of "f64_round q"] by linarith
    then have "ulp_exp (f64_round q) \<le> ?u"
      by (simp add: powi_less2 ulp_exp_def)
    then show ?thesis using f64_round_on_grid [OF 3(1) r] by simp
  qed simp
qed

lemma f64_round_idem [simp]: "f64_round (f64_round q) = f64_round q"
  using f64_round_idem_pos [of q] f64_round_idem_pos [of "- q"]
  by (cases q "0 :: rat" rule: linorder_cases) (simp_all add: f64_round_minus)

lemma is_f64_round [simp]: "is_f64 (f64_round q)"
  by (simp add: is_f64_def)

lemma is_f64_0 [simp]: "is_f64 0"
  by (simp add: is_f64_def)

lemma f64_round_multiple_pos:
  assumes "0 < q" shows "\<exists>n. f64_round q = of_int n * 2 powi (- 1074)"
proof -
  have "- 1074 \<le> ulp_exp q" by (simp add: ulp_exp_def)
  from powi_split [OF this] show ?thesis
    by (intro exI [of _ "rhe (q / 2 powi ulp_exp q) * 2 ^ nat (ulp_exp q + 1074)"])
       (simp add: f64_round_pos [OF assms])
qed

lemma f64_round_multiple: "\<exists>n. f64_round q = of_int n * 2 powi (- 1074)"
proof (cases q "0 :: rat" rule: linorder_cases)
  case less
  then obtain n where "f64_round (- q) = of_int n * 2 powi (- 1074)"
    using f64_round_multiple_pos [of "- q"] by auto
  then show ?thesis by (intro exI [of _ "- n"]) (simp add: f64_round_minus)
qed (use f64_round_multiple_pos in auto)

lemma f64_of_int_exact:
  assumes "0 \<le> n" "n \<le> 2 ^ 53" shows "f64_round (of_int n) = of_int n"
proof -
  consider "n = 0" | "n = 2 ^ 53" | "0 < n" "n < 2 ^ 53" using assms by linarith
  then show ?thesis
  proof cases
    case 2
    then show ?thesis using f64_round_pow2 [of 53] by (simp add: power_int_def)
  next
    case 3
    then have "(of_int n :: rat) < of_int (2 ^ 53)" by (simp only: of_int_less_iff)
    then have "(of_int n :: rat) < 2 powi 53" by (simp add: power_int_def)
    with 3 have "(2::rat) powi log2_floor (of_int n) < 2 powi 53"
      using log2_floor_bounds(1) [of "of_int n"] by simp
    then have "log2_floor (of_int n) < 53" by (simp only: powi_less2)
    then have "ulp_exp (of_int n) \<le> 0" by (simp add: ulp_exp_def)
    then show ?thesis using f64_round_on_grid [of "of_int n" n 0] 3 by simp
  qed simp
qed

section \<open>The interface: what a rounding function promises\<close>

locale rounding =
  fixes R :: "rat \<Rightarrow> rat"
  assumes mono: "x \<le> y \<Longrightarrow> R x \<le> R y"
    and idem: "R (R x) = R x"
    and zero: "R 0 = 0"
    and odd: "R (- x) = - R x"
    and pow2: "- 1074 \<le> e \<Longrightarrow> R (2 powi e) = 2 powi e"
    and multiple: "\<exists>n. R x = of_int n * 2 powi (- 1074)"
begin

lemma nonneg: "0 \<le> x \<Longrightarrow> 0 \<le> R x"
  using mono [of 0 x] by (simp add: zero)

lemma gap:
  assumes "R a = a" "R v = v" "a < v"
  shows "2 powi (- 1074) \<le> v - a"
proof -
  obtain m n where "v = of_int m * 2 powi (- 1074)" "a = of_int n * 2 powi (- 1074)"
    using multiple [of v] multiple [of a] assms by auto
  then have d: "v - a = of_int (m - n) * 2 powi (- 1074)" by (simp add: algebra_simps)
  with assms(3) have "0 < (of_int (m - n) :: rat) * 2 powi (- 1074)" by simp
  then have "0 < (of_int (m - n) :: rat)" by (simp add: zero_less_mult_iff)
  then have "1 \<le> (of_int (m - n) :: rat)" by simp
  then show ?thesis unfolding d using mult_right_mono [of 1 "of_int (m - n)" "2 powi (- 1074)"] by simp
qed

text \<open>One step of the incremental mean moves towards the new sample and not beyond it.\<close>

lemma step_up:
  assumes a: "R a = a" and v: "R v = v" and le: "a \<le> v" and n: "2 \<le> n"
  shows "a \<le> R (a + R (R (v - a) / n))" and "R (a + R (R (v - a) / n)) \<le> v"
proof -
  have "0 \<le> R (v - a)" using le by (simp add: nonneg)
  then have low: "0 \<le> R (R (v - a) / n)" using n by (intro nonneg) simp
  then show "a \<le> R (a + R (R (v - a) / n))"
    using mono [of a "a + R (R (v - a) / n)"] a by simp
  have "R (R (v - a) / n) \<le> v - a"
  proof (cases "a = v")
    case False
    with le have d: "0 < v - a" by simp
    define e where "e = log2_floor (v - a)"
    have lo: "2 powi e \<le> v - a" and hi: "v - a < 2 powi (e + 1)"
      using log2_floor_bounds [OF d] by (simp_all add: e_def)
    have "(2::rat) powi (- 1074) < 2 powi (e + 1)"
      using gap [OF a v] False le hi by simp
    then have e: "- 1074 \<le> e" by (simp only: powi_less2)
    have "R (v - a) \<le> R (2 powi (e + 1))" using hi by (intro mono) simp
    also have "\<dots> = 2 * 2 powi e" using pow2 [of "e + 1"] e by (simp add: power_int_add)
    finally have "R (v - a) / n \<le> 2 * 2 powi e / n"
      using n by (intro divide_right_mono) simp_all
    also have "\<dots> \<le> 2 powi e" using n by (simp add: pos_divide_le_eq mult.commute)
    finally have "R (R (v - a) / n) \<le> R (2 powi e)" by (rule mono)
    with lo show ?thesis by (simp add: pow2 [OF e])
  qed (simp add: zero)
  then show "R (a + R (R (v - a) / n)) \<le> v"
    using mono [of "a + R (R (v - a) / n)" v] v by simp
qed

lemma mean_between:
  assumes "R a = a" "R v = v" "2 \<le> n" "lo \<le> a" "a \<le> hi" "lo \<le> v" "v \<le> hi"
  shows "lo \<le> R (a + R (R (v - a) / n)) \<and> R (a + R (R (v - a) / n)) \<le> hi"
proof (cases "a \<le> v")
  case True
  then show ?thesis using step_up [of a v n] assms by auto
next
  case False
  have neg: "R (a + R (R (v - a) / n)) = - R (- a + R (R (- v - - a) / n))"
    using odd [of "v - a"] odd [of "R (v - a) / n"] odd [of "a + R (R (v - a) / n)"] by simp
  have "- a \<le> R (- a + R (R (- v - - a) / n)) \<and> R (- a + R (R (- v - - a) / n)) \<le> - v"
    using step_up [of "- a" "- v" n] False assms odd by simp
  then show ?thesis unfolding neg using assms by linarith
qed

end

interpretation f64: rounding f64_round
  by unfold_locales
     (fact f64_round_mono f64_round_idem f64_round_0 f64_round_minus f64_round_pow2
       f64_round_multiple)+

end
