(* ===== verification/Go_Parse.thy ===== *)
theory Go_Parse
  imports Float64
begin

text \<open>
  Parsers of Go's standard library that the configuration code calls: \<open>strconv.ParseBool\<close>,
  \<open>time.ParseDuration\<close>, \<open>strconv.ParseUint\<close> in base 16 and \<open>strings.Fields\<close>. An error is
  \<open>None\<close>.
\<close>

definition ParseBool :: "string \<Rightarrow> bool option" where
  "ParseBool s =
     (if s \<in> {''1'', ''t'', ''T'', ''true'', ''TRUE'', ''True''} then Some True
      else if s \<in> {''0'', ''f'', ''F'', ''false'', ''FALSE'', ''False''} then Some False
      else None)"

section \<open>Durations\<close>

definition unit_ns :: "string \<Rightarrow> nat option" where
  "unit_ns u =
     (if u = ''ns'' then Some 1
      else if u \<in> {''us'', [CHR 0xC2, CHR 0xB5, CHR ''s''], [CHR 0xCE, CHR 0xBC, CHR ''s'']} then Some 1000
      else if u = ''ms'' then Some 1000000
      else if u = ''s'' then Some 1000000000
      else if u = ''m'' then Some 60000000000
      else if u = ''h'' then Some 3600000000000
      else None)"

definition leadingInt :: "string \<Rightarrow> (nat \<times> string) option" where
  "leadingInt s =
     (let ds = takeWhile is_digit s in
      if digits_val ds > 2 ^ 63 then None else Some (digits_val ds, dropWhile is_digit s))"

text \<open>
  The fraction: digits beyond 63 bits are read but ignored. The result is the numerator, the
  power of ten and the rest.
\<close>

fun leadingFraction :: "string \<Rightarrow> nat \<Rightarrow> f64 \<Rightarrow> bool \<Rightarrow> nat \<times> f64 \<times> string" where
  "leadingFraction [] x scale overflow = (x, scale, [])"
| "leadingFraction (c # s) x scale overflow =
     (if \<not> is_digit c then (x, scale, c # s)
      else if overflow then leadingFraction s x scale True
      else if x > (2 ^ 63 - 1) div 10 then leadingFraction s x scale True
      else let y = x * 10 + (of_char c - 48) in
           if y > 2 ^ 63 then leadingFraction s x scale True
           else leadingFraction s y (f64_mul scale 10) False)"

text \<open>One number and its unit; the value in nanoseconds and the rest.\<close>

definition duration_item :: "string \<Rightarrow> (nat \<times> string) option" where
  "duration_item s =
     (if s = [] \<or> \<not> (hd s = CHR ''.'' \<or> is_digit (hd s)) then None
      else case leadingInt s of
        None \<Rightarrow> None
      | Some (v, s1) \<Rightarrow>
          let pre = (length s1 \<noteq> length s);
              dot = (s1 \<noteq> [] \<and> hd s1 = CHR ''.'');
              (f, scale, s2) = (if dot then leadingFraction (tl s1) 0 1 False else (0, 1, s1));
              post = (dot \<and> length s2 \<noteq> length (tl s1));
              u = takeWhile (\<lambda>c. \<not> (c = CHR ''.'' \<or> is_digit c)) s2;
              s3 = drop (length u) s2
          in if \<not> pre \<and> \<not> post then None
             else if u = [] then None
             else case unit_ns u of
               None \<Rightarrow> None
             | Some unit \<Rightarrow>
                 if v > 2 ^ 63 div unit then None
                 else let v1 = v * unit;
                          v2 = (if f > 0
                                then v1 + nat \<lfloor>f64_mul (f64_of_int (int f)) (f64_div (f64_of_int (int unit)) scale)\<rfloor>
                                else v1)
                      in if f > 0 \<and> v2 > 2 ^ 63 then None else Some (v2, s3))"

text \<open>Every item consumes at least one byte, so the length of the text bounds the loop.\<close>

fun duration_loop :: "nat \<Rightarrow> string \<Rightarrow> nat \<Rightarrow> nat option" where
  "duration_loop 0 s d = (if s = [] then Some d else None)"
| "duration_loop (Suc n) s d =
     (if s = [] then Some d
      else case duration_item s of
        None \<Rightarrow> None
      | Some (v, s') \<Rightarrow> if d + v > 2 ^ 63 then None else duration_loop n s' (d + v))"

definition ParseDuration :: "string \<Rightarrow> duration option" where
  "ParseDuration txt =
     (let neg = (txt \<noteq> [] \<and> hd txt = CHR ''-'');
          s = (if txt \<noteq> [] \<and> (hd txt = CHR ''-'' \<or> hd txt = CHR ''+'') then tl txt else txt)
      in if s = ''0'' then Some 0
         else if s = [] then None
         else case duration_loop (length s) s 0 of
           None \<Rightarrow> None
         | Some d \<Rightarrow> if neg then Some (- int d) else if d > 2 ^ 63 - 1 then None else Some (int d))"

section \<open>Words of a line, hexadecimal numbers\<close>

text \<open>\<open>strings.Fields\<close> on ASCII text, as in \<open>/proc/net/route\<close>.\<close>

fun fields_loop :: "string \<Rightarrow> string \<Rightarrow> string list" where
  "fields_loop [] cur = (if cur = [] then [] else [cur])"
| "fields_loop (c # s) cur =
     (if space1 c then (if cur = [] then fields_loop s [] else cur # fields_loop s [])
      else fields_loop s (cur @ [c]))"

definition Fields :: "string \<Rightarrow> string list" where
  "Fields s = fields_loop s []"

definition hex_value :: "char \<Rightarrow> nat option" where
  "hex_value c =
     (let n = (of_char c :: nat) in
      if 48 \<le> n \<and> n \<le> 57 then Some (n - 48)
      else if 97 \<le> n \<and> n \<le> 102 then Some (n - 87)
      else if 65 \<le> n \<and> n \<le> 70 then Some (n - 55)
      else None)"

definition ParseUint16_32 :: "string \<Rightarrow> nat option" where
  "ParseUint16_32 s =
     (if s = [] \<or> \<not> list_all (\<lambda>c. hex_value c \<noteq> None) s then None
      else let v = foldl (\<lambda>acc c. acc * 16 + the (hex_value c)) 0 s in
           if v \<ge> 2 ^ 32 then None else Some v)"

section \<open>The loop bound is enough\<close>

lemma leadingFraction_length: "leadingFraction s x sc ov = (f, sc', r) \<Longrightarrow> length r \<le> length s"
  by (induction s x sc ov rule: leadingFraction.induct)
    (auto simp: Let_def split: if_splits intro: le_SucI)

lemma duration_item_length:
  assumes "duration_item s = Some (v, s')"
  shows "length s' < length s"
proof -
  have "length (dropWhile is_digit s) \<le> length s" by (rule length_dropWhile_le)
  moreover have "length (tl t) \<le> length t" for t :: string by simp
  ultimately show ?thesis
    using assms
    by (auto simp: duration_item_def leadingInt_def Let_def split: if_splits option.splits prod.splits
        dest!: leadingFraction_length)
qed

lemma duration_loop_more:
  "length s \<le> n \<Longrightarrow> n \<le> m \<Longrightarrow> duration_loop m s d = duration_loop n s d"
proof (induction n arbitrary: s d m)
  case 0
  then show ?case by (cases m) auto
next
  case (Suc n)
  then obtain k where m: "m = Suc k" "n \<le> k" by (cases m) auto
  show ?case
  proof (cases "duration_item s")
    case None
    then show ?thesis by (simp add: m)
  next
    case (Some vs)
    then obtain v s' where vs: "duration_item s = Some (v, s')" by (cases vs) auto
    then have "length s' \<le> n" using duration_item_length [OF vs] Suc.prems(1) by simp
    then show ?thesis using Suc.IH [OF _ m(2), of s' "d + v"] by (simp add: m(1) vs)
  qed
qed

end
