(* ===== verification/Reducers.thy ===== *)
theory Reducers
  imports Float64
begin

text \<open>
  The metric reducers of the agent (\<open>src/agent/internal/features\<close>): classification of a
  flow, directional byte counters, packet, connection, retransmission and HTTP status
  counters, and the RTT statistics. A reducer's \<open>Apply\<close> takes a pointer to its model and
  returns at once when it is nil; the definitions work on the model pointed to.
  Every counting reducer is shown to be an instance of the locale \<open>counting\<close>.
\<close>

section \<open>Classification and direction\<close>

definition ProtocolTCP :: string where [go_const]: "ProtocolTCP = ''tcp''"
definition ProtocolUDP :: string where [go_const]: "ProtocolUDP = ''udp''"
definition ProtocolICMP :: string where [go_const]: "ProtocolICMP = ''icmp''"
definition NetworkIPv4 :: string where [go_const]: "NetworkIPv4 = ''ipv4''"
definition NetworkIPv6 :: string where [go_const]: "NetworkIPv6 = ''ipv6''"
definition ApplicationHTTP :: string where [go_const]: "ApplicationHTTP = ''http''"
definition ApplicationHTTPS :: string where [go_const]: "ApplicationHTTPS = ''https''"
definition ApplicationDNS :: string where [go_const]: "ApplicationDNS = ''dns''"
definition ApplicationSSH :: string where [go_const]: "ApplicationSSH = ''ssh''"
definition ApplicationPostgreSQL :: string where [go_const]: "ApplicationPostgreSQL = ''postgresql''"
definition Ingress :: string where [go_const]: "Ingress = ''ingress''"
definition Egress :: string where [go_const]: "Egress = ''egress''"

record classification_model =
  cl_Network :: string
  cl_Transport :: string
  cl_Application :: string

definition classification_zero :: classification_model where
  "classification_zero = \<lparr>cl_Network = [], cl_Transport = [], cl_Application = []\<rparr>"

definition NetworkFromFamily :: "u16 \<Rightarrow> string" where
  "NetworkFromFamily family =
     (if family = 2 then NetworkIPv4 else if family = 10 then NetworkIPv6 else [])"

definition ApplicationFromPort :: "string \<Rightarrow> int \<Rightarrow> string" where
  "ApplicationFromPort protocol dstPort =
     (if protocol = ProtocolTCP \<and> dstPort = 80 then ApplicationHTTP
      else if protocol = ProtocolTCP \<and> dstPort = 443 then ApplicationHTTPS
      else if protocol = ProtocolTCP \<and> dstPort = 22 then ApplicationSSH
      else if protocol = ProtocolTCP \<and> dstPort = 5432 then ApplicationPostgreSQL
      else if dstPort = 53 then ApplicationDNS
      else [])"

definition NormalizePorts :: "string \<Rightarrow> int \<Rightarrow> int \<Rightarrow> int \<times> int" where
  "NormalizePorts protocol srcPort dstPort =
     (if protocol = ProtocolICMP then (0, 0) else (srcPort, dstPort))"

definition FromKernel :: "u8 \<Rightarrow> string" where
  "FromKernel v = (if v = 1 then Ingress else Egress)"

section \<open>Bytes, packets and retransmissions\<close>

record bytes_model =
  by_Sent :: u64
  by_Received :: u64

definition bytes_zero :: bytes_model where
  "bytes_zero = \<lparr>by_Sent = 0, by_Received = 0\<rparr>"

definition bytes_Apply :: "bytes_model \<Rightarrow> string \<Rightarrow> u64 \<Rightarrow> bytes_model" where
  "bytes_Apply m flowDirection byteCount =
     (if byteCount = 0 then m
      else if flowDirection = Ingress then m\<lparr>by_Received := by_Received m + byteCount\<rparr>
      else m\<lparr>by_Sent := by_Sent m + byteCount\<rparr>)"

record packets_model =
  pk_Count :: u64

definition packets_Apply :: "packets_model \<Rightarrow> u64 \<Rightarrow> packets_model" where
  "packets_Apply m n = m\<lparr>pk_Count := pk_Count m + n\<rparr>"

record retrans_model =
  rx_Count :: u64

definition retrans_Apply :: "retrans_model \<Rightarrow> u64 \<Rightarrow> retrans_model" where
  "retrans_Apply m n = m\<lparr>rx_Count := rx_Count m + n\<rparr>"

section \<open>TCP connections and request inference\<close>

record conn_event =
  ce_Protocol :: string
  ce_Direction :: string
  ce_Bytes :: i64
  ce_Connections :: u32
  ce_Requests :: u32
  ce_Errors :: u32

record conn_model =
  cn_OpenCount :: u64
  cn_ErrorCount :: u64
  cn_RequestHint :: u64

definition conn_zero :: conn_model where
  "conn_zero = \<lparr>cn_OpenCount = 0, cn_ErrorCount = 0, cn_RequestHint = 0\<rparr>"

definition InferRequestCount :: "string \<Rightarrow> string \<Rightarrow> i64 \<Rightarrow> u32 \<Rightarrow> u32 \<Rightarrow> i64" where
  "InferRequestCount protocol flowDirection bytes connections errorCount =
     (if errorCount > 0 then 0
      else if connections > 0 then u32_to_i64 connections
      else if bytes \<le> 0 then 0
      else if protocol \<noteq> ProtocolUDP \<and> protocol \<noteq> ProtocolICMP then 0
      else if flowDirection = Ingress \<or> flowDirection = Egress then 1
      else 0)"

definition event_requests :: "conn_event \<Rightarrow> i64" where
  "event_requests e =
     (let requests = u32_to_i64 (ce_Requests e)
      in if requests = 0
         then InferRequestCount (ce_Protocol e) (ce_Direction e) (ce_Bytes e)
                (ce_Connections e) (ce_Errors e)
         else requests)"

definition connection_Apply :: "conn_model \<Rightarrow> conn_event \<Rightarrow> conn_model" where
  "connection_Apply m e =
     (let m1 = (if ce_Connections e > 0
                then m\<lparr>cn_OpenCount := cn_OpenCount m + u32_to_u64 (ce_Connections e)\<rparr> else m);
          m2 = (if ce_Errors e > 0
                then m1\<lparr>cn_ErrorCount := cn_ErrorCount m1 + u32_to_u64 (ce_Errors e)\<rparr> else m1);
          requests = event_requests e
      in if requests > 0
         then m2\<lparr>cn_RequestHint := cn_RequestHint m2 + to_u64 requests\<rparr> else m2)"

section \<open>HTTP status classes\<close>

record status_counters =
  st_Informational :: u64
  st_Success :: u64
  st_Redirect :: u64
  st_ClientError :: u64
  st_ServerError :: u64
  st_Last :: int

definition status_zero :: status_counters where
  "status_zero = \<lparr>st_Informational = 0, st_Success = 0, st_Redirect = 0, st_ClientError = 0,
     st_ServerError = 0, st_Last = 0\<rparr>"

definition status_Total :: "status_counters \<Rightarrow> u64" where
  "status_Total c =
     st_Informational c + st_Success c + st_Redirect c + st_ClientError c + st_ServerError c"

definition ApplyStatus :: "status_counters \<Rightarrow> int \<Rightarrow> status_counters" where
  "ApplyStatus c status =
     (if status < 100 \<or> status > 599 then c
      else let k = trunc_quot status 100
      in if k = 1 then c\<lparr>st_Informational := st_Informational c + 1, st_Last := status\<rparr>
         else if k = 2 then c\<lparr>st_Success := st_Success c + 1, st_Last := status\<rparr>
         else if k = 3 then c\<lparr>st_Redirect := st_Redirect c + 1, st_Last := status\<rparr>
         else if k = 4 then c\<lparr>st_ClientError := st_ClientError c + 1, st_Last := status\<rparr>
         else if k = 5 then c\<lparr>st_ServerError := st_ServerError c + 1, st_Last := status\<rparr>
         else c)"

definition MergeStatus :: "status_counters \<Rightarrow> status_counters \<Rightarrow> status_counters" where
  "MergeStatus c n =
     (let c1 = c\<lparr>st_Informational := st_Informational c + st_Informational n,
                 st_Success := st_Success c + st_Success n,
                 st_Redirect := st_Redirect c + st_Redirect n,
                 st_ClientError := st_ClientError c + st_ClientError n,
                 st_ServerError := st_ServerError c + st_ServerError n\<rparr>
      in if st_Last n \<noteq> 0 then c1\<lparr>st_Last := st_Last n\<rparr> else c1)"

section \<open>RTT statistics\<close>

record rtt_model =
  rt_CurrentMs :: f64
  rt_MinMs :: f64
  rt_MaxMs :: f64
  rt_AvgMs :: f64
  rt_Samples :: u64

definition rtt_zero :: rtt_model where
  "rtt_zero = \<lparr>rt_CurrentMs = 0, rt_MinMs = 0, rt_MaxMs = 0, rt_AvgMs = 0, rt_Samples = 0\<rparr>"

definition rtt_Apply :: "rtt_model \<Rightarrow> f64 \<Rightarrow> rtt_model" where
  "rtt_Apply m valueMs =
     (if valueMs \<le> 0 then m
      else let m1 = m\<lparr>rt_CurrentMs := valueMs\<rparr>;
               m2 = (if rt_Samples m1 = 0 \<or> valueMs < rt_MinMs m1
                     then m1\<lparr>rt_MinMs := valueMs\<rparr> else m1);
               m3 = (if valueMs > rt_MaxMs m2 then m2\<lparr>rt_MaxMs := valueMs\<rparr> else m2);
               m4 = m3\<lparr>rt_Samples := rt_Samples m3 + 1\<rparr>
           in m4\<lparr>rt_AvgMs := f64_add (rt_AvgMs m4)
                 (f64_div (f64_sub valueMs (rt_AvgMs m4)) (f64_of_u64 (rt_Samples m4)))\<rparr>)"

section \<open>The reducers count\<close>

datatype byte_counter = Sent | Received

fun bytes_tally :: "byte_counter \<Rightarrow> bytes_model \<Rightarrow> u64" where
  "bytes_tally Sent m = by_Sent m"
| "bytes_tally Received m = by_Received m"

text \<open>Ingress bytes count as received, every other direction as sent.\<close>

fun bytes_contrib :: "byte_counter \<Rightarrow> string \<times> u64 \<Rightarrow> u64" where
  "bytes_contrib Sent (d, n) = (if d = Ingress then 0 else n)"
| "bytes_contrib Received (d, n) = (if d = Ingress then n else 0)"

lemma bytes_tally_Apply [counters]:
  "bytes_tally i (bytes_Apply m d n) = bytes_tally i m + bytes_contrib i (d, n)"
  by (cases i) (auto simp: bytes_Apply_def)

interpretation bytes: tallying "\<lambda>m (d, n). bytes_Apply m d n" bytes_tally bytes_contrib
  by unfold_locales (auto simp: bytes_tally_Apply)

datatype conn_counter = Opens | Errors | Requests

fun conn_tally :: "conn_counter \<Rightarrow> conn_model \<Rightarrow> u64" where
  "conn_tally Opens m = cn_OpenCount m"
| "conn_tally Errors m = cn_ErrorCount m"
| "conn_tally Requests m = cn_RequestHint m"

fun conn_contrib :: "conn_counter \<Rightarrow> conn_event \<Rightarrow> u64" where
  "conn_contrib Opens e = u32_to_u64 (ce_Connections e)"
| "conn_contrib Errors e = u32_to_u64 (ce_Errors e)"
| "conn_contrib Requests e = to_u64 (event_requests e)"

lemma InferRequestCount_nonneg [simp]: "0 \<le> InferRequestCount p d b c e"
  by (simp add: InferRequestCount_def)

lemma event_requests_nonneg [simp]: "0 \<le> event_requests e"
  by (simp add: event_requests_def Let_def)

lemma u32_to_u64_0 [simp]: "u32_to_u64 0 = 0"
  by (simp add: u32_to_u64_def)

lemma conn_tally_Apply [counters]:
  "conn_tally i (connection_Apply m e) = conn_tally i m + conn_contrib i e"
proof -
  have "event_requests e = 0 \<or> 0 < event_requests e"
    using event_requests_nonneg [of e] by linarith
  then show ?thesis
    by (cases i) (auto simp: connection_Apply_def Let_def word_gt_0)
qed

interpretation conn: tallying connection_Apply conn_tally conn_contrib
  by unfold_locales (rule conn_tally_Apply)

datatype status_class = Informational | Success | Redirect | ClientError | ServerError

fun status_tally :: "status_class \<Rightarrow> status_counters \<Rightarrow> u64" where
  "status_tally Informational c = st_Informational c"
| "status_tally Success c = st_Success c"
| "status_tally Redirect c = st_Redirect c"
| "status_tally ClientError c = st_ClientError c"
| "status_tally ServerError c = st_ServerError c"

fun class_low :: "status_class \<Rightarrow> int" where
  "class_low Informational = 100"
| "class_low Success = 200"
| "class_low Redirect = 300"
| "class_low ClientError = 400"
| "class_low ServerError = 500"

definition status_contrib :: "status_class \<Rightarrow> int \<Rightarrow> u64" where
  "status_contrib k status = (if class_low k \<le> status \<and> status < class_low k + 100 then 1 else 0)"

lemma status_tally_Apply [counters]:
  "status_tally k (ApplyStatus c status) = status_tally k c + status_contrib k status"
proof -
  have "trunc_quot status 100 = status div 100" if "100 \<le> status"
    using that by (simp add: trunc_quot_def)
  then show ?thesis
    by (cases k) (auto simp: ApplyStatus_def status_contrib_def Let_def)
qed

lemma status_tally_Merge [counters]:
  "status_tally k (MergeStatus c n) = status_tally k c + status_tally k n"
  by (cases k) (simp_all add: MergeStatus_def Let_def)

lemma status_tally_zero [counters]: "status_tally k status_zero = 0"
  by (cases k) (simp_all add: status_zero_def)

interpretation status: counting ApplyStatus status_tally status_contrib status_zero MergeStatus
  by unfold_locales (rule status_tally_Apply status_tally_zero status_tally_Merge)+

section \<open>RTT statistics describe the samples\<close>

text \<open>
  \<open>rtt_describes m vs\<close>: the model \<open>m\<close> is what the positive samples \<open>vs\<close>, oldest first, make
  of an empty model.
\<close>

definition rtt_describes :: "rtt_model \<Rightarrow> f64 list \<Rightarrow> bool" where
  "rtt_describes m vs \<longleftrightarrow>
     rt_Samples m = of_nat (length vs) \<and> is_f64 (rt_AvgMs m) \<and>
     (if vs = [] then m = rtt_zero
      else rt_CurrentMs m = last vs \<and> rt_MinMs m = Min (set vs) \<and> rt_MaxMs m = Max (set vs)
         \<and> Min (set vs) \<le> rt_AvgMs m \<and> rt_AvgMs m \<le> Max (set vs))"

lemma rtt_describes_zero: "rtt_describes rtt_zero []"
  by (simp add: rtt_describes_def rtt_zero_def)

lemma f64_of_u64_ge_2:
  assumes "2 \<le> n" "n < 2 ^ 64" shows "2 \<le> f64_of_u64 (of_nat n)"
proof -
  have "uint (of_nat n :: u64) = int n"
    using assms(2) by (rule uint_of_nat_u64)
  then have "f64_round (of_int 2) \<le> f64_of_u64 (of_nat n)"
    unfolding f64_of_u64_def using assms by (intro f64_round_mono) simp
  then show ?thesis using f64_of_int_exact [of 2] by simp
qed

lemma rtt_Apply_first:
  assumes "0 < v" "is_f64 v"
  shows "rtt_describes (rtt_Apply rtt_zero v) [v]"
  using assms f64_of_int_exact [of 1]
  by (simp add: rtt_describes_def rtt_Apply_def rtt_zero_def Let_def f64_ops is_f64_def)

lemma rtt_Apply_fields:
  assumes "0 < v" "rt_Samples m \<noteq> 0"
  shows "rt_CurrentMs (rtt_Apply m v) = v"
    and "rt_MinMs (rtt_Apply m v) = min v (rt_MinMs m)"
    and "rt_MaxMs (rtt_Apply m v) = max v (rt_MaxMs m)"
    and "rt_Samples (rtt_Apply m v) = rt_Samples m + 1"
    and "rt_AvgMs (rtt_Apply m v) = f64_round (rt_AvgMs m
           + f64_round (f64_round (v - rt_AvgMs m) / f64_of_u64 (rt_Samples m + 1)))"
  using assms by (auto simp: rtt_Apply_def Let_def f64_add_def f64_sub_def f64_div_def)

lemma rtt_Apply_next:
  assumes m: "rtt_describes m vs" and ne: "vs \<noteq> []" and pos: "\<forall>w\<in>set vs. 0 < w"
    and v: "0 < v" "is_f64 v" and len: "length vs + 1 < 2 ^ 64"
  shows "rtt_describes (rtt_Apply m v) (vs @ [v])"
proof -
  have s: "rt_Samples m = of_nat (length vs)" using m by (simp add: rtt_describes_def)
  with ne len have nz: "rt_Samples m \<noteq> 0" by (simp add: of_nat_u64_eq_0)
  define n where "n = f64_of_u64 (rt_Samples m + 1)"
  have "2 \<le> length vs + 1" using ne by (cases vs) simp_all
  then have n: "2 \<le> n"
    using f64_of_u64_ge_2 [of "length vs + 1"] len by (simp add: n_def s add.commute)
  have avg: "f64_round (rt_AvgMs m) = rt_AvgMs m" and fv: "f64_round v = v"
    using m v by (simp_all add: rtt_describes_def is_f64_def)
  have mm: "rt_MinMs m = Min (set vs)" "rt_MaxMs m = Max (set vs)"
      "Min (set vs) \<le> rt_AvgMs m" "rt_AvgMs m \<le> Max (set vs)"
    using m ne by (simp_all add: rtt_describes_def)
  have "min v (Min (set vs)) \<le> f64_round (rt_AvgMs m + f64_round (f64_round (v - rt_AvgMs m) / n))
      \<and> f64_round (rt_AvgMs m + f64_round (f64_round (v - rt_AvgMs m) / n)) \<le> max v (Max (set vs))"
    using mm by (intro f64.mean_between [OF avg fv n]) auto
  moreover have "Min (set (vs @ [v])) = min v (Min (set vs))" "Max (set (vs @ [v])) = max v (Max (set vs))"
    using ne by simp_all
  ultimately show ?thesis
    using mm by (simp add: rtt_describes_def rtt_Apply_fields [OF v(1) nz] s n_def)
qed

lemma rtt_Apply_ignored: "v \<le> 0 \<Longrightarrow> rtt_Apply m v = m"
  by (simp add: rtt_Apply_def)

lemma rtt_Apply_describes:
  assumes "rtt_describes m vs" "\<forall>w\<in>set vs. 0 < w" "0 < v" "is_f64 v" "length vs + 1 < 2 ^ 64"
  shows "rtt_describes (rtt_Apply m v) (vs @ [v])"
proof (cases "vs = []")
  case True
  with assms show ?thesis using rtt_Apply_first [of v] by (simp add: rtt_describes_def)
next
  case False
  then show ?thesis using rtt_Apply_next assms by blast
qed

text \<open>
  C3. RTT statistics are exact about the samples. After any sequence of measured values
  (float64 values, fewer than \<open>2 ^ 64\<close>), of which the reducer ignores those that are not
  positive, the model holds the number of the positive values, the latest, the smallest and
  the largest of them, and a mean that rounding never pushes outside the range from the
  smallest to the largest.
\<close>

theorem rtt_statistics:
  assumes "\<forall>v\<in>set vs. is_f64 v" and "length vs < 2 ^ 64"
  shows "rtt_describes (foldl rtt_Apply rtt_zero vs) (filter (\<lambda>v. 0 < v) vs)"
  using assms
proof (induction vs rule: rev_induct)
  case (snoc v vs)
  let ?ps = "filter (\<lambda>v. 0 < v) vs"
  have "length ?ps + 1 \<le> length vs + 1" by simp
  also have "\<dots> < 2 ^ 64" using snoc.prems by simp
  finally have len: "length ?ps + 1 < 2 ^ 64" .
  have d: "rtt_describes (foldl rtt_Apply rtt_zero vs) ?ps" using snoc by simp
  show ?case
  proof (cases "0 < v")
    case True
    then show ?thesis using rtt_Apply_describes [OF d _ True _ len] snoc.prems(1) by simp
  next
    case False
    then show ?thesis using d by (simp add: rtt_Apply_ignored)
  qed
qed (simp add: rtt_describes_zero)

theorem rtt_statistics_witness:
  "rt_MinMs (foldl rtt_Apply rtt_zero [10, 0, 20]) = 10
     \<and> 10 \<le> rt_AvgMs (foldl rtt_Apply rtt_zero [10, 0, 20])"
proof -
  have "is_f64 10" "is_f64 20"
    using f64_of_int_exact [of 10] f64_of_int_exact [of 20] by (simp_all add: is_f64_def)
  then have "\<forall>v\<in>set [10, 0, 20 :: f64]. is_f64 v" by simp
  from rtt_statistics [OF this] show ?thesis by (simp add: rtt_describes_def)
qed

section \<open>HTTP status counters count the observed codes\<close>

definition valid_status :: "int \<Rightarrow> bool" where
  "valid_status s \<longleftrightarrow> 100 \<le> s \<and> s \<le> 599"

lemma status_Total_Apply:
  "status_Total (ApplyStatus c s) = status_Total c + (if valid_status s then 1 else 0)"
proof -
  have "trunc_quot s 100 = s div 100" if "100 \<le> s" using that by (simp add: trunc_quot_def)
  then show ?thesis
    by (auto simp: ApplyStatus_def status_Total_def valid_status_def Let_def)
qed

lemma st_Last_Apply: "st_Last (ApplyStatus c s) = (if valid_status s then s else st_Last c)"
proof -
  have "trunc_quot s 100 = s div 100" if "100 \<le> s" using that by (simp add: trunc_quot_def)
  then show ?thesis by (auto simp: ApplyStatus_def valid_status_def Let_def)
qed

lemma sum_list_indicator:
  "(\<Sum>x\<leftarrow>xs. if P x then 1 else 0) = (of_nat (length (filter P xs)) :: 'a::semiring_1)"
  by (induction xs) simp_all

text \<open>
  HTTP status counters. After any sequence of status values reported by the kernel
  programs, each class counter holds the number of codes of its class, \<open>Total\<close> the number of
  codes from 100 to 599 (both modulo \<open>2 ^ 64\<close>), every other value is ignored, and \<open>Last\<close> is
  the most recent valid code, or 0 if there was none.
\<close>

theorem http_status_counts:
  "status_tally k (foldl ApplyStatus status_zero ss)
     = of_nat (length (filter (\<lambda>s. class_low k \<le> s \<and> s < class_low k + 100) ss))
   \<and> status_Total (foldl ApplyStatus status_zero ss) = of_nat (length (filter valid_status ss))
   \<and> st_Last (foldl ApplyStatus status_zero ss)
     = (if filter valid_status ss = [] then 0 else last (filter valid_status ss))"
proof (intro conjI)
  show "status_tally k (foldl ApplyStatus status_zero ss)
     = of_nat (length (filter (\<lambda>s. class_low k \<le> s \<and> s < class_low k + 100) ss))"
    by (simp add: status.tally_fold status_tally_zero status_contrib_def sum_list_indicator)
  show "status_Total (foldl ApplyStatus status_zero ss) = of_nat (length (filter valid_status ss))"
    by (induction ss rule: rev_induct)
       (simp_all add: status_Total_Apply, simp add: status_Total_def status_zero_def)
  show "st_Last (foldl ApplyStatus status_zero ss)
     = (if filter valid_status ss = [] then 0 else last (filter valid_status ss))"
    by (induction ss rule: rev_induct) (simp_all add: st_Last_Apply, simp add: status_zero_def)
qed

end
