(* ===== verification/Flow_Store.thy ===== *)
theory Flow_Store
  imports Reducers
begin

text \<open>
  The agent's flow pipeline and flow store (\<open>src/agent/internal/pipeline\<close> and
  \<open>src/agent/internal/flow\<close>): the \<open>FlowMetric\<close> events, the dispatcher, the per-flow state with
  its \<open>Apply\<close> and \<open>Merge\<close>, and the accumulator that aggregates events by flow key until it is
  drained. The lemmas show that the store is an instance of \<open>counting\<close>, that it aggregates
  each flow exactly, and that a drained batch can be put back without loss.
\<close>

section \<open>Events\<close>

record flow_metric =
  fm_AgentID :: string
  fm_SrcIP :: string
  fm_DstIP :: string
  fm_SrcPort :: int
  fm_DstPort :: int
  fm_Protocol :: string
  fm_Direction :: string
  fm_Interface :: string
  fm_Source :: string
  fm_ByteCount :: i64
  fm_PacketCount :: i64
  fm_ConnectionCount :: i64
  fm_RequestCount :: i64
  fm_ErrorCount :: i64
  fm_RetransmissionCount :: i64
  fm_RTTMs :: f64
  fm_AppDelayMs :: f64
  fm_HTTPStatus :: int
  fm_FirstSeen :: gotime
  fm_LastSeen :: gotime

definition flow_metric_zero :: flow_metric where
  "flow_metric_zero = \<lparr>fm_AgentID = [], fm_SrcIP = [], fm_DstIP = [], fm_SrcPort = 0, fm_DstPort = 0,
     fm_Protocol = [], fm_Direction = [], fm_Interface = [], fm_Source = [], fm_ByteCount = 0,
     fm_PacketCount = 0, fm_ConnectionCount = 0, fm_RequestCount = 0, fm_ErrorCount = 0,
     fm_RetransmissionCount = 0, fm_RTTMs = 0, fm_AppDelayMs = 0, fm_HTTPStatus = 0,
     fm_FirstSeen = 0, fm_LastSeen = 0\<rparr>"

definition FlowMetricEventType :: string where
  "FlowMetricEventType = ''flow.metric''"

definition FlowMetric_Type :: "flow_metric \<Rightarrow> string" where
  "FlowMetric_Type e = FlowMetricEventType"

definition FlowMetric_Time :: "flow_metric \<Rightarrow> gotime" where
  "FlowMetric_Time e =
     (if \<not> IsZero (fm_LastSeen e) then fm_LastSeen e
      else if \<not> IsZero (fm_FirstSeen e) then fm_FirstSeen e
      else 0)"

section \<open>Dispatcher, pipeline and registry\<close>

text \<open>
  A handler takes a context and an event and returns an error or nil (\<open>None\<close>). The pipeline
  pointer and its dispatcher may be nil; both are options.
\<close>

type_synonym ('c, 'e, 'err) handler = "'c \<Rightarrow> 'e \<Rightarrow> 'err option"
type_synonym ('c, 'e, 'err) dispatcher = "(string \<times> ('c, 'e, 'err) handler) list"

definition Dispatcher_Register ::
    "('c, 'e, 'err) dispatcher \<Rightarrow> string \<Rightarrow> ('c, 'e, 'err) handler \<Rightarrow> ('c, 'e, 'err) dispatcher" where
  "Dispatcher_Register d eventType h = alist_set eventType h d"

definition Dispatcher_Dispatch ::
    "('e \<Rightarrow> string) \<Rightarrow> ('c, 'e, 'err) dispatcher \<Rightarrow> 'c \<Rightarrow> 'e \<Rightarrow> 'err option" where
  "Dispatcher_Dispatch type d ctx e =
     (case alist_get d (type e) of None \<Rightarrow> None | Some h \<Rightarrow> h ctx e)"

definition Pipeline_Handle ::
    "('e \<Rightarrow> string) \<Rightarrow> ('c, 'e, 'err) dispatcher option option \<Rightarrow> 'c \<Rightarrow> 'e \<Rightarrow> 'err option" where
  "Pipeline_Handle type p ctx e =
     (case p of None \<Rightarrow> None | Some None \<Rightarrow> None | Some (Some d) \<Rightarrow> Dispatcher_Dispatch type d ctx e)"

definition Registry_Enable :: "(string \<times> bool) list \<Rightarrow> string \<Rightarrow> (string \<times> bool) list" where
  "Registry_Enable r name = alist_set name True r"

definition Registry_Enabled :: "(string \<times> bool) list \<Rightarrow> string \<Rightarrow> bool" where
  "Registry_Enabled r name = (case alist_get r name of None \<Rightarrow> False | Some b \<Rightarrow> b)"

section \<open>Flow keys and flow state\<close>

record flow_key =
  ky_AgentID :: string
  ky_SrcIP :: string
  ky_DstIP :: string
  ky_DstPort :: int
  ky_Protocol :: string
  ky_Direction :: string
  ky_Interface :: string

definition KeyFromMetric :: "flow_metric \<Rightarrow> flow_key" where
  "KeyFromMetric e = \<lparr>ky_AgentID = fm_AgentID e, ky_SrcIP = fm_SrcIP e, ky_DstIP = fm_DstIP e,
     ky_DstPort = fm_DstPort e, ky_Protocol = fm_Protocol e, ky_Direction = fm_Direction e,
     ky_Interface = fm_Interface e\<rparr>"

record traffic_state =
  tr_Bytes :: bytes_model
  tr_Packets :: packets_model
  tr_Direction :: string

record tcp_state =
  tc_Connection :: conn_model
  tc_RTT :: rtt_model
  tc_Retrans :: retrans_model

record application_state =
  ap_AvgDelayMs :: f64
  ap_Samples :: u64
  ap_HTTPStatus :: status_counters

record flow_state =
  fs_Key :: flow_key
  fs_SrcPort :: int
  fs_Traffic :: traffic_state
  fs_TCP :: tcp_state
  fs_Application :: application_state
  fs_Classification :: classification_model
  fs_FirstSeen :: gotime
  fs_LastSeen :: gotime

definition State_new :: "flow_key \<Rightarrow> flow_state" where
  "State_new key = \<lparr>fs_Key = key, fs_SrcPort = 0,
     fs_Traffic = \<lparr>tr_Bytes = bytes_zero, tr_Packets = \<lparr>pk_Count = 0\<rparr>, tr_Direction = []\<rparr>,
     fs_TCP = \<lparr>tc_Connection = conn_zero, tc_RTT = rtt_zero, tc_Retrans = \<lparr>rx_Count = 0\<rparr>\<rparr>,
     fs_Application = \<lparr>ap_AvgDelayMs = 0, ap_Samples = 0, ap_HTTPStatus = status_zero\<rparr>,
     fs_Classification = classification_zero, fs_FirstSeen = 0, fs_LastSeen = 0\<rparr>"

definition nonNegative :: "i64 \<Rightarrow> i64" where
  "nonNegative x = (if x < 0 then 0 else x)"

definition networkFromIP :: "string \<Rightarrow> string" where
  "networkFromIP ip =
     (if CHR '':'' \<in> set ip then NetworkIPv6 else if ip \<noteq> [] then NetworkIPv4 else [])"

fun firstNonEmpty :: "string list \<Rightarrow> string" where
  "firstNonEmpty [] = []"
| "firstNonEmpty (v # vs) = (if v \<noteq> [] then v else firstNonEmpty vs)"

definition applyAppDelay :: "application_state \<Rightarrow> f64 \<Rightarrow> application_state" where
  "applyAppDelay m valueMs =
     (if valueMs \<le> 0 then m
      else let m1 = m\<lparr>ap_Samples := ap_Samples m + 1\<rparr>
      in m1\<lparr>ap_AvgDelayMs := f64_add (ap_AvgDelayMs m1)
            (f64_div (f64_sub valueMs (ap_AvgDelayMs m1)) (f64_of_u64 (ap_Samples m1)))\<rparr>)"

definition conn_event_of :: "flow_metric \<Rightarrow> conn_event" where
  "conn_event_of e = \<lparr>ce_Protocol = fm_Protocol e, ce_Direction = fm_Direction e,
     ce_Bytes = fm_ByteCount e,
     ce_Connections = to_u32 (nonNegative (fm_ConnectionCount e)),
     ce_Requests = to_u32 (nonNegative (fm_RequestCount e)),
     ce_Errors = to_u32 (nonNegative (fm_ErrorCount e))\<rparr>"

text \<open>
  \<open>State.Apply\<close>, in the order of the source: source port, bytes, packets, direction,
  connection, RTT, retransmissions, application delay, HTTP status, classification and the
  time window.
\<close>

definition State_Apply :: "flow_state \<Rightarrow> flow_metric \<Rightarrow> flow_state" where
  "State_Apply s e =
     (let s1 = (if fs_SrcPort s = 0 \<and> fm_SrcPort e > 0 then s\<lparr>fs_SrcPort := fm_SrcPort e\<rparr> else s);
          s2 = s1\<lparr>fs_Traffic := (fs_Traffic s1)
                 \<lparr>tr_Bytes := bytes_Apply (tr_Bytes (fs_Traffic s1)) (fm_Direction e)
                                (to_u64 (nonNegative (fm_ByteCount e))),
                  tr_Packets := packets_Apply (tr_Packets (fs_Traffic s1))
                                (to_u64 (nonNegative (fm_PacketCount e))),
                  tr_Direction := fm_Direction e\<rparr>\<rparr>;
          s3 = s2\<lparr>fs_TCP := (fs_TCP s2)
                 \<lparr>tc_Connection := connection_Apply (tc_Connection (fs_TCP s2)) (conn_event_of e),
                  tc_RTT := rtt_Apply (tc_RTT (fs_TCP s2)) (fm_RTTMs e),
                  tc_Retrans := retrans_Apply (tc_Retrans (fs_TCP s2))
                                (to_u64 (nonNegative (fm_RetransmissionCount e)))\<rparr>\<rparr>;
          app = applyAppDelay (fs_Application s3) (fm_AppDelayMs e);
          s4 = s3\<lparr>fs_Application :=
                 app\<lparr>ap_HTTPStatus := ApplyStatus (ap_HTTPStatus app) (fm_HTTPStatus e)\<rparr>\<rparr>;
          s5 = s4\<lparr>fs_Classification := \<lparr>cl_Network = networkFromIP (fm_SrcIP e),
                 cl_Transport = fm_Protocol e,
                 cl_Application = ApplicationFromPort (fm_Protocol e) (fm_DstPort e)\<rparr>\<rparr>;
          s6 = (if IsZero (fs_FirstSeen s5)
                   \<or> \<not> IsZero (fm_FirstSeen e) \<and> fm_FirstSeen e < fs_FirstSeen s5
                then s5\<lparr>fs_FirstSeen := fm_FirstSeen e\<rparr> else s5)
      in if fm_LastSeen e > fs_LastSeen s6 then s6\<lparr>fs_LastSeen := fm_LastSeen e\<rparr> else s6)"

definition mergeAppDelay :: "application_state \<Rightarrow> application_state \<Rightarrow> application_state" where
  "mergeAppDelay c n =
     (if ap_Samples n = 0 then c
      else let total = ap_Samples c + ap_Samples n
      in if total = 0 then c
         else c\<lparr>ap_AvgDelayMs := f64_div
                  (f64_add (f64_mul (ap_AvgDelayMs c) (f64_of_u64 (ap_Samples c)))
                           (f64_mul (ap_AvgDelayMs n) (f64_of_u64 (ap_Samples n))))
                  (f64_of_u64 total),
                ap_Samples := total\<rparr>)"

definition mergeRTT :: "rtt_model \<Rightarrow> rtt_model \<Rightarrow> rtt_model" where
  "mergeRTT c n =
     (if rt_Samples n = 0 then c
      else if rt_Samples c = 0 then n
      else let total = rt_Samples c + rt_Samples n;
               c1 = c\<lparr>rt_AvgMs := f64_div
                        (f64_add (f64_mul (rt_AvgMs c) (f64_of_u64 (rt_Samples c)))
                                 (f64_mul (rt_AvgMs n) (f64_of_u64 (rt_Samples n))))
                        (f64_of_u64 total),
                      rt_Samples := total,
                      rt_CurrentMs := rt_CurrentMs n\<rparr>;
               c2 = (if rt_MinMs c1 = 0 \<or> rt_MinMs n > 0 \<and> rt_MinMs n < rt_MinMs c1
                     then c1\<lparr>rt_MinMs := rt_MinMs n\<rparr> else c1)
           in if rt_MaxMs n > rt_MaxMs c2 then c2\<lparr>rt_MaxMs := rt_MaxMs n\<rparr> else c2)"

definition State_Merge :: "flow_state \<Rightarrow> flow_state \<Rightarrow> flow_state" where
  "State_Merge s n =
     (let s1 = (if fs_SrcPort s = 0 \<and> fs_SrcPort n > 0 then s\<lparr>fs_SrcPort := fs_SrcPort n\<rparr> else s);
          t = fs_Traffic s1; tn = fs_Traffic n;
          s2 = s1\<lparr>fs_Traffic := t
                 \<lparr>tr_Bytes := \<lparr>by_Sent = by_Sent (tr_Bytes t) + by_Sent (tr_Bytes tn),
                               by_Received = by_Received (tr_Bytes t) + by_Received (tr_Bytes tn)\<rparr>,
                  tr_Packets := \<lparr>pk_Count = pk_Count (tr_Packets t) + pk_Count (tr_Packets tn)\<rparr>,
                  tr_Direction := firstNonEmpty [tr_Direction tn, tr_Direction t]\<rparr>\<rparr>;
          c = fs_TCP s2; cn = fs_TCP n;
          s3 = s2\<lparr>fs_TCP := c
                 \<lparr>tc_Connection :=
                    \<lparr>cn_OpenCount = cn_OpenCount (tc_Connection c) + cn_OpenCount (tc_Connection cn),
                     cn_ErrorCount = cn_ErrorCount (tc_Connection c) + cn_ErrorCount (tc_Connection cn),
                     cn_RequestHint = cn_RequestHint (tc_Connection c) + cn_RequestHint (tc_Connection cn)\<rparr>,
                  tc_RTT := mergeRTT (tc_RTT c) (tc_RTT cn),
                  tc_Retrans := \<lparr>rx_Count = rx_Count (tc_Retrans c) + rx_Count (tc_Retrans cn)\<rparr>\<rparr>\<rparr>;
          app = mergeAppDelay (fs_Application s3) (fs_Application n);
          s4 = s3\<lparr>fs_Application := app\<lparr>ap_HTTPStatus :=
                 MergeStatus (ap_HTTPStatus app) (ap_HTTPStatus (fs_Application n))\<rparr>\<rparr>;
          s5 = (if fs_Classification n \<noteq> classification_zero
                then s4\<lparr>fs_Classification := fs_Classification n\<rparr> else s4);
          s6 = (if IsZero (fs_FirstSeen s5)
                   \<or> \<not> IsZero (fs_FirstSeen n) \<and> fs_FirstSeen n < fs_FirstSeen s5
                then s5\<lparr>fs_FirstSeen := fs_FirstSeen n\<rparr> else s5)
      in if fs_LastSeen n > fs_LastSeen s6 then s6\<lparr>fs_LastSeen := fs_LastSeen n\<rparr> else s6)"

section \<open>The accumulator\<close>

record accumulator =
  flows :: "(flow_key \<times> flow_state) list"

definition NewAccumulator :: accumulator where
  "NewAccumulator = \<lparr>flows = []\<rparr>"

definition Accumulator_Add :: "accumulator \<Rightarrow> flow_metric \<Rightarrow> accumulator" where
  "Accumulator_Add a e =
     (let key = KeyFromMetric e;
          current = (case alist_get (flows a) key of None \<Rightarrow> State_new key | Some s \<Rightarrow> s)
      in a\<lparr>flows := alist_set key (State_Apply current e) (flows a)\<rparr>)"

definition Accumulator_AddState :: "accumulator \<Rightarrow> flow_state \<Rightarrow> accumulator" where
  "Accumulator_AddState a state =
     (let key = fs_Key state
      in case alist_get (flows a) key of
           None \<Rightarrow> a\<lparr>flows := alist_set key state (flows a)\<rparr>
         | Some current \<Rightarrow> a\<lparr>flows := alist_set key (State_Merge current state) (flows a)\<rparr>)"

definition Accumulator_AddAll :: "accumulator \<Rightarrow> flow_state list \<Rightarrow> accumulator" where
  "Accumulator_AddAll a states = foldl Accumulator_AddState a states"

text \<open>\<open>Drain\<close> walks over the map, in the order \<open>ord\<close>, and installs a new empty map.\<close>

definition Accumulator_Drain ::
    "(flow_state list \<Rightarrow> flow_state list) \<Rightarrow> accumulator \<Rightarrow> flow_state list \<times> accumulator" where
  "Accumulator_Drain ord a =
     (if flows a = [] then ([], a) else (ord (map snd (flows a)), a\<lparr>flows := []\<rparr>))"

text \<open>The processor: a nil processor or a nil store is ignored.\<close>

type_synonym processor = "accumulator option option"

definition NewProcessor :: processor where
  "NewProcessor = Some (Some NewAccumulator)"

definition Processor_Handle :: "processor \<Rightarrow> flow_metric \<Rightarrow> processor" where
  "Processor_Handle p e =
     (case p of Some (Some a) \<Rightarrow> Some (Some (Accumulator_Add a e)) | _ \<Rightarrow> p)"

definition Processor_Drain ::
    "(flow_state list \<Rightarrow> flow_state list) \<Rightarrow> processor \<Rightarrow> flow_state list \<times> processor" where
  "Processor_Drain ord p =
     (case p of
        Some (Some a) \<Rightarrow> (case Accumulator_Drain ord a of (b, a') \<Rightarrow> (b, Some (Some a')))
      | _ \<Rightarrow> ([], p))"

section \<open>The counters of a flow\<close>

datatype flow_counter =
    FBytes byte_counter | FPackets | FConn conn_counter | FRetrans | FStatus status_class

fun flow_tally :: "flow_counter \<Rightarrow> flow_state \<Rightarrow> u64" where
  "flow_tally (FBytes i) s = bytes_tally i (tr_Bytes (fs_Traffic s))"
| "flow_tally FPackets s = pk_Count (tr_Packets (fs_Traffic s))"
| "flow_tally (FConn i) s = conn_tally i (tc_Connection (fs_TCP s))"
| "flow_tally FRetrans s = rx_Count (tc_Retrans (fs_TCP s))"
| "flow_tally (FStatus k) s = status_tally k (ap_HTTPStatus (fs_Application s))"

fun flow_contrib :: "flow_counter \<Rightarrow> flow_metric \<Rightarrow> u64" where
  "flow_contrib (FBytes i) e = bytes_contrib i (fm_Direction e, to_u64 (nonNegative (fm_ByteCount e)))"
| "flow_contrib FPackets e = to_u64 (nonNegative (fm_PacketCount e))"
| "flow_contrib (FConn i) e = conn_contrib i (conn_event_of e)"
| "flow_contrib FRetrans e = to_u64 (nonNegative (fm_RetransmissionCount e))"
| "flow_contrib (FStatus k) e = status_contrib k (fm_HTTPStatus e)"

lemma ap_HTTPStatus_applyAppDelay [simp]: "ap_HTTPStatus (applyAppDelay m v) = ap_HTTPStatus m"
  by (simp add: applyAppDelay_def Let_def)

lemma ap_HTTPStatus_mergeAppDelay [simp]: "ap_HTTPStatus (mergeAppDelay m v) = ap_HTTPStatus m"
  by (simp add: mergeAppDelay_def Let_def)

lemma flow_tally_Apply [counters]:
  "flow_tally i (State_Apply s e) = flow_tally i s + flow_contrib i e"
  by (cases i) (simp_all add: State_Apply_def Let_def counters packets_Apply_def retrans_Apply_def)

lemma flow_tally_Merge [counters]:
  "flow_tally i (State_Merge s n) = flow_tally i s + flow_tally i n"
proof (cases i)
  case (FBytes j)
  then show ?thesis by (cases j) (simp_all add: State_Merge_def Let_def)
next
  case (FConn j)
  then show ?thesis by (cases j) (simp_all add: State_Merge_def Let_def)
qed (simp_all add: State_Merge_def Let_def counters)

lemma flow_tally_new [counters]: "flow_tally i (State_new k) = 0"
proof (cases i)
  case (FBytes j)
  then show ?thesis by (cases j) (simp_all add: State_new_def bytes_zero_def)
next
  case (FConn j)
  then show ?thesis by (cases j) (simp_all add: State_new_def conn_zero_def)
qed (simp_all add: State_new_def counters)

interpretation flow: counting State_Apply flow_tally flow_contrib "State_new k" State_Merge for k
  by unfold_locales (rule flow_tally_Apply flow_tally_new flow_tally_Merge)+

lemma fs_Key_Apply [simp]: "fs_Key (State_Apply s e) = fs_Key s"
  by (simp add: State_Apply_def Let_def)

lemma fs_Key_Merge [simp]: "fs_Key (State_Merge s n) = fs_Key s"
  by (simp add: State_Merge_def Let_def)

lemma fs_Key_new [simp]: "fs_Key (State_new k) = k"
  by (simp add: State_new_def)

section \<open>The store: invariant and totals\<close>

definition acc_inv :: "accumulator \<Rightarrow> bool" where
  "acc_inv a \<longleftrightarrow> distinct_keys (flows a) \<and> (\<forall>(k, s)\<in>set (flows a). fs_Key s = k)"

definition acc_total :: "flow_counter \<Rightarrow> accumulator \<Rightarrow> u64" where
  "acc_total i a = (\<Sum>(k, s)\<leftarrow>flows a. flow_tally i s)"

definition batch_total :: "flow_counter \<Rightarrow> flow_state list \<Rightarrow> u64" where
  "batch_total i b = (\<Sum>s\<leftarrow>b. flow_tally i s)"

lemma acc_inv_alist_set:
  assumes "acc_inv a" "fs_Key s = k"
  shows "acc_inv (a\<lparr>flows := alist_set k s (flows a)\<rparr>)"
  using assms set_alist_set [of k s "flows a"] by (fastforce simp: acc_inv_def)

lemma acc_inv_get: "acc_inv a \<Longrightarrow> alist_get (flows a) k = Some s \<Longrightarrow> fs_Key s = k"
  by (auto simp: acc_inv_def dest: alist_get_in)

lemma acc_inv_New [simp]: "acc_inv NewAccumulator"
  by (simp add: acc_inv_def NewAccumulator_def)

lemma acc_inv_Add: "acc_inv a \<Longrightarrow> acc_inv (Accumulator_Add a e)"
  unfolding Accumulator_Add_def Let_def
  by (rule acc_inv_alist_set) (auto split: option.splits dest: acc_inv_get)

lemma acc_inv_AddState: "acc_inv a \<Longrightarrow> acc_inv (Accumulator_AddState a s)"
  unfolding Accumulator_AddState_def Let_def
  by (auto split: option.splits intro!: acc_inv_alist_set dest: acc_inv_get)

lemma acc_inv_AddAll: "acc_inv a \<Longrightarrow> acc_inv (Accumulator_AddAll a b)"
  unfolding Accumulator_AddAll_def
  by (induction b arbitrary: a) (simp_all add: acc_inv_AddState)

lemma acc_inv_Drain: "acc_inv a \<Longrightarrow> acc_inv (snd (Accumulator_Drain ord a))"
  by (simp add: acc_inv_def Accumulator_Drain_def)

lemmas acc_inv_ops = acc_inv_New acc_inv_Add acc_inv_AddState acc_inv_AddAll acc_inv_Drain

lemma acc_total_New [simp]: "acc_total i NewAccumulator = 0"
  by (simp add: acc_total_def NewAccumulator_def)

lemma acc_total_Add:
  "acc_inv a \<Longrightarrow> acc_total i (Accumulator_Add a e) = acc_total i a + flow_contrib i e"
  unfolding acc_total_def Accumulator_Add_def Let_def
  by (simp add: sum_alist_set acc_inv_def flow_tally_Apply flow_tally_new split: option.splits)

lemma acc_total_AddState:
  "acc_inv a \<Longrightarrow> acc_total i (Accumulator_AddState a s) = acc_total i a + flow_tally i s"
  unfolding acc_total_def Accumulator_AddState_def Let_def
  by (simp add: sum_alist_set acc_inv_def flow_tally_Merge split: option.splits)

lemma acc_total_AddAll:
  "acc_inv a \<Longrightarrow> acc_total i (Accumulator_AddAll a b) = acc_total i a + batch_total i b"
  unfolding Accumulator_AddAll_def batch_total_def
  by (induction b arbitrary: a) (simp_all add: acc_total_AddState acc_inv_AddState algebra_simps)

lemma batch_total_order: "map_order ord \<Longrightarrow> batch_total i (ord b) = batch_total i b"
  unfolding batch_total_def by (rule sum_list_mset_eq) simp

lemma batch_total_Nil [simp]: "batch_total i [] = 0"
  by (simp add: batch_total_def)

lemma acc_total_Drain:
  assumes "map_order ord" "Accumulator_Drain ord a = (b, a')"
  shows "batch_total i b = acc_total i a" and "acc_total i a' = 0"
proof -
  have "batch_total i (map snd (flows a)) = acc_total i a"
    by (simp add: batch_total_def acc_total_def case_prod_unfold comp_def)
  with assms show "batch_total i b = acc_total i a" and "acc_total i a' = 0"
    by (auto simp: Accumulator_Drain_def batch_total_order acc_total_def split: if_splits)
qed

section \<open>What the store guarantees\<close>

definition events_of :: "flow_key \<Rightarrow> flow_metric list \<Rightarrow> flow_metric list" where
  "events_of k es = filter (\<lambda>e. KeyFromMetric e = k) es"

lemma get_Add:
  "alist_get (flows (Accumulator_Add a e)) k =
     (if KeyFromMetric e = k
      then Some (State_Apply (case alist_get (flows a) k of None \<Rightarrow> State_new k | Some s \<Rightarrow> s) e)
      else alist_get (flows a) k)"
  by (auto simp: Accumulator_Add_def Let_def alist_get_set)

lemma get_fold_Add:
  "alist_get (flows (foldl Accumulator_Add NewAccumulator es)) k =
     (if events_of k es = [] then None
      else Some (foldl State_Apply (State_new k) (events_of k es)))"
proof (induction es rule: rev_induct)
  case Nil
  then show ?case by (simp add: NewAccumulator_def events_of_def)
next
  case (snoc e es)
  then show ?case by (auto simp: get_Add events_of_def)
qed

text \<open>
  C2. The accumulator aggregates by flow. After any sequence of events the store has an entry
  for a key exactly when some event had that key (agent, addresses, destination port,
  protocol, direction and interface), and the entry is the state that only the events of
  that key, in their order, make of a fresh state: flows never mix, and none is missing.
\<close>

theorem accumulator_aggregates:
  "alist_get (flows (foldl Accumulator_Add NewAccumulator es)) k =
     (if events_of k es = [] then None
      else Some (foldl State_Apply (State_new k) (events_of k es)))"
  by (rule get_fold_Add)

lemma acc_inv_fold: "acc_inv (foldl Accumulator_Add NewAccumulator es)"
  by (induction es rule: rev_induct) (simp_all add: acc_inv_Add)

lemma foldl_Apply_key [simp]: "fs_Key (foldl State_Apply s es) = fs_Key s"
  by (induction es arbitrary: s) simp_all

text \<open>
  Exact flow counters. Every byte, packet, connection, error, request, retransmission and
  HTTP status counter of an aggregated flow is the sum (modulo \<open>2 ^ 64\<close>) of what the flow's
  events contribute to it, whatever the order in which the events arrived.
\<close>

theorem flow_counters_exact:
  assumes "alist_get (flows (foldl Accumulator_Add NewAccumulator es)) k = Some s"
    and "mset fs = mset es"
  shows "fs_Key s = k
    \<and> flow_tally i s = (\<Sum>e\<leftarrow>events_of k es. flow_contrib i e)
    \<and> (\<exists>s'. alist_get (flows (foldl Accumulator_Add NewAccumulator fs)) k = Some s'
           \<and> flow_tally i s' = flow_tally i s)"
proof -
  have ms: "mset (events_of k fs) = mset (events_of k es)"
    using assms(2) by (simp add: events_of_def)
  have s: "s = foldl State_Apply (State_new k) (events_of k es)" "events_of k es \<noteq> []"
    using assms(1) by (auto simp: get_fold_Add split: if_splits)
  with ms have "events_of k fs \<noteq> []" by auto
  then show ?thesis
    using s flow.tally_reorder [OF ms]
    by (simp add: get_fold_Add flow.tally_fold flow_tally_new)
qed

theorem flow_counters_exact_witness:
  "flow_tally (FBytes Received)
     (State_Apply (State_new (KeyFromMetric (flow_metric_zero\<lparr>fm_Direction := Ingress, fm_ByteCount := 5\<rparr>)))
        (flow_metric_zero\<lparr>fm_Direction := Ingress, fm_ByteCount := 5\<rparr>)) = 5"
proof -
  let ?e = "flow_metric_zero\<lparr>fm_Direction := Ingress, fm_ByteCount := 5\<rparr>"
  have "alist_get (flows (foldl Accumulator_Add NewAccumulator [?e])) (KeyFromMetric ?e)
      = Some (State_Apply (State_new (KeyFromMetric ?e)) ?e)"
    by (simp add: Accumulator_Add_def NewAccumulator_def Let_def)
  from flow_counters_exact [OF this, of "[?e]" "FBytes Received"] show ?thesis
    by (simp add: events_of_def nonNegative_def to_u64_def)
qed

lemma AddAll_fresh:
  assumes "distinct (map fs_Key b)" and "fst ` set (flows a) \<inter> fs_Key ` set b = {}"
  shows "flows (Accumulator_AddAll a b) = flows a @ map (\<lambda>s. (fs_Key s, s)) b"
  using assms
proof (induction b arbitrary: a)
  case (Cons s b)
  then have new: "fs_Key s \<notin> fst ` set (flows a)" by auto
  then have "Accumulator_AddState a s = a\<lparr>flows := flows a @ [(fs_Key s, s)]\<rparr>"
    using alist_get_None [of "flows a" "fs_Key s"]
    by (simp add: Accumulator_AddState_def Let_def alist_set_absent)
  with Cons show ?case by (auto simp: Accumulator_AddAll_def)
qed (simp add: Accumulator_AddAll_def)

lemma acc_inv_states:
  assumes "acc_inv a"
  shows "distinct (map fs_Key (map snd (flows a)))"
    and "map (\<lambda>s. (fs_Key s, s)) (map snd (flows a)) = flows a"
proof -
  have "map fs_Key (map snd (flows a)) = map fst (flows a)"
    using assms by (auto simp: acc_inv_def)
  then show "distinct (map fs_Key (map snd (flows a)))"
    using assms unfolding acc_inv_def distinct_keys_def by (simp only: simp_thms)
  show "map (\<lambda>s. (fs_Key s, s)) (map snd (flows a)) = flows a"
    using assms by (auto simp: acc_inv_def comp_def intro!: map_idI)
qed

lemma alist_get_mset:
  assumes "distinct_keys m" "mset m' = mset m"
  shows "alist_get m' k = alist_get m k"
proof -
  have d: "distinct_keys m'"
    using assms by (metis distinct_keys_def mset_eq_imp_distinct_iff mset_map)
  have "set m' = set m" using assms(2) by (rule mset_eq_setD)
  then show ?thesis
    using assms(1) d alist_get_distinct alist_get_in by (metis option.exhaust)
qed

text \<open>
  C6. A batch that cannot be queued is put back without loss. Draining a well-formed store and
  adding the drained states back, which is what the main loop does when the sender's
  backlog is full, gives a store with exactly the same entry for every flow key, in
  whatever order the map was walked.
\<close>

theorem drain_AddAll_identity:
  assumes "acc_inv a" and "map_order ord" and "Accumulator_Drain ord a = (b, a')"
  shows "alist_get (flows (Accumulator_AddAll a' b)) k = alist_get (flows a) k"
proof (cases "flows a = []")
  case True
  with assms(3) show ?thesis by (simp add: Accumulator_Drain_def Accumulator_AddAll_def)
next
  case False
  with assms(3) have b: "b = ord (map snd (flows a))" and a': "flows a' = []"
    by (auto simp: Accumulator_Drain_def)
  have ms: "mset b = mset (map snd (flows a))" using assms(2) b by simp
  then have "distinct (map fs_Key b)"
    using acc_inv_states(1) [OF assms(1)] by (metis mset_eq_imp_distinct_iff mset_map)
  then have fl: "flows (Accumulator_AddAll a' b) = map (\<lambda>s. (fs_Key s, s)) b"
    using AddAll_fresh [of b a'] a' by simp
  have "mset (map (\<lambda>s. (fs_Key s, s)) b) = mset (flows a)"
    using ms acc_inv_states(2) [OF assms(1)] by (metis mset_map)
  then show ?thesis
    unfolding fl using assms(1) by (intro alist_get_mset) (simp_all add: acc_inv_def)
qed

theorem drain_AddAll_identity_witness:
  "alist_get (flows (Accumulator_AddAll NewAccumulator
       (rev (map snd (flows (Accumulator_Add NewAccumulator flow_metric_zero))))))
     (KeyFromMetric flow_metric_zero)
   = Some (State_Apply (State_new (KeyFromMetric flow_metric_zero)) flow_metric_zero)"
proof -
  let ?a = "Accumulator_Add NewAccumulator flow_metric_zero"
  have "Accumulator_Drain rev ?a = (rev (map snd (flows ?a)), NewAccumulator)"
    by (simp add: Accumulator_Drain_def Accumulator_Add_def NewAccumulator_def Let_def)
  from drain_AddAll_identity [OF acc_inv_Add [OF acc_inv_New] map_order_rev this] show ?thesis
    by (simp add: get_Add NewAccumulator_def)
qed

end
