(* ===== verification/Exporter.thy ===== *)
theory Exporter
  imports Flow_Store
begin

text \<open>
  The agent's exporter (\<open>src/agent/internal/exporter\<close>), the retry loops of
  \<open>src/agent/cmd/agent/main.go\<close> and the heartbeat of \<open>src/agent/internal/lifecycle\<close>: the
  payloads, the batcher, the HTTP sender's treatment of responses, and the bounded and
  unbounded retry loops with their delays. The properties state that batching loses and
  reorders nothing, how often a flow is sent, and how the registration backs off.
\<close>

section \<open>Payloads\<close>

record flow_event =
  fe_AgentID :: string
  fe_SrcIP :: string
  fe_DstIP :: string
  fe_SrcPort :: int
  fe_DstPort :: int
  fe_Protocol :: string
  fe_Direction :: string
  fe_BytesSent :: i64
  fe_BytesReceived :: i64
  fe_Packets :: i64
  fe_ConnectionCount :: i64
  fe_RequestCount :: i64
  fe_ErrorCount :: i64
  fe_Retransmissions :: i64
  fe_AvgRTTMs :: f64
  fe_AvgAppDelayMs :: f64
  fe_HTTP1xx :: i64
  fe_HTTP2xx :: i64
  fe_HTTP3xx :: i64
  fe_HTTP4xx :: i64
  fe_HTTP5xx :: i64
  fe_LastHTTPStatus :: int
  fe_FirstSeen :: gotime
  fe_LastSeen :: gotime
  fe_Interface :: string

definition FromFlowState :: "flow_state \<Rightarrow> flow_event" where
  "FromFlowState s = \<lparr>
     fe_AgentID = ky_AgentID (fs_Key s),
     fe_SrcIP = ky_SrcIP (fs_Key s),
     fe_DstIP = ky_DstIP (fs_Key s),
     fe_SrcPort = fs_SrcPort s,
     fe_DstPort = ky_DstPort (fs_Key s),
     fe_Protocol = ky_Protocol (fs_Key s),
     fe_Direction = ky_Direction (fs_Key s),
     fe_BytesSent = u64_to_i64 (by_Sent (tr_Bytes (fs_Traffic s))),
     fe_BytesReceived = u64_to_i64 (by_Received (tr_Bytes (fs_Traffic s))),
     fe_Packets = u64_to_i64 (pk_Count (tr_Packets (fs_Traffic s))),
     fe_ConnectionCount = u64_to_i64 (cn_OpenCount (tc_Connection (fs_TCP s))),
     fe_RequestCount = u64_to_i64 (cn_RequestHint (tc_Connection (fs_TCP s))),
     fe_ErrorCount = u64_to_i64 (cn_ErrorCount (tc_Connection (fs_TCP s))),
     fe_Retransmissions = u64_to_i64 (rx_Count (tc_Retrans (fs_TCP s))),
     fe_AvgRTTMs = rt_AvgMs (tc_RTT (fs_TCP s)),
     fe_AvgAppDelayMs = ap_AvgDelayMs (fs_Application s),
     fe_HTTP1xx = u64_to_i64 (st_Informational (ap_HTTPStatus (fs_Application s))),
     fe_HTTP2xx = u64_to_i64 (st_Success (ap_HTTPStatus (fs_Application s))),
     fe_HTTP3xx = u64_to_i64 (st_Redirect (ap_HTTPStatus (fs_Application s))),
     fe_HTTP4xx = u64_to_i64 (st_ClientError (ap_HTTPStatus (fs_Application s))),
     fe_HTTP5xx = u64_to_i64 (st_ServerError (ap_HTTPStatus (fs_Application s))),
     fe_LastHTTPStatus = st_Last (ap_HTTPStatus (fs_Application s)),
     fe_FirstSeen = fs_FirstSeen s,
     fe_LastSeen = fs_LastSeen s,
     fe_Interface = ky_Interface (fs_Key s)\<rparr>"

record interface =
  if_Name :: string
  if_IPAddress :: string
  if_MACAddress :: string

record registration =
  rg_AgentID :: string
  rg_Hostname :: string
  rg_MachineID :: string
  rg_TenantID :: string
  rg_PrivateIPs :: "string list"
  rg_PublicIP :: "string option"
  rg_MACAddresses :: "string list"
  rg_Interfaces :: "interface list"
  rg_OS :: string
  rg_Kernel :: string
  rg_AgentVersion :: string
  rg_Environment :: string

record registration_result =
  rr_AgentID :: string
  rr_VMID :: string
  rr_Status :: string

record probe_target =
  pt_SourceVMID :: string
  pt_SourceIP :: string
  pt_DestVMID :: string
  pt_DestName :: string
  pt_DestIP :: string
  pt_Protocol :: string
  pt_DestPort :: int
  pt_LastSeen :: gotime

record probe_event =
  pe_AgentID :: string
  pe_SourceIP :: string
  pe_DestIP :: string
  pe_Protocol :: string
  pe_DestPort :: int
  pe_Success :: bool
  pe_RTTMs :: f64
  pe_Error :: string
  pe_Source :: string
  pe_Type :: string
  pe_CountedAsRequest :: bool
  pe_CountedAsUserTraffic :: bool
  pe_Timestamp :: gotime

section \<open>The batcher\<close>

record batcher =
  bt_events :: "flow_event list"
  bt_limit :: int

definition NewBatcher :: "int \<Rightarrow> batcher" where
  "NewBatcher limit = \<lparr>bt_events = [], bt_limit = (if limit \<le> 0 then 100 else limit)\<rparr>"

text \<open>A nil batch is the empty list. \<open>Flush\<close> copies the events before it forgets them.\<close>

definition Batcher_Flush :: "batcher \<Rightarrow> flow_event list \<times> batcher" where
  "Batcher_Flush b =
     (if bt_events b = [] then ([], b) else (bt_events b, b\<lparr>bt_events := []\<rparr>))"

definition Batcher_Add :: "batcher \<Rightarrow> flow_event \<Rightarrow> flow_event list \<times> batcher" where
  "Batcher_Add b e =
     (let b1 = b\<lparr>bt_events := bt_events b @ [e]\<rparr> in
      if int (length (bt_events b1)) < bt_limit b1 then ([], b1) else Batcher_Flush b1)"

section \<open>The HTTP sender\<close>

text \<open>
  The HTTP client, the JSON encoder and the JSON decoder are parameters. A response body is
  the bytes that arrive and the error that ends them, if any; \<open>io.ReadAll\<close> over a
  \<open>LimitReader\<close> of \<open>2 ^ 20\<close> bytes stops before that error when the limit is reached first.
\<close>

record 'e response =
  re_StatusCode :: int
  re_Status :: string
  re_Body :: string
  re_BodyError :: "'e option"

datatype 'e send_error = Library 'e | BackendStatus string string string

record sender =
  baseURL :: string

definition TrimRight :: "string \<Rightarrow> char \<Rightarrow> string" where
  "TrimRight s c = rev (dropWhile (\<lambda>x. x = c) (rev s))"

definition Sender_New :: "string \<Rightarrow> sender" where
  "Sender_New url = \<lparr>baseURL = TrimRight url CHR ''/''\<rparr>"

definition read_limited :: "'e response \<Rightarrow> 'e + string" where
  "read_limited r =
     (if length (re_Body r) \<ge> 2 ^ 20 then Inr (take (2 ^ 20) (re_Body r))
      else case re_BodyError r of Some e \<Rightarrow> Inl e | None \<Rightarrow> Inr (re_Body r))"

text \<open>
  The common end of \<open>get\<close> and \<open>post\<close>: \<open>unmarshal\<close> is \<open>None\<close> when the caller passes a nil
  response, and then nothing is decoded.
\<close>

definition handle_response ::
    "string \<Rightarrow> (string \<Rightarrow> 'e + 'r) option \<Rightarrow> 'e + 'e response \<Rightarrow> 'e send_error + 'r option" where
  "handle_response path unmarshal res =
     (case res of
        Inl e \<Rightarrow> Inl (Library e)
      | Inr r \<Rightarrow>
          (case read_limited r of
             Inl e \<Rightarrow> Inl (Library e)
           | Inr body \<Rightarrow>
               if re_StatusCode r < 200 \<or> re_StatusCode r \<ge> 300
               then Inl (BackendStatus path (re_Status r) (TrimSpace body))
               else case unmarshal of
                 None \<Rightarrow> Inr None
               | Some u \<Rightarrow>
                   if length body > 0
                   then (case u body of Inl e \<Rightarrow> Inl (Library e) | Inr v \<Rightarrow> Inr (Some v))
                   else Inr None))"

definition Sender_get ::
    "(string \<Rightarrow> 'e + 'e response) \<Rightarrow> (string \<Rightarrow> 'e + 'r) option \<Rightarrow> sender \<Rightarrow> string
     \<Rightarrow> 'e send_error + 'r option" where
  "Sender_get do_get unmarshal s path = handle_response path unmarshal (do_get (baseURL s @ path))"

definition Sender_post ::
    "('q \<Rightarrow> 'e + string) \<Rightarrow> (string \<Rightarrow> string \<Rightarrow> 'e + 'e response) \<Rightarrow> (string \<Rightarrow> 'e + 'r) option
     \<Rightarrow> sender \<Rightarrow> string \<Rightarrow> 'q \<Rightarrow> 'e send_error + 'r option" where
  "Sender_post marshal do_post unmarshal s path request =
     (case marshal request of
        Inl e \<Rightarrow> Inl (Library e)
      | Inr payload \<Rightarrow> handle_response path unmarshal (do_post (baseURL s @ path) payload))"

section \<open>Retry loops\<close>

text \<open>
  The outcome of call \<open>i\<close> is \<open>fn i\<close> (\<open>None\<close> for a nil error) and \<open>cancelled i\<close> is the context's
  error when it is done during the wait after call \<open>i\<close>. A loop returns the error and the
  number of calls made.
\<close>

fun retry_loop :: "(nat \<Rightarrow> 'e option) \<Rightarrow> (nat \<Rightarrow> 'e option) \<Rightarrow> duration \<Rightarrow> nat \<Rightarrow> nat \<Rightarrow> 'e option
    \<Rightarrow> 'e option \<times> nat" where
  "retry_loop fn cancelled delay 0 i lastErr = (lastErr, i)"
| "retry_loop fn cancelled delay (Suc n) i lastErr =
     (case fn i of
        None \<Rightarrow> (None, i + 1)
      | Some e \<Rightarrow>
          if n = 0 \<or> delay \<le> 0 then retry_loop fn cancelled delay n (i + 1) (Some e)
          else (case cancelled i of
                  Some c \<Rightarrow> (Some c, i + 1)
                | None \<Rightarrow> retry_loop fn cancelled delay n (i + 1) (Some e)))"

definition Retry :: "(nat \<Rightarrow> 'e option) \<Rightarrow> int \<Rightarrow> duration \<Rightarrow> (nat \<Rightarrow> 'e option) \<Rightarrow> 'e option \<times> nat" where
  "Retry cancelled attempts delay fn =
     retry_loop fn cancelled delay (nat (if attempts \<le> 0 then 1 else attempts)) 0 None"

text \<open>\<open>sendFlow\<close>: three attempts, with a wait of half a second, one and one and a half after them.\<close>

fun sendFlow_loop :: "(nat \<Rightarrow> 'e option) \<Rightarrow> (nat \<Rightarrow> 'e option) \<Rightarrow> nat \<Rightarrow> nat \<Rightarrow> 'e option
    \<Rightarrow> 'e option \<times> nat" where
  "sendFlow_loop post cancelled 0 attempt lastErr = (lastErr, attempt)"
| "sendFlow_loop post cancelled (Suc n) attempt lastErr =
     (case post attempt of
        None \<Rightarrow> (None, attempt + 1)
      | Some e \<Rightarrow>
          (case cancelled attempt of
             Some c \<Rightarrow> (Some c, attempt + 1)
           | None \<Rightarrow> sendFlow_loop post cancelled n (attempt + 1) (Some e)))"

definition sendFlow :: "(nat \<Rightarrow> 'e option) \<Rightarrow> (nat \<Rightarrow> 'e option) \<Rightarrow> 'e option \<times> nat" where
  "sendFlow cancelled post = sendFlow_loop post cancelled 3 0 None"

text \<open>
  \<open>registerUntilReady\<close> retries for ever; its result also lists the delays it waited.
\<close>

definition next_delay :: "duration \<Rightarrow> duration" where
  "next_delay delay =
     (let d = (if delay < 30 * Second then delay * 2 else delay)
      in if d > 30 * Second then 30 * Second else d)"

partial_function (option) register_loop ::
    "(nat \<Rightarrow> 'e + 'r) \<Rightarrow> (nat \<Rightarrow> 'e option) \<Rightarrow> duration \<Rightarrow> nat \<Rightarrow> duration list
     \<Rightarrow> (('e + 'r) \<times> duration list) option" where
  "register_loop register cancelled delay i waited =
     (case register i of
        Inr r \<Rightarrow> Some (Inr r, waited)
      | Inl e \<Rightarrow>
          (case cancelled i of
             Some c \<Rightarrow> Some (Inl c, waited)
           | None \<Rightarrow> register_loop register cancelled (next_delay delay) (i + 1) (waited @ [delay])))"

definition registerUntilReady ::
    "(nat \<Rightarrow> 'e + 'r) \<Rightarrow> (nat \<Rightarrow> 'e option) \<Rightarrow> (('e + 'r) \<times> duration list) option" where
  "registerUntilReady register cancelled = register_loop register cancelled Second 0 []"

text \<open>
  One tick of \<open>lifecycle.Run\<close>: the calls it makes to the backend, given whether the heartbeat
  succeeds.
\<close>

datatype backend_call = CallHeartbeat | CallRegister

definition heartbeat_tick :: "bool \<Rightarrow> backend_call list" where
  "heartbeat_tick ok = (if ok then [CallHeartbeat] else [CallHeartbeat, CallRegister])"

section \<open>Batching\<close>

fun batcher_run :: "batcher \<Rightarrow> flow_event list \<Rightarrow> flow_event list list \<times> batcher" where
  "batcher_run b [] = ([], b)"
| "batcher_run b (e # es) =
     (case Batcher_Add b e of (out, b1) \<Rightarrow>
        (case batcher_run b1 es of (outs, b2) \<Rightarrow> (if out = [] then outs else out # outs, b2)))"

definition batcher_inv :: "batcher \<Rightarrow> bool" where
  "batcher_inv b \<longleftrightarrow> 0 < bt_limit b \<and> int (length (bt_events b)) < bt_limit b"

lemma batcher_inv_New: "batcher_inv (NewBatcher n)"
  by (simp add: batcher_inv_def NewBatcher_def)

lemma Batcher_Add_cases:
  assumes "batcher_inv b" and "Batcher_Add b e = (out, b')"
  shows "batcher_inv b' \<and> bt_limit b' = bt_limit b \<and> out @ bt_events b' = bt_events b @ [e]
    \<and> (out = [] \<or> int (length out) = bt_limit b)"
  using assms
  by (auto simp: Batcher_Add_def Batcher_Flush_def batcher_inv_def Let_def split: if_splits)

lemma batcher_run_inv:
  assumes "batcher_inv b" and "batcher_run b es = (outs, b')"
  shows "batcher_inv b' \<and> bt_limit b' = bt_limit b \<and> concat outs @ bt_events b' = bt_events b @ es
    \<and> (\<forall>out\<in>set outs. int (length out) = bt_limit b)"
  using assms
proof (induction es arbitrary: b outs)
  case (Cons e es)
  obtain out b1 where a: "Batcher_Add b e = (out, b1)" by fastforce
  obtain outs1 b2 where r: "batcher_run b1 es = (outs1, b2)" by fastforce
  from Cons.prems(2) a r have b': "b' = b2" and o: "outs = (if out = [] then outs1 else out # outs1)"
    by auto
  show ?case using Batcher_Add_cases [OF Cons.prems(1) a] Cons.IH [OF _ r [folded b']] o by auto
qed auto

text \<open>
  Batching is lossless. A batcher fed any sequence of events emits batches of exactly its
  limit (100 when a non-positive limit is asked for); their concatenation, followed by the
  events it still holds, is the sequence it was given: nothing is lost, repeated or
  reordered, and it always holds fewer events than its limit.
\<close>

theorem batcher_lossless:
  assumes "batcher_run (NewBatcher limit) es = (outs, b)"
  shows "concat outs @ bt_events b = es
    \<and> (\<forall>out\<in>set outs. int (length out) = (if limit \<le> 0 then 100 else limit))
    \<and> int (length (bt_events b)) < (if limit \<le> 0 then 100 else limit)"
  using batcher_run_inv [OF batcher_inv_New assms]
  by (auto simp: batcher_inv_def NewBatcher_def)

theorem batcher_lossless_witness:
  "concat (fst (batcher_run (NewBatcher 2) (replicate 3 (FromFlowState (State_new (KeyFromMetric flow_metric_zero))))))
     @ bt_events (snd (batcher_run (NewBatcher 2) (replicate 3 (FromFlowState (State_new (KeyFromMetric flow_metric_zero))))))
   = replicate 3 (FromFlowState (State_new (KeyFromMetric flow_metric_zero)))"
  using batcher_lossless [OF prod.collapse [symmetric]] by blast

section \<open>Retries\<close>

text \<open>
  Call \<open>k\<close> is reached when every earlier call failed and the context was not done in the
  waits between them.
\<close>

definition reached :: "(nat \<Rightarrow> 'e option) \<Rightarrow> (nat \<Rightarrow> bool) \<Rightarrow> nat \<Rightarrow> bool" where
  "reached fn goes_on k \<longleftrightarrow> (\<forall>j<k. fn j \<noteq> None \<and> goes_on j)"

lemma reached_0 [simp]: "reached fn g 0"
  by (simp add: reached_def)

lemma reached_Suc: "reached fn g (Suc k) \<longleftrightarrow> reached fn g k \<and> fn k \<noteq> None \<and> g k"
  by (auto simp: reached_def less_Suc_eq)

lemma reached_stop: "reached fn g k \<Longrightarrow> fn i = None \<or> \<not> g i \<Longrightarrow> k \<le> i"
  unfolding reached_def by (metis not_le)

lemma sendFlow_loop_spec:
  assumes "reached post (\<lambda>j. cancelled j = None) i" and "n = 0 \<Longrightarrow> lastErr \<noteq> None"
    and "sendFlow_loop post cancelled n i lastErr = (res, calls)"
  shows "calls \<le> i + n \<and> (n > 0 \<longrightarrow> i < calls) \<and> reached post (\<lambda>j. cancelled j = None) (calls - 1)
    \<and> (res = None \<longleftrightarrow> (\<exists>k\<ge>i. k < i + n \<and> post k = None \<and> reached post (\<lambda>j. cancelled j = None) k))
    \<and> (res = None \<longrightarrow> post (calls - 1) = None)"
  using assms
proof (induction n arbitrary: i lastErr)
  case 0
  then show ?case by (cases i) (auto simp: reached_Suc)
next
  case (Suc n)
  let ?r = "reached post (\<lambda>j. cancelled j = None)"
  show ?case
  proof (cases "post i")
    case None
    then show ?thesis using Suc.prems by auto
  next
    case (Some e)
    show ?thesis
    proof (cases "cancelled i")
      case None
      then have r: "?r (Suc i)" using Suc.prems(1) Some by (simp add: reached_Suc)
      moreover have "sendFlow_loop post cancelled n (Suc i) (Some e) = (res, calls)"
        using Suc.prems(3) Some None by simp
      ultimately have IH: "calls \<le> Suc i + n \<and> (n > 0 \<longrightarrow> Suc i < calls) \<and> ?r (calls - 1)
          \<and> (res = None \<longleftrightarrow> (\<exists>k\<ge>Suc i. k < Suc i + n \<and> post k = None \<and> ?r k))
          \<and> (res = None \<longrightarrow> post (calls - 1) = None)"
        using Suc.IH [of "Suc i" "Some e"] by simp
      have "n = 0 \<Longrightarrow> calls = Suc i" using Suc.prems(3) Some None by simp
      moreover have "(\<exists>k\<ge>Suc i. k < Suc i + n \<and> post k = None \<and> ?r k)
          \<longleftrightarrow> (\<exists>k\<ge>i. k < i + Suc n \<and> post k = None \<and> ?r k)"
        using Some by (metis Suc_leD add_Suc_right add_Suc not_less_eq_eq le_antisym option.distinct(1))
      ultimately show ?thesis using IH by (cases n) auto
    next
      case (Some c)
      with \<open>post i = Some e\<close> Suc.prems have "res = Some c" "calls = i + 1" by auto
      moreover have "\<not> (\<exists>k\<ge>i. k < i + Suc n \<and> post k = None \<and> ?r k)"
        using Some \<open>post i = Some e\<close> reached_stop [of post "\<lambda>j. cancelled j = None" _ i]
        by (metis le_antisym option.distinct(1))
      ultimately show ?thesis using Suc.prems(1) by auto
    qed
  qed
qed

text \<open>
  A flow is sent at least once and at most three times. \<open>sendFlow\<close> reports success exactly
  when one of the first three posts succeeds, is reached (every earlier post failed and the
  context was not done in the waits between), and then that post is the last one: a flow
  that the backend accepted is never sent again.
\<close>

theorem sendFlow_result:
  assumes "sendFlow cancelled post = (res, calls)"
  shows "1 \<le> calls \<and> calls \<le> 3
    \<and> (res = None \<longleftrightarrow>
         (\<exists>k<3. post k = None \<and> (\<forall>j<k. post j \<noteq> None \<and> cancelled j = None)))
    \<and> (\<forall>j<calls - 1. post j \<noteq> None) \<and> (res = None \<longrightarrow> post (calls - 1) = None)"
  using sendFlow_loop_spec [of post cancelled 0 3 None res calls] assms
  by (auto simp: sendFlow_def reached_def)

theorem sendFlow_result_witness:
  "\<exists>calls. sendFlow (\<lambda>_. None) (\<lambda>k. if k = 2 then None else Some ()) = (None, calls)
     \<and> calls \<le> 3 \<and> (if calls - 1 = 2 then None else Some ()) = None"
proof -
  have run: "sendFlow (\<lambda>_. None) (\<lambda>k. if k = 2 then None else Some ()) = (None, 3)"
    by (simp add: sendFlow_def eval_nat_numeral)
  from sendFlow_result [OF run] run show ?thesis by (intro exI [of _ 3]) simp
qed

lemma retry_loop_spec:
  assumes "n = 0 \<Longrightarrow> lastErr \<noteq> None"
  shows "fst (retry_loop fn cancelled delay n i lastErr) = None \<longleftrightarrow>
      (\<exists>k<n. fn (i + k) = None \<and> (\<forall>j<k. fn (i + j) \<noteq> None \<and> (delay \<le> 0 \<or> cancelled (i + j) = None)))"
  using assms
proof (induction n arbitrary: i lastErr)
  case (Suc n)
  let ?P = "\<lambda>k i. fn (i + k) = None \<and> (\<forall>j<k. fn (i + j) \<noteq> None \<and> (delay \<le> 0 \<or> cancelled (i + j) = None))"
  have split: "(\<exists>k<Suc n. ?P k i) \<longleftrightarrow>
      fn i = None \<or> fn i \<noteq> None \<and> (delay \<le> 0 \<or> cancelled i = None) \<and> (\<exists>k<n. ?P k (Suc i))"
    by (auto simp: Ex_less_Suc2 All_less_Suc2)
  show ?case unfolding split
    using Suc.IH [of "Some (the (fn i))" "Suc i"]
    by (cases "fn i"; cases "cancelled i"; cases n) auto
qed auto

text \<open>
  \<open>Retry\<close> makes at least one attempt and succeeds exactly when it should: its result is
  nil if and only if one of the first \<open>max 1 attempts\<close> calls succeeds, all calls before it
  failed, and the context was not done in the waits between them (there are no waits for a
  non-positive delay).
\<close>

theorem Retry_result:
  "fst (Retry cancelled attempts delay fn) = None \<longleftrightarrow>
     (\<exists>k<nat (max 1 attempts). fn k = None
        \<and> {j. j < k \<and> (fn j = None \<or> delay > 0 \<and> cancelled j \<noteq> None)} = {})"
proof -
  have "nat (if attempts \<le> 0 then 1 else attempts) = nat (max 1 attempts)" by auto
  then show ?thesis
    using retry_loop_spec [of "nat (max 1 attempts)" None fn cancelled delay 0]
    unfolding Retry_def by (fastforce simp: not_le)
qed

definition backoff :: "nat \<Rightarrow> duration" where
  "backoff i = min (2 ^ i) 30 * Second"

lemma next_delay_backoff: "next_delay (backoff i) = backoff (Suc i)"
proof (cases "i < 5")
  case True
  then have "i \<in> {0, 1, 2, 3, 4}" by auto
  then show ?thesis by (auto simp: next_delay_def backoff_def duration_defs)
next
  case False
  then have "(2::int) ^ 5 \<le> 2 ^ i" by (intro power_increasing) auto
  then show ?thesis by (simp add: next_delay_def backoff_def duration_defs min_def)
qed

lemma register_loop_spec:
  assumes "\<forall>j<k. (\<exists>e. register (i + j) = Inl e) \<and> cancelled (i + j) = None"
  shows "register_loop register cancelled (backoff i) i waited =
    register_loop register cancelled (backoff (i + k)) (i + k) (waited @ map backoff [i..<i + k])"
  using assms
proof (induction k)
  case (Suc k)
  then obtain e where "register (i + k) = Inl e" "cancelled (i + k) = None" by blast
  then have "register_loop register cancelled (backoff (i + k)) (i + k) w =
      register_loop register cancelled (backoff (i + Suc k)) (i + Suc k) (w @ [backoff (i + k)])" for w
    by (subst register_loop.simps) (simp add: next_delay_backoff)
  with Suc show ?case by simp
qed simp

text \<open>
  C12. Registration eventually returns, with exponential backoff. When call \<open>k\<close> is the first
  to succeed and the context is not done before, \<open>registerUntilReady\<close> returns its result
  after waiting 1, 2, 4, 8, 16 seconds and then 30 seconds each time; when the context is
  done in the wait after the failed call \<open>k\<close>, it returns the context's error.
\<close>

theorem registerUntilReady_returns:
  assumes "\<forall>j<k. (\<exists>e. register j = Inl e) \<and> cancelled j = None"
    and "case register k of Inr r \<Rightarrow> out = Inr r | Inl e \<Rightarrow> cancelled k = Some c \<and> out = Inl c"
  shows "registerUntilReady register cancelled =
    Some (out, map (\<lambda>i. min (2 ^ i) 30 * Second) [0..<k])"
proof -
  have "registerUntilReady register cancelled =
      register_loop register cancelled (backoff k) k (map backoff [0..<k])"
    using register_loop_spec [of k register 0 cancelled "[]"] assms(1)
    by (simp add: registerUntilReady_def backoff_def)
  also have "\<dots> = Some (out, map backoff [0..<k])"
    using assms(2) by (subst register_loop.simps) (auto split: sum.splits)
  finally show ?thesis by (simp add: backoff_def [abs_def])
qed

theorem registerUntilReady_returns_witness:
  "registerUntilReady (\<lambda>i. if i = 6 then Inr () else Inl ()) (\<lambda>_. None) =
     Some (Inr (), [1 * Second, 2 * Second, 4 * Second, 8 * Second, 16 * Second, 30 * Second])"
  using registerUntilReady_returns 
      [where k = 6 and register = "\<lambda>i. if i = 6 then Inr () else Inl ()" and cancelled = "\<lambda>_. None"
        and out = "Inr ()"]
  by (simp add: upt_rec)

section \<open>What is exported\<close>

fun payload_counter :: "flow_counter \<Rightarrow> flow_event \<Rightarrow> i64" where
  "payload_counter (FBytes Sent) e = fe_BytesSent e"
| "payload_counter (FBytes Received) e = fe_BytesReceived e"
| "payload_counter FPackets e = fe_Packets e"
| "payload_counter (FConn Opens) e = fe_ConnectionCount e"
| "payload_counter (FConn Errors) e = fe_ErrorCount e"
| "payload_counter (FConn Requests) e = fe_RequestCount e"
| "payload_counter FRetrans e = fe_Retransmissions e"
| "payload_counter (FStatus Informational) e = fe_HTTP1xx e"
| "payload_counter (FStatus Success) e = fe_HTTP2xx e"
| "payload_counter (FStatus Redirect) e = fe_HTTP3xx e"
| "payload_counter (FStatus ClientError) e = fe_HTTP4xx e"
| "payload_counter (FStatus ServerError) e = fe_HTTP5xx e"

lemma payload_counter_From: "payload_counter i (FromFlowState s) = u64_to_i64 (flow_tally i s)"
  by (induction i "FromFlowState s" rule: payload_counter.induct) (simp_all add: FromFlowState_def)

lemma uint_sum_list:
  fixes ws :: "u64 list"
  assumes "(\<Sum>w\<leftarrow>ws. uint w) < 2 ^ 64"
  shows "uint (\<Sum>w\<leftarrow>ws. w) = (\<Sum>w\<leftarrow>ws. uint w)"
  using assms
proof (induction ws)
  case (Cons w ws)
  have "0 \<le> (\<Sum>w\<leftarrow>ws. uint w)" by (induction ws) auto
  moreover have "(\<Sum>w\<leftarrow>ws. uint w) < 2 ^ 64" 
    using Cons.prems uint_ge_0 [of w] unfolding list.map sum_list.Cons by linarith
  ultimately show ?case using Cons by (simp add: uint_plus_if')
qed simp

text \<open>
  C7. Exported counters are exact. For every flow in the store, each counter of the payload
  made from it is the true (unbounded) sum of what the flow's events contribute, as long as
  that sum stays below \<open>2 ^ 63\<close>: neither the 64-bit accumulation nor the conversion to
  \<open>int64\<close> loses anything, and no payload counter is negative.
\<close>

theorem exported_counters_exact:
  assumes "alist_get (flows (foldl Accumulator_Add NewAccumulator es)) k = Some s"
    and "(\<Sum>e\<leftarrow>events_of k es. uint (flow_contrib i e)) < 2 ^ 63"
  shows "payload_counter i (FromFlowState s) = (\<Sum>e\<leftarrow>events_of k es. uint (flow_contrib i e))"
proof -
  have "s = foldl State_Apply (State_new k) (events_of k es)"
    using assms(1) by (auto simp: get_fold_Add split: if_splits)
  then have "flow_tally i s = (\<Sum>w\<leftarrow>map (flow_contrib i) (events_of k es). w)"
    by (simp add: flow.tally_fold flow_tally_new)
  then have "uint (flow_tally i s) = (\<Sum>e\<leftarrow>events_of k es. uint (flow_contrib i e))"
    using uint_sum_list [of "map (flow_contrib i) (events_of k es)"] assms(2) by (simp add: comp_def)
  with assms(2) show ?thesis by (simp add: payload_counter_From u64_to_i64_small)
qed

theorem exported_counters_exact_witness:
  "payload_counter FPackets (FromFlowState
     (State_Apply (State_new (KeyFromMetric (flow_metric_zero\<lparr>fm_PacketCount := 7\<rparr>)))
        (flow_metric_zero\<lparr>fm_PacketCount := 7\<rparr>))) = 7"
proof -
  let ?e = "flow_metric_zero\<lparr>fm_PacketCount := 7\<rparr>"
  have get: "alist_get (flows (foldl Accumulator_Add NewAccumulator [?e])) (KeyFromMetric ?e)
      = Some (State_Apply (State_new (KeyFromMetric ?e)) ?e)"
    by (simp add: Accumulator_Add_def NewAccumulator_def Let_def)
  have "(\<Sum>e\<leftarrow>events_of (KeyFromMetric ?e) [?e]. uint (flow_contrib FPackets e)) = 7"
    by (simp add: events_of_def nonNegative_def to_u64_def)
  then show ?thesis using exported_counters_exact [OF get, of FPackets] by simp
qed

end
