(* ===== verification/Netip.thy ===== *)
theory Netip
  imports Prelude
begin

unbundle bit_operations_syntax

text \<open>
  The part of Go's \<open>net\<close> and \<open>net/netip\<close> packages (Go 1.22) that the agent and the backend
  use: textual IPv4 and IPv6 addresses, CIDR prefixes, the \<open>net.IP\<close> byte slices and the
  address classes. The components parse every address they see with these functions, so the
  filters, classifiers and packet decoders are stated over them. The lemmas give the dotted
  form's round trip and the meaning of prefix containment.
\<close>

section \<open>Parsing\<close>

datatype netip_addr = Addr4 "u8 list" | Addr6 "u8 list" string

type_synonym net_ip = "u8 list"

text \<open>
  The dotted form: the loop of \<open>parseIPv4Fields\<close>, with the value and the number of digits of
  the current octet and the octets already read.
\<close>

fun v4_loop :: "string \<Rightarrow> nat \<Rightarrow> nat \<Rightarrow> nat list \<Rightarrow> nat list option" where
  "v4_loop [] val digLen fields = (if length fields < 3 then None else Some (fields @ [val]))"
| "v4_loop (c # s) val digLen fields =
     (if is_digit c then
        (if digLen = 1 \<and> val = 0 then None
         else let v = val * 10 + (of_char c - 48) in
              if v > 255 then None else v4_loop s v (digLen + 1) fields)
      else if c = CHR ''.'' then
        (if digLen = 0 \<or> s = [] then None
         else if length fields = 3 then None
         else v4_loop s 0 0 (fields @ [val]))
      else None)"

definition parseIPv4 :: "string \<Rightarrow> u8 list option" where
  "parseIPv4 s = map_option (map of_nat) (v4_loop s 0 0 [])"

definition hex_digit_val :: "char \<Rightarrow> nat option" where
  "hex_digit_val c =
     (let n = (of_char c :: nat) in
      if 48 \<le> n \<and> n \<le> 57 then Some (n - 48)
      else if 97 \<le> n \<and> n \<le> 102 then Some (n - 97 + 10)
      else if 65 \<le> n \<and> n \<le> 70 then Some (n - 65 + 10)
      else None)"

text \<open>
  The hexadecimal group at the head of the string: its length, its value and what follows;
  \<open>None\<close> for more than four digits.
\<close>

fun hex_scan :: "string \<Rightarrow> nat \<Rightarrow> nat \<Rightarrow> (nat \<times> nat \<times> string) option" where
  "hex_scan [] off acc = Some (off, acc, [])"
| "hex_scan (c # s) off acc =
     (case hex_digit_val c of
        None \<Rightarrow> Some (off, acc, c # s)
      | Some d \<Rightarrow> if off > 3 then None else hex_scan s (off + 1) (acc * 16 + d))"

text \<open>
  The group loop of \<open>parseIPv6\<close>. The first argument counts the groups that still fit (the
  loop runs while \<open>i < 16\<close> and each round fills two bytes), \<open>ip\<close> holds the bytes read so far
  and \<open>ell\<close> the position of the ellipsis. The result is the unread rest, the bytes and the
  ellipsis.
\<close>

fun v6_loop :: "nat \<Rightarrow> string \<Rightarrow> u8 list \<Rightarrow> nat option \<Rightarrow> (string \<times> u8 list \<times> nat option) option" where
  "v6_loop 0 s ip ell = Some (s, ip, ell)"
| "v6_loop (Suc n) s ip ell =
     (case hex_scan s 0 0 of
        None \<Rightarrow> None
      | Some (off, acc, rest) \<Rightarrow>
          if off = 0 then None
          else if rest \<noteq> [] \<and> hd rest = CHR ''.'' then
            (if ell = None \<and> length ip \<noteq> 12 then None
             else if length ip + 4 > 16 then None
             else case parseIPv4 s of None \<Rightarrow> None | Some f \<Rightarrow> Some ([], ip @ f, ell))
          else
            (let ip' = ip @ [of_nat (acc div 256), of_nat (acc mod 256)] in
             case rest of
               [] \<Rightarrow> Some ([], ip', ell)
             | c # r \<Rightarrow>
                 if c \<noteq> CHR '':'' then None
                 else if r = [] then None
                 else if hd r = CHR '':'' then
                   (if ell \<noteq> None then None
                    else if tl r = [] then Some ([], ip', Some (length ip'))
                    else v6_loop n (tl r) ip' (Some (length ip')))
                 else v6_loop n r ip' ell))"

definition v6_finish :: "string \<Rightarrow> u8 list \<Rightarrow> nat option \<Rightarrow> u8 list option" where
  "v6_finish s ip ell =
     (if s \<noteq> [] then None
      else if length ip < 16 then
        (case ell of None \<Rightarrow> None
         | Some e \<Rightarrow> Some (take e ip @ replicate (16 - length ip) 0 @ drop e ip))
      else if ell \<noteq> None then None
      else Some ip)"

definition parseIPv6 :: "string \<Rightarrow> netip_addr option" where
  "parseIPv6 txt =
     (let s = takeWhile (\<lambda>c. c \<noteq> CHR ''%'') txt;
          zone = drop (length s + 1) txt
      in if CHR ''%'' \<in> set txt \<and> zone = [] then None
         else if HasPrefix s ''::'' then
           (if drop 2 s = [] then Some (Addr6 (replicate 16 0) zone)
            else case v6_loop 8 (drop 2 s) [] (Some 0) of
                   None \<Rightarrow> None
                 | Some (r, ip, ell) \<Rightarrow> map_option (\<lambda>b. Addr6 b zone) (v6_finish r ip ell))
         else case v6_loop 8 s [] None of
                None \<Rightarrow> None
              | Some (r, ip, ell) \<Rightarrow> map_option (\<lambda>b. Addr6 b zone) (v6_finish r ip ell))"

fun addr_kind :: "string \<Rightarrow> char option" where
  "addr_kind [] = None"
| "addr_kind (c # s) = (if c \<in> {CHR ''.'', CHR '':'', CHR ''%''} then Some c else addr_kind s)"

definition ParseAddr :: "string \<Rightarrow> netip_addr option" where
  "ParseAddr s =
     (case addr_kind s of
        None \<Rightarrow> None
      | Some c \<Rightarrow> if c = CHR ''.'' then map_option Addr4 (parseIPv4 s)
                  else if c = CHR '':'' then parseIPv6 s
                  else None)"

section \<open>Prefixes\<close>

record prefix =
  px_addr :: netip_addr
  px_bits :: nat

fun addr_bytes :: "netip_addr \<Rightarrow> u8 list" where
  "addr_bytes (Addr4 b) = b"
| "addr_bytes (Addr6 b z) = b"

fun addr_zone :: "netip_addr \<Rightarrow> string" where
  "addr_zone (Addr4 b) = []"
| "addr_zone (Addr6 b z) = z"

fun withoutZone :: "netip_addr \<Rightarrow> netip_addr" where
  "withoutZone (Addr4 b) = Addr4 b"
| "withoutZone (Addr6 b z) = Addr6 b []"

fun BitLen :: "netip_addr \<Rightarrow> nat" where
  "BitLen (Addr4 b) = 32"
| "BitLen (Addr6 b z) = 128"

text \<open>\<open>PrefixFrom\<close> on a valid address and a length within its \<open>BitLen\<close>.\<close>

definition PrefixFrom :: "netip_addr \<Rightarrow> nat \<Rightarrow> prefix" where
  "PrefixFrom a bits = \<lparr>px_addr = withoutZone a, px_bits = bits\<rparr>"

definition ParsePrefix :: "string \<Rightarrow> prefix option" where
  "ParsePrefix s =
     (let bitsStr = rev (takeWhile (\<lambda>c. c \<noteq> CHR ''/'') (rev s));
          addrStr = take (length s - length bitsStr - 1) s
      in if CHR ''/'' \<notin> set s then None
         else case ParseAddr addrStr of
           None \<Rightarrow> None
         | Some a \<Rightarrow>
             if addr_zone a \<noteq> [] then None
             else if length bitsStr > 1 \<and> \<not> (is_digit (hd bitsStr) \<and> hd bitsStr \<noteq> CHR ''0'') then None
             else case Atoi bitsStr of
               None \<Rightarrow> None
             | Some n \<Rightarrow> if n < 0 \<or> n > int (BitLen a) then None
                         else Some (PrefixFrom a (nat n)))"

definition keep_bits :: "nat \<Rightarrow> u8 \<Rightarrow> u8" where
  "keep_bits k b = push_bit (8 - k) (drop_bit (8 - k) b)"

fun mask_bytes :: "nat \<Rightarrow> u8 list \<Rightarrow> u8 list" where
  "mask_bytes n [] = []"
| "mask_bytes n (b # bs) = keep_bits (min n 8) b # mask_bytes (n - 8) bs"

fun mask_addr :: "nat \<Rightarrow> netip_addr \<Rightarrow> netip_addr" where
  "mask_addr n (Addr4 b) = Addr4 (mask_bytes n b)"
| "mask_addr n (Addr6 b z) = Addr6 (mask_bytes n b) []"

definition Masked :: "prefix \<Rightarrow> prefix" where
  "Masked p = p\<lparr>px_addr := mask_addr (px_bits p) (px_addr p)\<rparr>"

definition Contains :: "prefix \<Rightarrow> netip_addr \<Rightarrow> bool" where
  "Contains p a \<longleftrightarrow>
     addr_zone a = [] \<and> BitLen (px_addr p) = BitLen a
     \<and> mask_bytes (px_bits p) (addr_bytes a) = mask_bytes (px_bits p) (addr_bytes (px_addr p))"

section \<open>Address classes\<close>

definition v4_mapped :: "u8 list \<Rightarrow> bool" where
  "v4_mapped b \<longleftrightarrow> length b = 16 \<and> take 12 b = replicate 10 0 @ [0xFF, 0xFF]"

fun Unmap :: "netip_addr \<Rightarrow> netip_addr" where
  "Unmap (Addr4 b) = Addr4 b"
| "Unmap (Addr6 b z) = (if v4_mapped b then Addr4 (drop 12 b) else Addr6 b z)"

definition byte_at :: "u8 list \<Rightarrow> nat \<Rightarrow> u8" where
  "byte_at b i = (if i < length b then b ! i else 0)"

definition Addr_IsPrivate :: "netip_addr \<Rightarrow> bool" where
  "Addr_IsPrivate a \<longleftrightarrow>
     (case Unmap a of
        Addr4 b \<Rightarrow> byte_at b 0 = 10 \<or> byte_at b 0 = 172 \<and> byte_at b 1 AND 0xF0 = 16
                   \<or> byte_at b 0 = 192 \<and> byte_at b 1 = 168
      | Addr6 b z \<Rightarrow> byte_at b 0 AND 0xFE = 0xFC)"

definition Addr_IsLoopback :: "netip_addr \<Rightarrow> bool" where
  "Addr_IsLoopback a \<longleftrightarrow>
     (case Unmap a of
        Addr4 b \<Rightarrow> byte_at b 0 = 127
      | Addr6 b z \<Rightarrow> b = replicate 15 0 @ [1])"

definition Addr_IsLinkLocalUnicast :: "netip_addr \<Rightarrow> bool" where
  "Addr_IsLinkLocalUnicast a \<longleftrightarrow>
     (case Unmap a of
        Addr4 b \<Rightarrow> byte_at b 0 = 169 \<and> byte_at b 1 = 254
      | Addr6 b z \<Rightarrow> byte_at b 0 = 0xFE \<and> byte_at b 1 AND 0xC0 = 0x80)"

definition Addr_IsMulticast :: "netip_addr \<Rightarrow> bool" where
  "Addr_IsMulticast a \<longleftrightarrow>
     (case Unmap a of
        Addr4 b \<Rightarrow> byte_at b 0 AND 0xF0 = 0xE0
      | Addr6 b z \<Rightarrow> byte_at b 0 = 0xFF)"

definition Addr_IsUnspecified :: "netip_addr \<Rightarrow> bool" where
  "Addr_IsUnspecified a \<longleftrightarrow> a = Addr4 (replicate 4 0) \<or> a = Addr6 (replicate 16 0) []"

section \<open>The byte slices of package net\<close>

fun As16 :: "netip_addr \<Rightarrow> net_ip" where
  "As16 (Addr4 b) = replicate 10 0 @ [0xFF, 0xFF] @ b"
| "As16 (Addr6 b z) = b"

definition ParseIP :: "string \<Rightarrow> net_ip option" where
  "ParseIP s =
     (case ParseAddr s of None \<Rightarrow> None | Some a \<Rightarrow> if addr_zone a \<noteq> [] then None else Some (As16 a))"

definition To4 :: "net_ip \<Rightarrow> net_ip option" where
  "To4 ip = (if length ip = 4 then Some ip else if v4_mapped ip then Some (drop 12 ip) else None)"

definition To16 :: "net_ip \<Rightarrow> net_ip" where
  "To16 ip = (if length ip = 4 then replicate 10 0 @ [0xFF, 0xFF] @ ip else ip)"

definition IP_IsUnspecified :: "net_ip \<Rightarrow> bool" where
  "IP_IsUnspecified ip \<longleftrightarrow>
     To16 ip = replicate 10 0 @ [0xFF, 0xFF] @ replicate 4 0 \<or> To16 ip = replicate 16 0"

definition IP_IsLoopback :: "net_ip \<Rightarrow> bool" where
  "IP_IsLoopback ip \<longleftrightarrow>
     (case To4 ip of Some b \<Rightarrow> byte_at b 0 = 127 | None \<Rightarrow> ip = replicate 15 0 @ [1])"

definition show_byte :: "u8 \<Rightarrow> string" where
  "show_byte b = show_nat (unat b)"

definition dotted :: "u8 list \<Rightarrow> string" where
  "dotted b = Join ''.'' (map show_byte b)"

definition hex_digit :: "nat \<Rightarrow> char" where
  "hex_digit n = (if n < 10 then char_of (48 + n) else char_of (87 + n))"

fun show_hex :: "nat \<Rightarrow> string" where
  "show_hex n = (if n < 16 then [hex_digit n] else show_hex (n div 16) @ [hex_digit (n mod 16)])"

declare show_hex.simps [simp del]

fun groups :: "u8 list \<Rightarrow> nat list" where
  "groups (a # b # s) = (unat a * 256 + unat b) # groups s"
| "groups s = []"

text \<open>The longest run of at least two zero groups, the first one among equals.\<close>

definition zero_run :: "nat list \<Rightarrow> (nat \<times> nat) option" where
  "zero_run ws = foldl (\<lambda>best i.
     let l = length (takeWhile (\<lambda>w. w = 0) (drop i ws)) in
     if l \<ge> 2 \<and> (case best of None \<Rightarrow> True | Some (s, e) \<Rightarrow> l > e - s) then Some (i, i + l) else best)
     None [0..<length ws]"

definition show_v6 :: "u8 list \<Rightarrow> string" where
  "show_v6 b =
     (let ws = groups b; show_groups = (\<lambda>l. Join '':'' (map show_hex l)) in
      case zero_run ws of
        None \<Rightarrow> show_groups ws
      | Some (s, e) \<Rightarrow> show_groups (take s ws) @ ''::'' @ show_groups (drop e ws))"

definition hex_byte :: "u8 \<Rightarrow> string" where
  "hex_byte b = [hex_digit (unat b div 16), hex_digit (unat b mod 16)]"

definition IP_String :: "net_ip \<Rightarrow> string" where
  "IP_String ip =
     (if ip = [] then ''<nil>''
      else if length ip \<noteq> 4 \<and> length ip \<noteq> 16 then ''?'' @ concat (map hex_byte ip)
      else case To4 ip of Some b \<Rightarrow> dotted b | None \<Rightarrow> show_v6 ip)"

section \<open>Round trips and prefix containment\<close>

text \<open>Dotted addresses are parsed back; masking keeps exactly the leading bits.\<close>

lemma of_char_digit [simp]: "n < 10 \<Longrightarrow> of_char (digit n) = (48 + n :: nat)"
  by (simp add: digit_def)

lemma is_digit_digit [simp]: "n < 10 \<Longrightarrow> is_digit (digit n)"
  by (simp add: is_digit_def)

lemma not_digit [simp]: "\<not> is_digit CHR ''.''" "\<not> is_digit CHR '':''" "\<not> is_digit CHR ''%''"
  by (simp_all add: is_digit_def)

lemma show_nat_octet:
  assumes "n < 256"
  shows "v4_loop (show_nat n @ s) 0 0 f = v4_loop s n (length (show_nat n)) f"
proof -
  consider "n < 10" | "10 \<le> n" "n < 100" | "100 \<le> n" by linarith
  then show ?thesis
  proof cases
    case 1
    then show ?thesis by (simp add: show_nat.simps [of n])
  next
    case 2
    then have "n div 10 < 10" "n div 10 \<noteq> 0" by auto
    with 2 show ?thesis by (simp add: show_nat.simps [of n] show_nat.simps [of "n div 10"])
  next
    case 3
    define x y z where "x = n div 10 div 10" and "y = n div 10 mod 10" and "z = n mod 10"
    have dec: "n div 10 = x * 10 + y" "n = (x * 10 + y) * 10 + z"
      unfolding x_def y_def z_def by (simp_all only: div_mult_mod_eq)
    have xyz: "x < 10" "0 < x" "y < 10" "z < 10" using assms 3 by (auto simp: x_def y_def z_def)
    have "show_nat (x * 10 + y) = [digit x, digit y]"
      using xyz by (simp add: show_nat.simps [of "x * 10 + y"] show_nat.simps [of x])
    moreover have "show_nat n = show_nat (x * 10 + y) @ [digit z]"
      using 3 by (simp add: show_nat.simps [of n] dec(1) z_def)
    ultimately have "show_nat n = [digit x, digit y, digit z]" by simp
    then show ?thesis using assms xyz by (simp add: Let_def dec(2))
  qed
qed

lemma show_nat_nonempty [simp]: "show_nat n \<noteq> []"
  by (simp add: show_nat.simps [of n])

lemma show_nat_digits: "c \<in> set (show_nat n) \<Longrightarrow> is_digit c"
proof (induction n rule: show_nat.induct)
  case (1 n)
  then show ?case by (cases "n < 10") (auto simp: show_nat.simps [of n])
qed

lemma unat_u8_less [simp]: "unat (b :: u8) < 256"
  using unsigned_less [of b] by simp

lemma addr_kind_skip: "\<forall>c\<in>set p. is_digit c \<Longrightarrow> addr_kind (p @ s) = addr_kind s"
  by (induction p) auto

lemma parseIPv4_dotted:
  assumes "length b = 4"
  shows "parseIPv4 (dotted b) = Some b"
proof -
  obtain w x y z where b: "b = [w, x, y, z]"
    using assms by (auto simp: length_Suc_conv eval_nat_numeral)
  show ?thesis
    by (simp add: b parseIPv4_def dotted_def show_byte_def show_nat_octet
        show_nat_octet [where s = "[]", simplified] show_nat_digits)
qed

lemma ParseAddr_dotted:
  assumes "length b = 4"
  shows "ParseAddr (dotted b) = Some (Addr4 b)"
proof -
  obtain w x y z where b: "b = [w, x, y, z]"
    using assms by (auto simp: length_Suc_conv eval_nat_numeral)
  have "addr_kind (dotted b) = Some CHR ''.''"
    by (simp add: b dotted_def show_byte_def addr_kind_skip show_nat_digits)
  then show ?thesis by (simp add: ParseAddr_def parseIPv4_dotted assms)
qed

lemma keep_bits_idem [simp]: "keep_bits k (keep_bits k b) = keep_bits k b"
  by (auto simp: keep_bits_def bit_eq_iff bit_push_bit_iff bit_drop_bit_eq)

lemma mask_bytes_idem [simp]: "mask_bytes n (mask_bytes n b) = mask_bytes n b"
  by (induction n b rule: mask_bytes.induct) simp_all

lemma Contains_Masked [simp]: "Contains (Masked p) a = Contains p a"
  by (cases "px_addr p") (simp_all add: Contains_def Masked_def)

definition addr_bits :: "u8 list \<Rightarrow> bool list" where
  "addr_bits b = concat (map (\<lambda>x. map (\<lambda>i. bit x (7 - i)) [0..<8]) b)"

lemma keep_bits_eq:
  assumes "k \<le> 8"
  shows "keep_bits k x = keep_bits k y \<longleftrightarrow>
    take k (map (\<lambda>i. bit x (7 - i)) [0..<8]) = take k (map (\<lambda>i. bit y (7 - i)) [0..<8])"
proof -
  have "keep_bits k x = keep_bits k y \<longleftrightarrow> (\<forall>j<8. 8 - k \<le> j \<longrightarrow> bit x j = bit y j)"
    by (auto simp: keep_bits_def bit_eq_iff bit_push_bit_iff bit_drop_bit_eq)
  also have "\<dots> \<longleftrightarrow> (\<forall>i<k. bit x (7 - i) = bit y (7 - i))"
  proof safe
    fix i assume "\<forall>j<8. 8 - k \<le> j \<longrightarrow> bit x j = bit y j" "i < k" "bit x (7 - i)"
    then show "bit y (7 - i)" using assms by auto
  next
    fix i assume "\<forall>j<8. 8 - k \<le> j \<longrightarrow> bit x j = bit y j" "i < k" "bit y (7 - i)"
    then show "bit x (7 - i)" using assms by auto
  next
    fix j assume "\<forall>i<k. bit x (7 - i) = bit y (7 - i)" "j < 8" "8 - k \<le> j" "bit x j"
    moreover have "7 - (7 - j) = j" "7 - j < k" using calculation assms by auto
    ultimately show "bit y j" by metis
  next
    fix j assume "\<forall>i<k. bit x (7 - i) = bit y (7 - i)" "j < 8" "8 - k \<le> j" "bit y j"
    moreover have "7 - (7 - j) = j" "7 - j < k" using calculation assms by auto
    ultimately show "bit x j" by metis
  qed
  also have "\<dots> \<longleftrightarrow> take k (map (\<lambda>i. bit x (7 - i)) [0..<8]) = take k (map (\<lambda>i. bit y (7 - i)) [0..<8])"
    using assms by (auto simp: list_eq_iff_nth_eq)
  finally show ?thesis .
qed

lemma mask_bytes_eq:
  assumes "length a = length b"
  shows "mask_bytes n a = mask_bytes n b \<longleftrightarrow> take n (addr_bits a) = take n (addr_bits b)"
  using assms
proof (induction a b arbitrary: n rule: list_induct2)
  case (Cons x xs y ys)
  have "take n (addr_bits (z # zs)) = take (min n 8) (map (\<lambda>i. bit z (7 - i)) [0..<8]) @ take (n - 8) (addr_bits zs)"
    for z :: u8 and zs by (simp add: addr_bits_def min_def)
  with Cons show ?case by (simp add: keep_bits_eq)
qed (simp add: addr_bits_def)

text \<open>The colon-separated form is parsed back too, with or without an ellipsis.\<close>

lemma hex_digit_val_digit [simp]: "n < 16 \<Longrightarrow> hex_digit_val (hex_digit n) = Some n"
  by (auto simp: hex_digit_val_def hex_digit_def Let_def)

definition hex_val :: "string \<Rightarrow> nat" where
  "hex_val s = foldl (\<lambda>acc c. acc * 16 + the (hex_digit_val c)) 0 s"

lemma show_hex_facts:
  "(\<forall>c\<in>set (show_hex n). hex_digit_val c \<noteq> None) \<and> hex_val (show_hex n) = n \<and> show_hex n \<noteq> []"
proof (induction n rule: show_hex.induct)
  case (1 n)
  then show ?case by (cases "n < 16") (auto simp: show_hex.simps [of n] hex_val_def)
qed

lemma show_hex_length: "n < 16 ^ Suc k \<Longrightarrow> length (show_hex n) \<le> Suc k"
proof (induction k arbitrary: n)
  case 0
  then show ?case by (simp add: show_hex.simps [of n])
next
  case (Suc k)
  then have "n div 16 < 16 ^ Suc k" by (simp add: less_mult_imp_div_less)
  then show ?case using Suc.IH [of "n div 16"] by (simp add: show_hex.simps [of n])
qed

lemma hex_scan_digits:
  assumes "\<forall>c\<in>set p. hex_digit_val c \<noteq> None" and "off + length p \<le> 4"
    and "s = [] \<or> hex_digit_val (hd s) = None"
  shows "hex_scan (p @ s) off acc =
    Some (off + length p, foldl (\<lambda>acc c. acc * 16 + the (hex_digit_val c)) acc p, s)"
  using assms
proof (induction p arbitrary: off acc)
  case Nil
  then show ?case by (cases s) auto
qed auto

lemma hex_scan_show:
  assumes "n < 65536" and "s = [] \<or> hex_digit_val (hd s) = None"
  shows "hex_scan (show_hex n @ s) 0 0 = Some (length (show_hex n), n, s)"
  using hex_scan_digits [of "show_hex n" 0 s 0] show_hex_facts [of n] show_hex_length [of n 3] assms
  by (simp add: hex_val_def)

fun group_bytes :: "nat list \<Rightarrow> u8 list" where
  "group_bytes [] = []"
| "group_bytes (w # ws) = of_nat (w div 256) # of_nat (w mod 256) # group_bytes ws"

lemma group_bytes_length [simp]: "length (group_bytes ws) = 2 * length ws"
  by (induction ws) auto

lemma group_bytes_groups: "even (length b) \<Longrightarrow> group_bytes (groups b) = b"
  by (induction b rule: groups.induct) simp_all

lemma groups_bound: "w \<in> set (groups b) \<Longrightarrow> w < 65536"
proof (induction b rule: groups.induct)
  case (1 x y s)
  have "unat x < 256" "unat y < 256" by simp_all
  then have "unat x * 256 + unat y < 65536" by linarith
  with 1 show ?case by auto
qed auto

lemma hex_colon [simp]: "hex_digit_val CHR '':'' = None" "hex_digit_val CHR ''.'' = None"
  by (simp_all add: hex_digit_val_def)

lemma show_hex_no_colon: "CHR '':'' \<notin> set (show_hex n)" "CHR ''.'' \<notin> set (show_hex n)" "CHR ''%'' \<notin> set (show_hex n)"
  using show_hex_facts [of n] by (auto simp: hex_digit_val_def)

definition show_groups :: "nat list \<Rightarrow> string" where
  "show_groups ws = Join '':'' (map show_hex ws)"

lemma show_hex_nonempty [simp]: "show_hex n \<noteq> []"
  using show_hex_facts [of n] by simp

lemma show_hex_hd [simp]: "hd (show_hex n @ s) \<noteq> CHR '':''"
proof
  assume "hd (show_hex n @ s) = CHR '':''"
  then have "CHR '':'' \<in> set (show_hex n)"
    using hd_in_set [OF show_hex_nonempty [of n]] by (simp add: hd_append)
  then show False using show_hex_no_colon(1) by blast
qed

lemma show_groups_Cons: "show_groups (w # v # vs) = show_hex w @ CHR '':'' # show_groups (v # vs)"
  by (simp add: show_groups_def)

lemma show_groups_hd [simp]:
  "ws \<noteq> [] \<Longrightarrow> show_groups ws \<noteq> []" "ws \<noteq> [] \<Longrightarrow> hd (show_groups ws @ s) \<noteq> CHR '':''"
proof (goal_cases)
  case 1
  then show ?case by (cases ws rule: remdups_adj.cases) (simp_all add: show_groups_def)
next
  case 2
  then show ?case
    using show_hex_hd [of "hd ws"]
    by (cases ws rule: remdups_adj.cases) (simp_all add: show_groups_def)
qed

text \<open>The group loop reads a list of groups, up to the end or up to an ellipsis.\<close>

lemma v6_loop_groups:
  assumes "ws \<noteq> []" and "\<forall>w\<in>set ws. w < 65536" and "length ws \<le> n"
  shows "v6_loop n (show_groups ws) ip ell = Some ([], ip @ group_bytes ws, ell)"
  using assms
proof (induction ws arbitrary: n ip rule: remdups_adj.induct)
  case (2 w)
  then obtain m where "n = Suc m" by (cases n) auto
  with 2 show ?case using hex_scan_show [of w "[]"] by (simp add: show_groups_def)
next
  case (3 w v vs)
  then obtain m where n: "n = Suc m" by (cases n) auto
  have IH: "v6_loop m (show_groups (v # vs)) ip' ell = Some ([], ip' @ group_bytes (v # vs), ell)" for ip'
    using 3 n by (cases "w = v") auto
  show ?case
    using 3 n IH show_groups_hd(2) [of "v # vs" "[]"]
      hex_scan_show [of w "CHR '':'' # show_groups (v # vs)"]
    by (simp add: show_groups_Cons)
qed simp

lemma v6_loop_ellipsis:
  assumes "ws \<noteq> []" and "\<forall>w\<in>set ws. w < 65536" and "length ws \<le> n"
  shows "v6_loop n (show_groups ws @ CHR '':'' # CHR '':'' # r) ip None =
    (let ip' = ip @ group_bytes ws in
     if r = [] then Some ([], ip', Some (length ip'))
     else v6_loop (n - length ws) r ip' (Some (length ip')))"
  using assms
proof (induction ws arbitrary: n ip rule: remdups_adj.induct)
  case (2 w)
  then obtain m where "n = Suc m" by (cases n) auto
  with 2 show ?case
    using hex_scan_show [of w "CHR '':'' # CHR '':'' # r"] by (simp add: show_groups_def Let_def)
next
  case (3 w v vs)
  then obtain m where n: "n = Suc m" by (cases n) auto
  have IH: "v6_loop m (show_groups (v # vs) @ CHR '':'' # CHR '':'' # r) ip' None =
      (let ip'' = ip' @ group_bytes (v # vs) in
       if r = [] then Some ([], ip'', Some (length ip''))
       else v6_loop (m - length (v # vs)) r ip'' (Some (length ip'')))" for ip'
    using 3 n by (cases "w = v") auto
  show ?case
    using 3 n IH show_groups_hd(2) [of "v # vs" "CHR '':'' # CHR '':'' # r"]
      hex_scan_show [of w "CHR '':'' # show_groups (v # vs) @ CHR '':'' # CHR '':'' # r"]
    by (simp add: show_groups_Cons Let_def)
qed simp

text \<open>A run found by \<open>zero_run\<close> is a run of at least two zeros.\<close>

lemma zero_run_zeros:
  assumes "zero_run ws = Some (s, e)"
  shows "s + 2 \<le> e \<and> e \<le> length ws \<and> take (e - s) (drop s ws) = replicate (e - s) 0"
proof -
  let ?f = "\<lambda>best i. let l = length (takeWhile (\<lambda>w. w = 0) (drop i ws)) in
     if l \<ge> 2 \<and> (case best of None \<Rightarrow> True | Some (s, e) \<Rightarrow> l > e - s) then Some (i, i + l) else best"
  let ?ok = "\<lambda>best. \<forall>s e. best = Some (s, e) \<longrightarrow>
     s + 2 \<le> e \<and> e \<le> length ws \<and> take (e - s) (drop s ws) = replicate (e - s) 0"
  have step: "?ok (?f best i)" if "?ok best" "i < length ws" for best i
  proof -
    define z where "z = takeWhile (\<lambda>w. w = 0) (drop i ws)"
    have "take (length z) (drop i ws) = z" unfolding z_def by (rule takeWhile_eq_take [symmetric])
    moreover have "z = replicate (length z) 0" unfolding z_def
      by (rule replicate_length_same [symmetric]) (auto dest: set_takeWhileD)
    ultimately have run: "take (length z) (drop i ws) = replicate (length z) 0" by (rule trans)
    have len: "length z \<le> length ws - i"
      unfolding z_def using length_takeWhile_le [of _ "drop i ws"] by simp
    show ?thesis
    proof (cases "length z \<ge> 2 \<and> (case best of None \<Rightarrow> True | Some (s, e) \<Rightarrow> length z > e - s)")
      case True
      then have "?f best i = Some (i, i + length z)" unfolding z_def Let_def by (rule if_P)
      then show ?thesis using True run len that(2) by simp
    next
      case False
      then have "?f best i = best" unfolding z_def Let_def by (rule if_not_P)
      with that(1) show ?thesis by presburger
    qed
  qed
  have ok: "?ok (foldl ?f None is)" if "set is \<subseteq> {0..<length ws}" for "is"
    using that
  proof (induction "is" rule: rev_induct)
    case (snoc i js)
    have "?ok (foldl ?f None js)" by (rule snoc.IH) (use snoc.prems in simp)
    then have "?ok (?f (foldl ?f None js) i)" by (rule step) (use snoc.prems in simp)
    then show ?case by (simp only: foldl_append foldl.simps)
  qed simp
  have "?ok (zero_run ws)" unfolding zero_run_def by (rule ok) simp
  with assms show ?thesis by blast
qed

lemma group_bytes_append [simp]: "group_bytes (a @ b) = group_bytes a @ group_bytes b"
  by (induction a) auto

lemma group_bytes_zeros [simp]: "group_bytes (replicate n 0) = replicate (2 * n) 0"
  by (induction n) auto

lemma show_groups_chars: "c \<in> set (show_groups ws) \<Longrightarrow> c = CHR '':'' \<or> hex_digit_val c \<noteq> None"
proof (induction ws rule: remdups_adj.induct)
  case (2 w)
  then show ?case using show_hex_facts [of w] by (auto simp: show_groups_def)
next
  case (3 w v vs)
  then show ?case using show_hex_facts [of w] by (cases "w = v") (auto simp: show_groups_Cons)
qed (simp add: show_groups_def)

lemma show_v6_alt: "show_v6 b = (case zero_run (groups b) of
    None \<Rightarrow> show_groups (groups b)
  | Some (s, e) \<Rightarrow> show_groups (take s (groups b)) @ ''::'' @ show_groups (drop e (groups b)))"
  unfolding show_v6_def Let_def show_groups_def by (rule refl)

lemma show_v6_chars: "c \<in> set (show_v6 b) \<Longrightarrow> c = CHR '':'' \<or> hex_digit_val c \<noteq> None"
  by (auto simp: show_v6_alt dest: show_groups_chars split: option.splits)

lemma length_groups [simp]: "length (groups b) = length b div 2"
  by (induction b rule: groups.induct) simp_all

lemma show_groups_colon:
  assumes "1 < length ws" shows "CHR '':'' \<in> set (show_groups ws)"
proof -
  obtain w v vs where "ws = w # v # vs" using assms by (cases ws rule: remdups_adj.cases) auto
  then show ?thesis by (simp add: show_groups_Cons)
qed

lemma addr_kind_colon:
  "CHR '':'' \<in> set s \<Longrightarrow> \<forall>c\<in>set s. c = CHR '':'' \<or> hex_digit_val c \<noteq> None \<Longrightarrow> addr_kind s = Some CHR '':''"
proof (induction s)
  case (Cons c s)
  show ?case
  proof (cases "c = CHR '':''")
    case False
    have "hex_digit_val CHR ''%'' = None" by (simp add: hex_digit_val_def)
    then have "c \<noteq> CHR ''.''" "c \<noteq> CHR ''%''" using Cons.prems(2) False by force+
    with False Cons show ?thesis by simp
  qed simp
qed simp

lemma parseIPv6_plain:
  assumes "CHR ''%'' \<notin> set t"
  shows "parseIPv6 t =
     (if HasPrefix t ''::'' then
        (if drop 2 t = [] then Some (Addr6 (replicate 16 0) [])
         else case v6_loop 8 (drop 2 t) [] (Some 0) of
                None \<Rightarrow> None
              | Some (r, ip, ell) \<Rightarrow> map_option (\<lambda>b. Addr6 b []) (v6_finish r ip ell))
      else case v6_loop 8 t [] None of
             None \<Rightarrow> None
           | Some (r, ip, ell) \<Rightarrow> map_option (\<lambda>b. Addr6 b []) (v6_finish r ip ell))"
proof -
  have "takeWhile (\<lambda>c. c \<noteq> CHR ''%'') t = t"
    using assms by (auto intro!: takeWhile_eq_all_conv [THEN iffD2])
  moreover have "drop (length t + 1) t = []" by simp
  ultimately show ?thesis using assms unfolding parseIPv6_def Let_def by (simp only: simp_thms if_False)
qed

lemma not_double_colon: "s \<noteq> [] \<Longrightarrow> hd s \<noteq> CHR '':'' \<Longrightarrow> \<not> HasPrefix s ''::''"
  by (cases s) auto

lemma show_groups_plain: "CHR ''%'' \<notin> set (show_groups ws)"
  using show_groups_chars [of "CHR ''%''" ws] by (auto simp: hex_digit_val_def)

lemma parseIPv6_ellipsis:
  assumes "\<forall>w\<in>set A \<union> set B. w < 65536" and "length A + length B \<le> 6"
  shows "parseIPv6 (show_groups A @ ''::'' @ show_groups B) =
    Some (Addr6 (group_bytes A @ replicate (16 - 2 * length A - 2 * length B) 0 @ group_bytes B) [])"
proof -
  have pct: "CHR ''%'' \<notin> set (show_groups A @ ''::'' @ show_groups B)"
    using show_groups_plain by simp
  show ?thesis
  proof (cases "A = []")
    case True
    have "parseIPv6 (''::'' @ show_groups B) = Some (Addr6 (replicate (16 - 2 * length B) 0 @ group_bytes B) [])"
      using v6_loop_groups [of B 8 "[]" "Some 0"] assms True pct
      by (cases "B = []") (simp_all add: parseIPv6_plain v6_finish_def show_groups_def [of "[]"])
    with True show ?thesis by (simp add: show_groups_def)
  next
    case False
    have "\<not> HasPrefix (show_groups A @ ''::'' @ show_groups B) ''::''"
      using show_groups_hd [OF False] by (intro not_double_colon) auto
    then show ?thesis
      using v6_loop_ellipsis [OF False, of 8 "show_groups B" "[]"] pct
        v6_loop_groups [of B "8 - length A" "group_bytes A" "Some (2 * length A)"] assms
      by (cases "B = []") (simp_all add: parseIPv6_plain v6_finish_def Let_def show_groups_def [of "[]"])
  qed
qed

lemma parseIPv6_show_v6:
  assumes "length b = 16"
  shows "parseIPv6 (show_v6 b) = Some (Addr6 b [])"
proof -
  let ?ws = "groups b"
  have bytes: "group_bytes ?ws = b" using assms by (simp add: group_bytes_groups)
  have bound: "\<forall>w\<in>set ?ws. w < 65536" using groups_bound by blast
  have pct: "CHR ''%'' \<notin> set (show_v6 b)"
    using show_v6_chars [of "CHR ''%''" b] by (auto simp: hex_digit_val_def)
  show ?thesis
  proof (cases "zero_run ?ws")
    case None
    then have sh: "show_v6 b = show_groups ?ws" by (simp add: show_v6_alt)
    have ne: "?ws \<noteq> []" using assms by (cases ?ws) (use length_groups [of b] in auto)
    show ?thesis
      using v6_loop_groups [OF ne bound, of 8 "[]" None] not_double_colon [of "show_groups ?ws"]
        show_groups_hd [OF ne] show_groups_hd(2) [OF ne, of "[]"] assms
      by (simp add: parseIPv6_plain [OF pct [unfolded sh]] sh bytes v6_finish_def)
  next
    case (Some se)
    then obtain s e where z: "zero_run ?ws = Some (s, e)" by (cases se) auto
    define A B where "A = take s ?ws" and "B = drop e ?ws"
    have se: "s + 2 \<le> e" "e \<le> 8" "take (e - s) (drop s ?ws) = replicate (e - s) 0"
      using zero_run_zeros [OF z] assms by auto
    have "?ws = A @ take (e - s) (drop s ?ws) @ drop (e - s) (drop s ?ws)"
      by (simp only: A_def append_take_drop_id)
    then have ws: "?ws = A @ replicate (e - s) 0 @ B"
      using se by (simp only: B_def drop_drop) simp
    have AB: "length A = s" "length B = 8 - e" using assms se by (auto simp: A_def B_def)
    have b: "b = group_bytes A @ replicate (16 - 2 * length A - 2 * length B) 0 @ group_bytes B"
      using bytes [symmetric] AB se by (simp add: ws [symmetric]) (simp add: ws diff_mult_distrib2)
    have sh: "show_v6 b = show_groups A @ ''::'' @ show_groups B"
      using z by (simp add: show_v6_alt A_def B_def)
    have bnd: "\<forall>w\<in>set A. w < 65536" "\<forall>w\<in>set B. w < 65536" using bound unfolding ws by auto
    have "parseIPv6 (show_groups A @ ''::'' @ show_groups B) = Some (Addr6 b [])"
      unfolding b using bnd AB se by (intro parseIPv6_ellipsis) auto
    then show ?thesis by (simp only: sh)
  qed
qed

lemma ParseAddr_show_v6:
  assumes "length b = 16"
  shows "ParseAddr (show_v6 b) = Some (Addr6 b [])"
proof -
  have "CHR '':'' \<in> set (show_v6 b)"
    using assms show_groups_colon [of "groups b"] by (auto simp: show_v6_alt split: option.splits)
  then have "addr_kind (show_v6 b) = Some CHR '':''"
    using show_v6_chars by (intro addr_kind_colon) auto
  then show ?thesis by (simp add: ParseAddr_def parseIPv6_show_v6 assms)
qed

text \<open>
  Every printed address is parsed back to its 16-byte form, so two byte slices print alike
  exactly when they are the same address.
\<close>

definition ip_wf :: "net_ip \<Rightarrow> bool" where
  "ip_wf ip \<longleftrightarrow> length ip = 4 \<or> length ip = 16"

lemma v4_mapped_As16: "v4_mapped ip \<Longrightarrow> As16 (Addr4 (drop 12 ip)) = ip"
  unfolding v4_mapped_def by (metis As16.simps(1) append.assoc append_take_drop_id)

lemma ParseIP_String:
  assumes "ip_wf ip"
  shows "ParseIP (IP_String ip) = Some (To16 ip)"
proof -
  consider "length ip = 4" | "length ip = 16" "v4_mapped ip" | "length ip = 16" "\<not> v4_mapped ip"
    using assms ip_wf_def by auto
  then show ?thesis
  proof cases
    case 1
    then show ?thesis
      by (auto simp: ParseIP_def IP_String_def To4_def To16_def ParseAddr_dotted)
  next
    case 2
    then show ?thesis using v4_mapped_As16 [of ip]
      by (auto simp: ParseIP_def IP_String_def To4_def To16_def ParseAddr_dotted simp del: As16.simps)
  next
    case 3
    then show ?thesis
      by (auto simp: ParseIP_def IP_String_def To4_def To16_def ParseAddr_show_v6)
  qed
qed

lemma IP_String_eq_iff:
  assumes "ip_wf a" "ip_wf b"
  shows "IP_String a = IP_String b \<longleftrightarrow> To16 a = To16 b"
proof
  assume "IP_String a = IP_String b"
  then show "To16 a = To16 b" using ParseIP_String assms by (metis option.inject)
next
  assume eq: "To16 a = To16 b"
  have "IP_String (To16 c) = IP_String c" if "ip_wf c" for c
    using that by (auto simp: ip_wf_def IP_String_def To16_def To4_def v4_mapped_def)
  with eq assms show "IP_String a = IP_String b" by metis
qed

text \<open>The bytes of a parsed address have the length of its family.\<close>

lemma v4_loop_length: "v4_loop s v d f = Some r \<Longrightarrow> length f \<le> 3 \<Longrightarrow> length r = 4"
  by (induction s v d f rule: v4_loop.induct) (auto simp: Let_def split: if_splits)

lemma parseIPv4_length: "parseIPv4 s = Some b \<Longrightarrow> length b = 4"
  by (auto simp: parseIPv4_def dest: v4_loop_length)

lemma v6_loop_length:
  "v6_loop n s ip ell = Some (r, ip', ell') \<Longrightarrow> length ip + 2 * n \<le> 16 \<Longrightarrow> length ip' \<le> 16"
proof (induction n s ip ell rule: v6_loop.induct)
  case (2 n s ip ell)
  then show ?case
    by (auto simp: Let_def dest!: parseIPv4_length split: option.splits if_splits list.splits prod.splits)
qed auto

lemma v6_finish_length: "v6_finish r ip ell = Some b \<Longrightarrow> length ip \<le> 16 \<Longrightarrow> length b = 16"
  by (auto simp: v6_finish_def split: if_splits option.splits)

lemma parseIPv6_length: "parseIPv6 s = Some a \<Longrightarrow> \<exists>b z. a = Addr6 b z \<and> length b = 16"
  by (auto simp: parseIPv6_def Let_def dest!: v6_loop_length v6_finish_length
      split: if_splits option.splits prod.splits)

fun addr_wf :: "netip_addr \<Rightarrow> bool" where
  "addr_wf (Addr4 b) = (length b = 4)"
| "addr_wf (Addr6 b z) = (length b = 16)"

lemma ParseAddr_wf: "ParseAddr s = Some a \<Longrightarrow> addr_wf a"
  by (auto simp: ParseAddr_def dest: parseIPv4_length parseIPv6_length split: option.splits if_splits)

lemma ParseIP_length: "ParseIP s = Some ip \<Longrightarrow> length ip = 16"
proof -
  assume "ParseIP s = Some ip"
  then obtain a where "ParseAddr s = Some a" "ip = As16 a"
    by (auto simp: ParseIP_def split: option.splits if_splits)
  with ParseAddr_wf show ?thesis by (cases a) fastforce+
qed

lemma ParseIP_canonical: "ParseIP s = Some ip \<Longrightarrow> ParseIP (IP_String ip) = Some ip"
  using ParseIP_String [of ip] ParseIP_length [of s ip] by (simp add: ip_wf_def To16_def)

text \<open>Prefix containment is agreement on the leading bits within the family.\<close>

lemma Contains_iff:
  assumes "addr_wf a" "addr_wf (px_addr p)"
  shows "Contains p a \<longleftrightarrow> addr_zone a = [] \<and> BitLen a = BitLen (px_addr p)
    \<and> take (px_bits p) (addr_bits (addr_bytes a)) = take (px_bits p) (addr_bits (addr_bytes (px_addr p)))"
  using assms by (cases a; cases "px_addr p") (auto simp: Contains_def mask_bytes_eq)

end
