(* ===== verification/Agent_Config.thy ===== *)
theory Agent_Config
  imports Go_Parse Exporter Netip
begin

text \<open>
  The agent's configuration (\<open>src/agent/internal/config\<close>), identity
  (\<open>src/agent/internal/identity\<close>) and connectivity probe (\<open>src/agent/internal/probe\<close>). The
  environment is a function from variable names to values (the empty string when unset).
  The properties give the defaults, the exact failures, and what the list-valued variables
  and the registration can contain.
\<close>

section \<open>Environment variables\<close>

fun and_then :: "'e + 'a \<Rightarrow> ('a \<Rightarrow> 'e + 'b) \<Rightarrow> 'e + 'b" where
  "and_then (Inl e) f = Inl e"
| "and_then (Inr x) f = f x"

definition env_or :: "(string \<Rightarrow> string) \<Rightarrow> string \<Rightarrow> string \<Rightarrow> string" where
  "env_or getenv key fallback =
     (let value = TrimSpace (getenv key) in if value \<noteq> [] then value else fallback)"

definition trimmed_parts :: "string \<Rightarrow> string list" where
  "trimmed_parts raw = filter (\<lambda>v. v \<noteq> []) (map TrimSpace (Split CHR '','' raw))"

definition agent_csv :: "string \<Rightarrow> string list" where
  "agent_csv raw = (if TrimSpace raw = [] then [] else trimmed_parts raw)"

definition intCSV :: "string \<Rightarrow> int list" where
  "intCSV raw = List.map_filter Atoi (trimmed_parts raw)"

record agent_settings =
  cf_BackendURL :: string
  cf_MockMode :: bool
  cf_HeartbeatInterval :: duration
  cf_FlowInterval :: duration
  cf_HTTPTimeout :: duration
  cf_BPFObject :: string
  cf_CaptureMode :: string
  cf_CaptureInterface :: string
  cf_ConnectivityProbeEnabled :: bool
  cf_ConnectivityProbeInterval :: duration
  cf_ConnectivityProbeTimeout :: duration
  cf_ConnectivityProbeListenAddr :: string
  cf_AgentID :: string
  cf_Hostname :: string
  cf_MachineID :: string
  cf_TenantID :: string
  cf_PrivateIPs :: "string list"
  cf_PublicIP :: string
  cf_MACAddresses :: "string list"
  cf_IgnoreIPs :: "string list"
  cf_IgnorePorts :: "int list"
  cf_AllowCIDRs :: "string list"
  cf_DenyCIDRs :: "string list"
  cf_FlowDebug :: bool
  cf_Environment :: string
  cf_AgentVersion :: string

datatype config_error = ParseFailed string | Invalid string

definition parse_bool_var :: "(string \<Rightarrow> string) \<Rightarrow> string \<Rightarrow> string \<Rightarrow> config_error + bool" where
  "parse_bool_var getenv key fallback =
     (case ParseBool (env_or getenv key fallback) of None \<Rightarrow> Inl (ParseFailed key) | Some b \<Rightarrow> Inr b)"

definition parse_duration_var :: "(string \<Rightarrow> string) \<Rightarrow> string \<Rightarrow> string \<Rightarrow> config_error + duration" where
  "parse_duration_var getenv key fallback =
     (case ParseDuration (env_or getenv key fallback) of None \<Rightarrow> Inl (ParseFailed key) | Some d \<Rightarrow> Inr d)"

text \<open>\<open>version\<close> is the link-time variable \<open>Version\<close>.\<close>

definition agent_Load :: "string \<Rightarrow> (string \<Rightarrow> string) \<Rightarrow> config_error + agent_settings" where
  "agent_Load version getenv =
     and_then (parse_bool_var getenv ''MOCK_MODE'' ''false'') (\<lambda>mockMode.
     and_then (parse_duration_var getenv ''HEARTBEAT_INTERVAL'' ''20s'') (\<lambda>heartbeat.
     and_then (parse_duration_var getenv ''FLOW_INTERVAL'' ''2s'') (\<lambda>flowInterval.
     and_then (parse_duration_var getenv ''HTTP_TIMEOUT'' ''10s'') (\<lambda>httpTimeout.
     and_then (parse_bool_var getenv ''CONNECTIVITY_PROBE_ENABLED'' ''true'') (\<lambda>probeEnabled.
     and_then (parse_duration_var getenv ''CONNECTIVITY_PROBE_INTERVAL'' ''5s'') (\<lambda>probeInterval.
     and_then (parse_duration_var getenv ''CONNECTIVITY_PROBE_TIMEOUT'' ''1s'') (\<lambda>probeTimeout.
     and_then (parse_bool_var getenv ''FLOW_DEBUG'' ''false'') (\<lambda>flowDebug.
     Inr \<lparr>cf_BackendURL = env_or getenv ''BACKEND_URL'' ''http://localhost:8080'',
          cf_MockMode = mockMode, cf_HeartbeatInterval = heartbeat, cf_FlowInterval = flowInterval,
          cf_HTTPTimeout = httpTimeout,
          cf_BPFObject = env_or getenv ''BPF_OBJECT'' ''./ebpf/flow_tracker.bpf.o'',
          cf_CaptureMode = env_or getenv ''CAPTURE_MODE'' ''tc'',
          cf_CaptureInterface = env_or getenv ''CAPTURE_INTERFACE'' ''ens3'',
          cf_ConnectivityProbeEnabled = probeEnabled, cf_ConnectivityProbeInterval = probeInterval,
          cf_ConnectivityProbeTimeout = probeTimeout,
          cf_ConnectivityProbeListenAddr = env_or getenv ''CONNECTIVITY_PROBE_LISTEN_ADDR'' ''0.0.0.0:18081'',
          cf_AgentID = getenv ''AGENT_ID'', cf_Hostname = getenv ''AGENT_HOSTNAME'',
          cf_MachineID = getenv ''MACHINE_ID'', cf_TenantID = getenv ''TENANT_ID'',
          cf_PrivateIPs = agent_csv (getenv ''AGENT_PRIVATE_IPS''),
          cf_PublicIP = getenv ''AGENT_PUBLIC_IP'',
          cf_MACAddresses = agent_csv (getenv ''AGENT_MAC_ADDRESSES''),
          cf_IgnoreIPs = agent_csv (getenv ''IGNORE_IPS''),
          cf_IgnorePorts = intCSV (env_or getenv ''IGNORE_PORTS'' ''18080,18081,18082,30033,30035''),
          cf_AllowCIDRs = agent_csv (getenv ''FLOW_ALLOW_CIDRS''),
          cf_DenyCIDRs = agent_csv (getenv ''FLOW_DENY_CIDRS''),
          cf_FlowDebug = flowDebug,
          cf_Environment = env_or getenv ''AGENT_ENVIRONMENT'' ''local'',
          cf_AgentVersion = env_or getenv ''AGENT_VERSION'' version\<rparr>))))))))"

definition agent_Validate :: "agent_settings \<Rightarrow> config_error option" where
  "agent_Validate cfg =
     (if cf_BackendURL cfg = [] then Some (Invalid ''BACKEND_URL is required'')
      else if \<not> cf_MockMode cfg \<and> cf_BPFObject cfg = []
      then Some (Invalid ''BPF_OBJECT is required when MOCK_MODE=false'')
      else if cf_FlowInterval cfg \<le> 0 then Some (Invalid ''FLOW_INTERVAL must be positive'')
      else if cf_HTTPTimeout cfg \<le> 0 then Some (Invalid ''HTTP_TIMEOUT must be positive'')
      else None)"

section \<open>Identity\<close>

text \<open>
  A network interface as \<open>net.Interfaces\<close> and \<open>Addrs\<close> report it: its flags, hardware address
  and the textual CIDR of each address.
\<close>

record net_interface =
  ni_Name :: string
  ni_Loopback :: bool
  ni_Up :: bool
  ni_MAC :: string
  ni_Addrs :: "string list"

text \<open>\<open>net.ParseCIDR\<close>, of which only the address is used; errors and zones are \<open>None\<close>.\<close>

definition ParseCIDR_ip :: "string \<Rightarrow> net_ip option" where
  "ParseCIDR_ip s =
     (let a = takeWhile (\<lambda>c. c \<noteq> CHR ''/'') s; m = drop (length a + 1) s in
      if CHR ''/'' \<notin> set s then None
      else case ParseAddr a of
        None \<Rightarrow> None
      | Some addr \<Rightarrow>
          if addr_zone addr \<noteq> [] then None
          else if m \<noteq> [] \<and> list_all is_digit m \<and> digits_val m \<le> BitLen addr then Some (As16 addr)
          else None)"

fun unique_loop :: "string list \<Rightarrow> string list \<Rightarrow> string list" where
  "unique_loop [] out = out"
| "unique_loop (v # vs) out =
     (if v \<in> set out \<or> v = [] then unique_loop vs out else unique_loop vs (out @ [v]))"

text \<open>\<open>seen\<close> holds exactly the values already in \<open>out\<close>.\<close>

definition unique :: "string list \<Rightarrow> string list" where
  "unique values = unique_loop values []"

record identity_parts =
  ip_interfaces :: "interface list"
  ip_privateIPs :: "string list"
  ip_macs :: "string list"

definition add_ip :: "string \<Rightarrow> string \<Rightarrow> identity_parts \<Rightarrow> string \<Rightarrow> identity_parts" where
  "add_ip name mac p cidr =
     (case ParseCIDR_ip cidr of
        None \<Rightarrow> p
      | Some ip \<Rightarrow>
          if IP_IsLoopback ip then p
          else p\<lparr>ip_privateIPs := ip_privateIPs p @ (if To4 ip \<noteq> None then [IP_String ip] else []),
                 ip_interfaces := ip_interfaces p
                   @ [\<lparr>if_Name = name, if_IPAddress = IP_String ip, if_MACAddress = mac\<rparr>]\<rparr>)"

definition add_interface :: "string list \<Rightarrow> identity_parts \<Rightarrow> net_interface \<Rightarrow> identity_parts" where
  "add_interface defaults p i =
     (if ni_Loopback i \<or> \<not> ni_Up i then p
      else if defaults \<noteq> [] \<and> ni_Name i \<notin> set defaults then p
      else
        let p1 = (if ni_MAC i \<noteq> [] then p\<lparr>ip_macs := ip_macs p @ [ni_MAC i]\<rparr> else p);
            p2 = (if ni_Addrs i = []
                  then p1\<lparr>ip_interfaces := ip_interfaces p1
                         @ [\<lparr>if_Name = ni_Name i, if_IPAddress = [], if_MACAddress = ni_MAC i\<rparr>]\<rparr>
                  else p1)
        in foldl (add_ip (ni_Name i) (ni_MAC i)) p2 (ni_Addrs i))"

definition networkIdentity :: "string list \<Rightarrow> net_interface list \<Rightarrow> identity_parts" where
  "networkIdentity defaults ifs =
     (let p = foldl (add_interface defaults) \<lparr>ip_interfaces = [], ip_privateIPs = [], ip_macs = []\<rparr> ifs
      in p\<lparr>ip_privateIPs := unique (ip_privateIPs p), ip_macs := unique (ip_macs p)\<rparr>)"

definition parseDefaultRouteInterfaces :: "string list \<Rightarrow> string list" where
  "parseDefaultRouteInterfaces rows =
     foldl (\<lambda>result row.
       let fields = Fields row in
       if length fields < 4 \<or> fields ! 0 = ''Iface'' \<or> fields ! 1 \<noteq> ''00000000'' then result
       else case ParseUint16_32 (fields ! 3) of
         Some flags \<Rightarrow> if odd flags then List.insert (fields ! 0) result else result
       | None \<Rightarrow> result) [] rows"

text \<open>The value of \<open>ID\<close> in \<open>/etc/os-release\<close>, without the quotes around it.\<close>

fun operatingSystem :: "string \<Rightarrow> string list \<Rightarrow> string" where
  "operatingSystem goos [] = goos"
| "operatingSystem goos (row # rows) =
     (if HasPrefix row ''ID=''
      then rev (dropWhile (\<lambda>c. c = CHR 0x22) (rev (dropWhile (\<lambda>c. c = CHR 0x22) (drop 3 row))))
      else operatingSystem goos rows)"

text \<open>
  What \<open>Collect\<close> reads from the machine. \<open>agent_hash\<close> is the hexadecimal text of the first six
  bytes of SHA-256.
\<close>

record machine =
  mc_hostname :: string
  mc_machine_id :: string
  mc_routes :: "string list"
  mc_interfaces :: "net_interface list"
  mc_os_release :: "string list option"
  mc_kernel :: string

definition mock_interfaces :: "string list \<Rightarrow> string list \<Rightarrow> interface list" where
  "mock_interfaces ips macs =
     map (\<lambda>(i, ip). \<lparr>if_Name = ''mock'' @ show_nat i, if_IPAddress = ip,
                      if_MACAddress = (if i < length macs then macs ! i else [])\<rparr>)
       (zip [0..<length ips] ips)"

definition identity_Collect :: "(string \<Rightarrow> string) \<Rightarrow> machine \<Rightarrow> agent_settings \<Rightarrow> registration" where
  "identity_Collect agent_hash mc cfg =
     (let h = TrimSpace (cf_Hostname cfg);
          hostname = (if h = [] then mc_hostname mc else h);
          i = TrimSpace (cf_MachineID cfg);
          machineID = (if i = [] then TrimSpace (mc_machine_id mc) else i);
          p = networkIdentity (parseDefaultRouteInterfaces (mc_routes mc)) (mc_interfaces mc);
          (interfaces, privateIPs) =
            (if cf_PrivateIPs cfg \<noteq> []
             then (mock_interfaces (cf_PrivateIPs cfg) (cf_MACAddresses cfg), cf_PrivateIPs cfg)
             else (ip_interfaces p, ip_privateIPs p));
          macs = (if cf_MACAddresses cfg \<noteq> [] then cf_MACAddresses cfg else ip_macs p);
          a = TrimSpace (cf_AgentID cfg);
          agentID = (if a = [] then ''agent-'' @ agent_hash (machineID @ ''|'' @ hostname) else a)
      in \<lparr>rg_AgentID = agentID, rg_Hostname = hostname, rg_MachineID = machineID,
          rg_TenantID = cf_TenantID cfg, rg_PrivateIPs = privateIPs,
          rg_PublicIP = (if cf_PublicIP cfg \<noteq> [] then Some (cf_PublicIP cfg) else None),
          rg_MACAddresses = macs, rg_Interfaces = interfaces,
          rg_OS = (case mc_os_release mc of None \<Rightarrow> ''linux'' | Some rows \<Rightarrow> operatingSystem ''linux'' rows),
          rg_Kernel = TrimSpace (mc_kernel mc),
          rg_AgentVersion = cf_AgentVersion cfg, rg_Environment = cf_Environment cfg\<rparr>)"

section \<open>Connectivity probe\<close>

text \<open>
  \<open>connect\<close> is the dialer: success and error text for an address, port and timeout;
  \<open>elapsed\<close> the microseconds it took.
\<close>

definition probeTarget ::
    "(string \<Rightarrow> int \<Rightarrow> duration \<Rightarrow> bool \<times> string) \<Rightarrow> int \<Rightarrow> gotime \<Rightarrow> duration \<Rightarrow> string \<Rightarrow> probe_target \<Rightarrow> probe_event" where
  "probeTarget connect elapsed now cfg_timeout agentID target =
     (let protocol = (if pt_Protocol target = [] then ''tcp'' else pt_Protocol target);
          port = (if pt_DestPort target \<le> 0 then 18081 else pt_DestPort target);
          timeout = (if cfg_timeout \<le> 0 then Second else cfg_timeout);
          (success, errText) = connect (pt_DestIP target) port timeout
      in \<lparr>pe_AgentID = agentID, pe_SourceIP = pt_SourceIP target, pe_DestIP = pt_DestIP target,
          pe_Protocol = protocol, pe_DestPort = port, pe_Success = success,
          pe_RTTMs = f64_div (f64_of_int elapsed) 1000, pe_Error = errText,
          pe_Source = ''vmlens_probe'', pe_Type = ''connectivity_check'',
          pe_CountedAsRequest = False, pe_CountedAsUserTraffic = False, pe_Timestamp = now\<rparr>)"

text \<open>The events that one round of \<open>probeTargets\<close> reports; a failed report is only logged.\<close>

definition probeTargets ::
    "(probe_target \<Rightarrow> probe_event) \<Rightarrow> probe_target list option \<Rightarrow> probe_event list" where
  "probeTargets probe targets =
     (case targets of
        None \<Rightarrow> []
      | Some ts \<Rightarrow> map probe (filter (\<lambda>t. \<not> (pt_DestIP t = [] \<or> pt_SourceIP t = pt_DestIP t)) ts))"

definition probe_interval :: "duration \<Rightarrow> duration" where
  "probe_interval interval = (if interval \<le> 0 then 5 * Second else interval)"

section \<open>What the configuration guarantees\<close>

definition load_vars :: "(string \<times> string \<times> bool) list" where
  "load_vars = [(''MOCK_MODE'', ''false'', True), (''HEARTBEAT_INTERVAL'', ''20s'', False),
     (''FLOW_INTERVAL'', ''2s'', False), (''HTTP_TIMEOUT'', ''10s'', False),
     (''CONNECTIVITY_PROBE_ENABLED'', ''true'', True), (''CONNECTIVITY_PROBE_INTERVAL'', ''5s'', False),
     (''CONNECTIVITY_PROBE_TIMEOUT'', ''1s'', False), (''FLOW_DEBUG'', ''false'', True)]"

definition bad_var :: "(string \<Rightarrow> string) \<Rightarrow> string \<times> string \<times> bool \<Rightarrow> bool" where
  "bad_var getenv = (\<lambda>(key, fallback, boolean).
     if boolean then ParseBool (env_or getenv key fallback) = None
     else ParseDuration (env_or getenv key fallback) = None)"

lemma and_then_bool:
  "and_then (parse_bool_var g k d) f = (if bad_var g (k, d, True) then Inl (ParseFailed k)
     else f (the (ParseBool (env_or g k d))))"
  by (simp add: parse_bool_var_def bad_var_def split: option.splits)

lemma and_then_duration:
  "and_then (parse_duration_var g k d) f = (if bad_var g (k, d, False) then Inl (ParseFailed k)
     else f (the (ParseDuration (env_or g k d))))"
  by (simp add: parse_duration_var_def bad_var_def split: option.splits)

text \<open>
  Configuration errors are reported precisely. \<open>Load\<close> fails exactly when one of the eight
  boolean or duration variables does not parse, and the error names the first such variable
  in the order of the source; every other variable, the lists included, never makes it fail.
\<close>

theorem agent_Load_error:
  "agent_Load version getenv = Inl err \<longleftrightarrow>
     (case find (bad_var getenv) load_vars of
        None \<Rightarrow> False
      | Some (key, fallback, boolean) \<Rightarrow> ParseFailed key = err)"
  unfolding agent_Load_def and_then_bool and_then_duration load_vars_def find.simps
  by (simp split: if_split)

section \<open>What the registration contains\<close>

lemma unique_loop_spec:
  assumes "distinct out" "[] \<notin> set out"
  shows "distinct (unique_loop vs out) \<and> set (unique_loop vs out) = set out \<union> (set vs - {[]})"
  using assms by (induction vs out rule: unique_loop.induct) auto

lemma unique_spec: "distinct (unique vs)" "set (unique vs) = set vs - {[]}"
  using unique_loop_spec [of "[]" vs] by (auto simp: unique_def)

text \<open>An address the agent may report: an IPv4 address of an interface that is up, is not a
  loopback and owns a default route, when there is any.\<close>

definition own_ipv4 :: "string list \<Rightarrow> net_interface list \<Rightarrow> string \<Rightarrow> bool" where
  "own_ipv4 defaults ifs s \<longleftrightarrow>
     (\<exists>i\<in>set ifs. \<exists>cidr\<in>set (ni_Addrs i). \<exists>ip.
        ni_Up i \<and> \<not> ni_Loopback i \<and> (defaults = [] \<or> ni_Name i \<in> set defaults)
        \<and> ParseCIDR_ip cidr = Some ip \<and> To4 ip \<noteq> None \<and> \<not> IP_IsLoopback ip \<and> s = IP_String ip)"

lemma add_ips_private:
  "set (ip_privateIPs (foldl (add_ip n m) p cidrs)) = set (ip_privateIPs p)
     \<union> {IP_String ip | cidr ip. cidr \<in> set cidrs \<and> ParseCIDR_ip cidr = Some ip
           \<and> To4 ip \<noteq> None \<and> \<not> IP_IsLoopback ip}"
proof (induction cidrs arbitrary: p)
  case (Cons c cs)
  show ?case
  proof (cases "ParseCIDR_ip c")
    case None
    then have "add_ip n m p c = p" by (simp add: add_ip_def)
    with Cons None show ?thesis by auto
  next
    case (Some ip)
    then have "set (ip_privateIPs (add_ip n m p c)) = set (ip_privateIPs p)
        \<union> (if To4 ip \<noteq> None \<and> \<not> IP_IsLoopback ip then {IP_String ip} else {})"
      by (auto simp: add_ip_def)
    with Cons Some show ?thesis by auto
  qed
qed simp

lemma add_interface_private:
  "set (ip_privateIPs (add_interface defaults p i)) = set (ip_privateIPs p) \<union> {s. own_ipv4 defaults [i] s}"
proof (cases "ni_Loopback i \<or> \<not> ni_Up i \<or> defaults \<noteq> [] \<and> ni_Name i \<notin> set defaults")
  case True
  then show ?thesis by (auto simp: add_interface_def own_ipv4_def)
next
  case False
  then have "set (ip_privateIPs (add_interface defaults p i)) = set (ip_privateIPs p)
     \<union> {IP_String ip | cidr ip. cidr \<in> set (ni_Addrs i) \<and> ParseCIDR_ip cidr = Some ip
           \<and> To4 ip \<noteq> None \<and> \<not> IP_IsLoopback ip}"
    by (cases "ni_MAC i = []"; cases "ni_Addrs i = []") (auto simp: add_interface_def add_ips_private)
  with False show ?thesis by (auto simp: own_ipv4_def)
qed

lemma add_interfaces_private:
  "set (ip_privateIPs (foldl (add_interface defaults) p ifs)) =
     set (ip_privateIPs p) \<union> {s. own_ipv4 defaults ifs s}"
proof (induction ifs arbitrary: p)
  case (Cons i ifs)
  have "{s. own_ipv4 defaults (i # ifs) s} = {s. own_ipv4 defaults [i] s} \<union> {s. own_ipv4 defaults ifs s}"
    by (auto simp: own_ipv4_def)
  with Cons show ?case by (simp add: add_interface_private Un_assoc)
qed (auto simp: own_ipv4_def)

text \<open>
  The agent registers its own addresses and no others. Unless the addresses are
  configured, the private addresses of the registration are pairwise different and are
  exactly the IPv4 addresses of the interfaces that are up, are not loopbacks and own a
  default route (all such interfaces when no default route can be read); loopback addresses
  are never among them. Configured addresses are taken as they are, one mock interface each.
\<close>

theorem identity_private_ips:
  "if cf_PrivateIPs cfg = []
   then distinct (rg_PrivateIPs (identity_Collect agent_hash mc cfg))
      \<and> set (rg_PrivateIPs (identity_Collect agent_hash mc cfg)) =
          {s. own_ipv4 (parseDefaultRouteInterfaces (mc_routes mc)) (mc_interfaces mc) s} - {[]}
   else rg_PrivateIPs (identity_Collect agent_hash mc cfg) = cf_PrivateIPs cfg
      \<and> map if_IPAddress (rg_Interfaces (identity_Collect agent_hash mc cfg)) = cf_PrivateIPs cfg"
proof -
  have "map if_IPAddress (mock_interfaces ips macs) = ips" for ips macs
    by (simp add: mock_interfaces_def comp_def case_prod_unfold map_zip_map [symmetric] del: map_zip_map)
  then show ?thesis
    by (simp add: identity_Collect_def Let_def networkIdentity_def unique_spec add_interfaces_private)
qed

section \<open>What the probe does\<close>

text \<open>
  Probes never touch user traffic. One round of probing reports one event per target
  that has a destination other than its own source, in order; every event is marked as
  VMLens's own connectivity check, is counted neither as a request nor as user traffic, and
  was dialled on a positive port with a positive timeout.
\<close>

theorem probe_round:
  "map pe_DestIP (probeTargets (probeTarget connect elapsed now timeout agentID) (Some ts)) =
     map pt_DestIP (filter (\<lambda>t. pt_DestIP t \<noteq> [] \<and> pt_SourceIP t \<noteq> pt_DestIP t) ts)
   \<and> list_all (\<lambda>e. \<not> pe_CountedAsRequest e \<and> \<not> pe_CountedAsUserTraffic e \<and> pe_DestPort e > 0
        \<and> pe_Source e = ''vmlens_probe'' \<and> pe_AgentID e = agentID \<and> pe_DestIP e \<noteq> []
        \<and> (pe_Success e, pe_Error e) = connect (pe_DestIP e) (pe_DestPort e) (if timeout \<le> 0 then Second else timeout))
       (probeTargets (probeTarget connect elapsed now timeout agentID) (Some ts))"
  by (auto simp: probeTargets_def probeTarget_def Let_def list_all_iff case_prod_unfold)

lemma ParseDuration_seconds:
  "ParseDuration ''20s'' = Some (20 * Second)" "ParseDuration ''2s'' = Some (2 * Second)"
  "ParseDuration ''10s'' = Some (10 * Second)" "ParseDuration ''5s'' = Some (5 * Second)"
  "ParseDuration ''1s'' = Some Second"
  by (simp_all add: ParseDuration_def duration_item_def leadingInt_def digits_val_def is_digit_def
      unit_ns_def Second_def)

lemma TrimSpace_Nil [simp]: "TrimSpace [] = []"
  by (simp add: TrimSpace_def)

lemma env_or_unset [simp]: "env_or (\<lambda>_. []) key fallback = fallback"
  by (simp add: env_or_def)

lemma ParseBool_words: "ParseBool ''false'' = Some False" "ParseBool ''true'' = Some True"
  by (simp_all add: ParseBool_def)

lemma default_ports:
  "intCSV ''18080,18081,18082,30033,30035'' = [18080, 18081, 18082, 30033, 30035]"
  by (simp add: intCSV_def trimmed_parts_def TrimSpace_def space1_def space2_def space3_def
      Atoi_def digits_val_def is_digit_def in_i64_def List.map_filter_def)

text \<open>
  The defaults are usable. With an empty environment the agent loads a configuration that
  passes validation: TC capture on \<open>ens3\<close>, flows every 2 seconds, heartbeats every 20, a
  10-second HTTP timeout, probes every 5 seconds, its own control ports ignored.
\<close>

theorem agent_defaults:
  "\<exists>cfg. agent_Load version (\<lambda>_. []) = Inr cfg \<and> agent_Validate cfg = None
     \<and> cf_CaptureMode cfg = ''tc'' \<and> cf_CaptureInterface cfg = ''ens3'' \<and> \<not> cf_MockMode cfg
     \<and> cf_FlowInterval cfg = 2 * Second \<and> cf_HeartbeatInterval cfg = 20 * Second
     \<and> cf_HTTPTimeout cfg = 10 * Second \<and> cf_ConnectivityProbeInterval cfg = 5 * Second
     \<and> cf_ConnectivityProbeTimeout cfg = Second
     \<and> cf_IgnorePorts cfg = [18080, 18081, 18082, 30033, 30035]
     \<and> cf_AllowCIDRs cfg = [] \<and> cf_DenyCIDRs cfg = [] \<and> cf_AgentVersion cfg = version"
  by (simp add: agent_Load_def parse_bool_var_def parse_duration_var_def ParseDuration_seconds
      ParseBool_words agent_csv_def default_ports agent_Validate_def Second_def)

end
