(* ===== verification/Agent_Filter.thy ===== *)
theory Agent_Filter
  imports Flow_Store Netip
begin

text \<open>
  The filters of the agent's main loop (\<open>src/agent/cmd/agent/main.go\<close>): the control-plane
  endpoint filter that keeps the agent from observing its own uploads, the ignored ports, and
  the CIDR allow and deny lists. The properties state which events reach the flow store.
\<close>

section \<open>The control-plane filter\<close>

record endpoint_filter =
  addresses :: "string list"

definition add_address :: "endpoint_filter \<Rightarrow> string \<Rightarrow> endpoint_filter" where
  "add_address f s = f\<lparr>addresses := List.insert s (addresses f)\<rparr>"

definition add_literal :: "endpoint_filter \<Rightarrow> string \<Rightarrow> endpoint_filter" where
  "add_literal f raw = (case ParseIP raw of None \<Rightarrow> f | Some ip \<Rightarrow> add_address f (IP_String ip))"

text \<open>
  \<open>hostname\<close> stands for \<open>url.Parse\<close> followed by \<open>Hostname\<close> (\<open>None\<close> when the URL does not
  parse) and \<open>lookup\<close> for the resolver behind \<open>net.LookupIP\<close> (\<open>None\<close> when it fails).
\<close>

definition newEndpointFilter ::
    "(string \<Rightarrow> string option) \<Rightarrow> (string \<Rightarrow> net_ip list option) \<Rightarrow> string \<Rightarrow> string list \<Rightarrow> endpoint_filter" where
  "newEndpointFilter hostname lookup rawURL ignoredIPs =
     (let f = foldl add_literal \<lparr>addresses = []\<rparr> ignoredIPs in
      case hostname rawURL of
        None \<Rightarrow> f
      | Some host \<Rightarrow>
          (case ParseIP host of
             Some ip \<Rightarrow> add_address f (IP_String ip)
           | None \<Rightarrow>
               (case lookup host of
                  None \<Rightarrow> f
                | Some ips \<Rightarrow> foldl (\<lambda>g ip. add_address g (IP_String ip)) f ips)))"

definition endpoint_matches :: "endpoint_filter \<Rightarrow> string \<Rightarrow> bool" where
  "endpoint_matches f ip =
     (case ParseIP ip of None \<Rightarrow> False | Some p \<Rightarrow> IP_String p \<in> set (addresses f))"

definition ignoreFlow :: "endpoint_filter \<Rightarrow> flow_metric \<Rightarrow> int list \<Rightarrow> bool" where
  "ignoreFlow controlPlane event ignoredPorts =
     (case ParseIP (fm_DstIP event) of
        None \<Rightarrow> True
      | Some address \<Rightarrow>
          if IP_IsUnspecified address \<or> IP_IsLoopback address then True
          else if endpoint_matches controlPlane (fm_DstIP event) then True
          else list_ex (\<lambda>port. port = fm_SrcPort event \<or> port = fm_DstPort event) ignoredPorts)"

section \<open>The CIDR filter\<close>

datatype filter_error = BadCIDR string string

record flow_filter =
  allow :: "prefix list"
  deny :: "prefix list"

definition parse_cidr :: "string \<Rightarrow> prefix option" where
  "parse_cidr value =
     (case ParsePrefix value of
        Some p \<Rightarrow> Some (Masked p)
      | None \<Rightarrow> map_option (\<lambda>a. Masked (PrefixFrom a (BitLen a))) (ParseAddr value))"

fun parse_cidrs :: "string list \<Rightarrow> string \<Rightarrow> filter_error + prefix list" where
  "parse_cidrs [] label = Inr []"
| "parse_cidrs (v # vs) label =
     (case parse_cidr v of
        None \<Rightarrow> Inl (BadCIDR label v)
      | Some p \<Rightarrow> (case parse_cidrs vs label of Inl e \<Rightarrow> Inl e | Inr ps \<Rightarrow> Inr (p # ps)))"

definition newFlowFilter :: "string list \<Rightarrow> string list \<Rightarrow> filter_error + flow_filter" where
  "newFlowFilter rawAllow rawDeny =
     (case parse_cidrs rawAllow ''FLOW_ALLOW_CIDRS'' of
        Inl e \<Rightarrow> Inl e
      | Inr al \<Rightarrow>
          (case parse_cidrs rawDeny ''FLOW_DENY_CIDRS'' of
             Inl e \<Rightarrow> Inl e
           | Inr de \<Rightarrow> Inr \<lparr>allow = al, deny = de\<rparr>))"

text \<open>\<open>parseAddr\<close> returns an address and a flag: an option.\<close>

definition flowFilter_matches :: "prefix list \<Rightarrow> netip_addr option \<Rightarrow> bool" where
  "flowFilter_matches prefixes addr =
     (case addr of None \<Rightarrow> False | Some a \<Rightarrow> list_ex (\<lambda>p. Contains p a) prefixes)"

definition flowFilter_allows :: "flow_filter \<Rightarrow> flow_metric \<Rightarrow> bool" where
  "flowFilter_allows f event =
     (let src = ParseAddr (fm_SrcIP event); dst = ParseAddr (fm_DstIP event) in
      if src = None \<and> dst = None then False
      else if flowFilter_matches (deny f) src \<or> flowFilter_matches (deny f) dst then False
      else if allow f = [] then True
      else flowFilter_matches (allow f) src \<or> flowFilter_matches (allow f) dst)"

text \<open>What the main loop does with an event before it adds it to the store.\<close>

definition admits :: "endpoint_filter \<Rightarrow> flow_filter \<Rightarrow> int list \<Rightarrow> flow_metric \<Rightarrow> bool" where
  "admits cp ff ports e \<longleftrightarrow> \<not> ignoreFlow cp e ports \<and> flowFilter_allows ff e"

section \<open>The control plane is never observed\<close>

lemma addresses_add [simp]: "set (addresses (add_address f s)) = insert s (set (addresses f))"
  by (simp add: add_address_def)

lemma addresses_literals:
  "set (addresses (foldl add_literal f raws)) =
     set (addresses f) \<union> {IP_String ip | raw ip. raw \<in> set raws \<and> ParseIP raw = Some ip}"
  by (induction raws arbitrary: f) (auto simp: add_literal_def split: option.splits)

lemma addresses_ips:
  "set (addresses (foldl (\<lambda>g ip. add_address g (IP_String ip)) f ips)) =
     set (addresses f) \<union> IP_String ` set ips"
  by (induction ips arbitrary: f) auto

definition endpoint_ips ::
    "(string \<Rightarrow> string option) \<Rightarrow> (string \<Rightarrow> net_ip list option) \<Rightarrow> string \<Rightarrow> string list \<Rightarrow> net_ip set" where
  "endpoint_ips hostname lookup url raws =
     {ip. \<exists>raw\<in>set raws. ParseIP raw = Some ip}
     \<union> (case hostname url of None \<Rightarrow> {}
        | Some host \<Rightarrow> (case ParseIP host of Some ip \<Rightarrow> {ip}
                       | None \<Rightarrow> (case lookup host of None \<Rightarrow> {} | Some ips \<Rightarrow> set ips)))"

lemma addresses_new:
  "set (addresses (newEndpointFilter hostname lookup url raws)) =
     IP_String ` endpoint_ips hostname lookup url raws"
  by (auto simp: newEndpointFilter_def endpoint_ips_def Let_def addresses_literals addresses_ips
      split: option.splits)

lemma endpoint_ips_wf:
  assumes "\<forall>host ips. lookup host = Some ips \<longrightarrow> list_all ip_wf ips"
    and "ip \<in> endpoint_ips hostname lookup url raws"
  shows "ip_wf ip"
  using assms
  by (auto simp: endpoint_ips_def ip_wf_def list_all_iff dest: ParseIP_length split: option.splits)

lemma endpoint_matches_new:
  assumes "\<forall>host ips. lookup host = Some ips \<longrightarrow> list_all ip_wf ips"
  shows "endpoint_matches (newEndpointFilter hostname lookup url raws) s \<longleftrightarrow>
    (\<exists>p ip. ParseIP s = Some p \<and> ip \<in> endpoint_ips hostname lookup url raws \<and> To16 ip = p)"
proof (cases "ParseIP s")
  case (Some p)
  have p: "ip_wf p" "To16 p = p" using ParseIP_length [OF Some] by (auto simp: ip_wf_def To16_def)
  have "IP_String p = IP_String ip \<longleftrightarrow> To16 ip = p"
    if "ip \<in> endpoint_ips hostname lookup url raws" for ip
    using IP_String_eq_iff [OF p(1) endpoint_ips_wf [OF assms that]] p(2) by auto
  then show ?thesis using Some by (auto simp: endpoint_matches_def addresses_new image_iff)
qed (simp add: endpoint_matches_def)

text \<open>
  The agent does not observe its own transport. When the backend URL or an
  \<open>IGNORE_IPS\<close> entry denotes an address, directly or through the resolver, no event whose
  destination is that address is admitted, in whatever textual form (IPv4, IPv4-mapped or
  any IPv6 spelling) the event carries it. The resolver is assumed to return 4- or 16-byte
  addresses.
\<close>

theorem control_plane_not_observed:
  assumes "\<forall>host ips. lookup host = Some ips \<longrightarrow> list_all ip_wf ips"
    and "ip \<in> endpoint_ips hostname lookup url raws"
    and "ParseIP (fm_DstIP e) = Some p" and "To16 ip = p"
  shows "\<not> admits (newEndpointFilter hostname lookup url raws) ff ports e"
proof -
  have "endpoint_matches (newEndpointFilter hostname lookup url raws) (fm_DstIP e)"
    using assms endpoint_matches_new by blast
  then show ?thesis using assms(3) by (simp add: admits_def ignoreFlow_def)
qed

theorem control_plane_not_observed_witness:
  "\<not> admits (newEndpointFilter (\<lambda>_. Some ''fd::a'') (\<lambda>_. None) ''http://[fd::a]:8080'' [])
       \<lparr>allow = [], deny = []\<rparr> [] (flow_metric_zero\<lparr>fm_DstIP := ''00FD:0::000A''\<rparr>)"
proof (rule control_plane_not_observed)
  let ?ip = "0 # 0xFD # replicate 13 0 @ [10] :: net_ip"
  have parse: "ParseIP ''fd::a'' = Some ?ip" "ParseIP ''00FD:0::000A'' = Some ?ip"
    by code_simp+
  show "?ip \<in> endpoint_ips (\<lambda>_. Some ''fd::a'') (\<lambda>_. None) ''http://[fd::a]:8080'' []"
    by (simp add: endpoint_ips_def parse)
  show "ParseIP (fm_DstIP (flow_metric_zero\<lparr>fm_DstIP := ''00FD:0::000A''\<rparr>)) = Some ?ip"
    by (simp add: parse)
  show "To16 ?ip = ?ip" by (simp add: To16_def)
qed simp

section \<open>The CIDR lists\<close>

definition bad_cidr :: "string \<Rightarrow> bool" where
  "bad_cidr v \<longleftrightarrow> parse_cidr v = None"

lemma parse_cidrs_find:
  "parse_cidrs vs label =
     (case find bad_cidr vs of
        Some v \<Rightarrow> Inl (BadCIDR label v)
      | None \<Rightarrow> Inr (map (\<lambda>v. the (parse_cidr v)) vs))"
  by (induction vs) (auto simp: bad_cidr_def split: option.splits)

lemma find_bad_None: "find bad_cidr vs = None \<Longrightarrow> map parse_cidr vs = map Some (map (\<lambda>v. the (parse_cidr v)) vs)"
  by (auto simp: find_None_iff bad_cidr_def)

definition addr_hits :: "string \<Rightarrow> string \<Rightarrow> bool" where
  "addr_hits cidr ip \<longleftrightarrow> (\<exists>p a. parse_cidr cidr = Some p \<and> ParseAddr ip = Some a \<and> Contains p a)"

definition flow_hits :: "string list \<Rightarrow> flow_metric \<Rightarrow> bool" where
  "flow_hits cidrs e \<longleftrightarrow> (\<exists>c\<in>set cidrs. addr_hits c (fm_SrcIP e) \<or> addr_hits c (fm_DstIP e))"

lemma matches_hits:
  assumes "map parse_cidr cs = map Some ps"
  shows "flowFilter_matches ps (ParseAddr ip) \<longleftrightarrow> (\<exists>c\<in>set cs. addr_hits c ip)"
proof -
  have "(\<exists>p\<in>set ps. Contains p a) \<longleftrightarrow> (\<exists>c\<in>set cs. \<exists>p. parse_cidr c = Some p \<and> Contains p a)" for a
  proof -
    have "Some ` set ps = parse_cidr ` set cs" using assms by (metis list.set_map)
    then show ?thesis by (metis (mono_tags, lifting) image_iff option.inject)
  qed
  then show ?thesis
    by (auto simp: flowFilter_matches_def addr_hits_def list_ex_iff split: option.splits)
qed

text \<open>
  The CIDR filter decides exactly by its lists. When the lists parse, an event is allowed
  if and only if at least one of its addresses parses, no entry of \<open>FLOW_DENY_CIDRS\<close> contains
  either address, and \<open>FLOW_ALLOW_CIDRS\<close> is empty or one of its entries contains either
  address: a denied address is never let through by an allow entry.
\<close>

theorem flow_filter_decides:
  assumes "newFlowFilter rawAllow rawDeny = Inr f"
  shows "flowFilter_allows f e \<longleftrightarrow>
    (ParseAddr (fm_SrcIP e) \<noteq> None \<or> ParseAddr (fm_DstIP e) \<noteq> None)
    \<and> \<not> flow_hits rawDeny e \<and> (rawAllow = [] \<or> flow_hits rawAllow e)"
proof -
  have lists: "map parse_cidr rawAllow = map Some (allow f)" "map parse_cidr rawDeny = map Some (deny f)"
    using assms find_bad_None [of rawAllow] find_bad_None [of rawDeny]
    by (auto simp: newFlowFilter_def parse_cidrs_find split: option.splits)
  then have "allow f = [] \<longleftrightarrow> rawAllow = []" by auto
  then show ?thesis
    using matches_hits [OF lists(1)] matches_hits [OF lists(2)]
    by (auto simp: flowFilter_allows_def Let_def flow_hits_def)
qed

theorem flow_filter_decides_witness:
  "\<not> flowFilter_allows \<lparr>allow = [\<lparr>px_addr = Addr4 [10, 0, 0, 0], px_bits = 8\<rparr>],
                          deny = [\<lparr>px_addr = Addr4 [10, 0, 0, 7], px_bits = 32\<rparr>]\<rparr>
       (flow_metric_zero\<lparr>fm_SrcIP := ''10.1.2.3'', fm_DstIP := ''10.0.0.7''\<rparr>)"
proof -
  have new: "newFlowFilter [''10.0.0.0/8''] [''10.0.0.7'']
      = Inr \<lparr>allow = [\<lparr>px_addr = Addr4 [10, 0, 0, 0], px_bits = 8\<rparr>],
             deny = [\<lparr>px_addr = Addr4 [10, 0, 0, 7], px_bits = 32\<rparr>]\<rparr>"
    by code_simp
  have "parse_cidr ''10.0.0.7'' = Some \<lparr>px_addr = Addr4 [10, 0, 0, 7], px_bits = 32\<rparr>"
    "ParseAddr ''10.0.0.7'' = Some (Addr4 [10, 0, 0, 7])"
    by code_simp+
  then have "addr_hits ''10.0.0.7'' ''10.0.0.7''"
    by (simp add: addr_hits_def Contains_def)
  then show ?thesis
    using flow_filter_decides [OF new] by (simp add: flow_hits_def)
qed

text \<open>
  A malformed CIDR stops the agent with the right message. Building the filter fails
  exactly when some entry is neither a prefix nor an address; the error names the list and
  the first malformed entry of it, and the allow list is reported before the deny list.
\<close>

theorem flow_filter_error:
  "newFlowFilter rawAllow rawDeny = Inl err \<longleftrightarrow>
     (case find (\<lambda>v. parse_cidr v = None) rawAllow of
        Some v \<Rightarrow> err = BadCIDR ''FLOW_ALLOW_CIDRS'' v
      | None \<Rightarrow>
          (case find (\<lambda>v. parse_cidr v = None) rawDeny of
             Some v \<Rightarrow> err = BadCIDR ''FLOW_DENY_CIDRS'' v
           | None \<Rightarrow> False))"
proof -
  have "(\<lambda>v. parse_cidr v = None) = bad_cidr" by (auto simp: bad_cidr_def)
  then show ?thesis by (auto simp: newFlowFilter_def parse_cidrs_find split: option.splits)
qed


end
