(* ===== verification/Agent_Loop.thy ===== *)
theory Agent_Loop
  imports Agent_Filter Exporter
begin

text \<open>
  The agent's main loop and its flow sender (\<open>run\<close> and \<open>runFlowSender\<close> of
  \<open>src/agent/cmd/agent/main.go\<close>) as a step relation: the collector's events and errors, the
  flow ticker, the bounded channel of batches, and the sender that empties it. The
  invariants hold in every interleaving of the two goroutines.
\<close>

section \<open>State and steps\<close>

record agent_config =
  ac_controlPlane :: endpoint_filter
  ac_flowFilter :: flow_filter
  ac_ignorePorts :: "int list"

text \<open>
  \<open>flowBatches\<close> is the buffered channel, \<open>sending\<close> what the sender still has of the batch it
  took, \<open>delivered\<close> and \<open>dropped\<close> the payloads that \<open>sendFlow\<close> got accepted and gave up.
  \<open>admitted\<close> records the events that were added to the store.
\<close>

record agent_state =
  events_open :: bool
  errors_open :: bool
  returned :: bool
  pendingFlows :: accumulator
  flowBatches :: "flow_state list list"
  sending :: "flow_state list"
  delivered :: "flow_state list"
  dropped :: "flow_state list"
  admitted :: "flow_metric list"

definition agent_init :: agent_state where
  "agent_init = \<lparr>events_open = True, errors_open = True, returned = False,
     pendingFlows = NewAccumulator, flowBatches = [], sending = [], delivered = [], dropped = [],
     admitted = []\<rparr>"

definition flowBatches_cap :: nat where
  "flowBatches_cap = 32"

definition main_running :: "agent_state \<Rightarrow> bool" where
  "main_running s \<longleftrightarrow> \<not> returned s \<and> (events_open s \<or> errors_open s)"

text \<open>The body of the \<open>flowTicker\<close> case.\<close>

definition on_tick :: "(flow_state list \<Rightarrow> flow_state list) \<Rightarrow> agent_state \<Rightarrow> agent_state" where
  "on_tick ord s =
     (case Accumulator_Drain ord (pendingFlows s) of (batch, acc) \<Rightarrow>
        if batch = [] then s\<lparr>pendingFlows := acc\<rparr>
        else if length (flowBatches s) < flowBatches_cap
        then s\<lparr>pendingFlows := acc, flowBatches := flowBatches s @ [batch]\<rparr>
        else s\<lparr>pendingFlows := Accumulator_AddAll acc batch\<rparr>)"

text \<open>The body of the \<open>events\<close> case.\<close>

definition on_event :: "agent_config \<Rightarrow> flow_metric \<Rightarrow> agent_state \<Rightarrow> agent_state" where
  "on_event cfg e s =
     (if ignoreFlow (ac_controlPlane cfg) e (ac_ignorePorts cfg) then s
      else if \<not> flowFilter_allows (ac_flowFilter cfg) e then s
      else s\<lparr>pendingFlows := Accumulator_Add (pendingFlows s) e, admitted := admitted s @ [e]\<rparr>)"

inductive agent_step :: "agent_config \<Rightarrow> agent_state \<Rightarrow> agent_state \<Rightarrow> bool" for cfg where
  CtxDone: "main_running s \<Longrightarrow> agent_step cfg s (s\<lparr>returned := True\<rparr>)"
| Event: "main_running s \<Longrightarrow> events_open s \<Longrightarrow> agent_step cfg s (on_event cfg e s)"
| EventsClosed: "main_running s \<Longrightarrow> events_open s \<Longrightarrow> agent_step cfg s (s\<lparr>events_open := False\<rparr>)"
| Tick: "main_running s \<Longrightarrow> map_order ord \<Longrightarrow> agent_step cfg s (on_tick ord s)"
| CollectorError: "main_running s \<Longrightarrow> errors_open s \<Longrightarrow> agent_step cfg s s"
| ErrorsClosed: "main_running s \<Longrightarrow> errors_open s \<Longrightarrow> agent_step cfg s (s\<lparr>errors_open := False\<rparr>)"
| SenderTake: "sending s = [] \<Longrightarrow> flowBatches s = b # bs
    \<Longrightarrow> agent_step cfg s (s\<lparr>sending := b, flowBatches := bs\<rparr>)"
| SendOK: "sending s = f # fs
    \<Longrightarrow> agent_step cfg s (s\<lparr>sending := fs, delivered := delivered s @ [f]\<rparr>)"
| SendFailed: "sending s = f # fs
    \<Longrightarrow> agent_step cfg s (s\<lparr>sending := fs, dropped := dropped s @ [f]\<rparr>)"

inductive agent_reachable :: "agent_config \<Rightarrow> agent_state \<Rightarrow> bool" for cfg where
  Init: "agent_reachable cfg agent_init"
| Step: "agent_reachable cfg s \<Longrightarrow> agent_step cfg s s' \<Longrightarrow> agent_reachable cfg s'"

inductive_cases agent_stepE: "agent_step cfg s s'"

section \<open>Totals per flow\<close>

definition key_tally :: "flow_key \<Rightarrow> flow_counter \<Rightarrow> flow_state list \<Rightarrow> u64" where
  "key_tally k i b = (\<Sum>s\<leftarrow>b. if fs_Key s = k then flow_tally i s else 0)"

definition acc_tally :: "flow_key \<Rightarrow> flow_counter \<Rightarrow> accumulator \<Rightarrow> u64" where
  "acc_tally k i a = (case alist_get (flows a) k of None \<Rightarrow> 0 | Some s \<Rightarrow> flow_tally i s)"

lemma key_tally_Nil [simp]: "key_tally k i [] = 0"
  by (simp add: key_tally_def)

lemma key_tally_Cons [simp]:
  "key_tally k i (s # b) = (if fs_Key s = k then flow_tally i s else 0) + key_tally k i b"
  by (simp add: key_tally_def)

lemma key_tally_append [simp]: "key_tally k i (b @ c) = key_tally k i b + key_tally k i c"
  by (simp add: key_tally_def)

lemma acc_tally_New [simp]: "acc_tally k i NewAccumulator = 0"
  by (simp add: acc_tally_def NewAccumulator_def)

lemma acc_tally_Add:
  "acc_tally k i (Accumulator_Add a e) = acc_tally k i a + (if KeyFromMetric e = k then flow_contrib i e else 0)"
  by (auto simp: acc_tally_def get_Add flow_tally_Apply flow_tally_new split: option.splits)

lemma acc_tally_AddState:
  "acc_tally k i (Accumulator_AddState a s) = acc_tally k i a + (if fs_Key s = k then flow_tally i s else 0)"
  by (auto simp: acc_tally_def Accumulator_AddState_def Let_def alist_get_set flow_tally_Merge
      split: option.splits)

lemma acc_tally_AddAll: "acc_tally k i (Accumulator_AddAll a b) = acc_tally k i a + key_tally k i b"
  unfolding Accumulator_AddAll_def
  by (induction b arbitrary: a) (simp_all add: acc_tally_AddState algebra_simps)

lemma key_tally_order: "map_order ord \<Longrightarrow> key_tally k i (ord b) = key_tally k i b"
  unfolding key_tally_def by (rule sum_list_mset_eq) simp

lemma acc_tally_snd:
  assumes "distinct_keys m" and "\<forall>(k, s)\<in>set m. fs_Key s = k"
  shows "key_tally k i (map snd m) = (case alist_get m k of None \<Rightarrow> 0 | Some s \<Rightarrow> flow_tally i s)"
  using assms
proof (induction m)
  case (Cons x m)
  obtain k' s where x: "x = (k', s)" by fastforce
  have "alist_get m k' = None" using Cons.prems(1) x alist_get_None [of m k'] by (auto simp: distinct_keys_def)
  with Cons x show ?case by (auto simp: distinct_keys_def)
qed simp

lemma acc_tally_Drain:
  assumes "acc_inv a" and "map_order ord" and "Accumulator_Drain ord a = (b, a')"
  shows "key_tally k i b = acc_tally k i a" and "flows a' = []"
  using assms acc_tally_snd [of "flows a" k i]
  by (auto simp: Accumulator_Drain_def acc_tally_def acc_inv_def key_tally_order split: if_splits)

section \<open>Invariant\<close>

definition in_flight :: "agent_state \<Rightarrow> flow_state list" where
  "in_flight s = concat (flowBatches s) @ sending s @ delivered s @ dropped s"

definition agent_inv :: "agent_config \<Rightarrow> agent_state \<Rightarrow> bool" where
  "agent_inv cfg s \<longleftrightarrow>
     acc_inv (pendingFlows s)
     \<and> length (flowBatches s) \<le> flowBatches_cap
     \<and> (\<forall>b\<in>set (flowBatches s). b \<noteq> [])
     \<and> (\<forall>e\<in>set (admitted s). admits (ac_controlPlane cfg) (ac_flowFilter cfg) (ac_ignorePorts cfg) e)
     \<and> (\<forall>k i. acc_tally k i (pendingFlows s) + key_tally k i (in_flight s)
              = (\<Sum>e\<leftarrow>events_of k (admitted s). flow_contrib i e))"

lemma agent_inv_init: "agent_inv cfg agent_init"
  by (simp add: agent_inv_def agent_init_def in_flight_def events_of_def)

lemma agent_inv_on_event: "agent_inv cfg s \<Longrightarrow> agent_inv cfg (on_event cfg e s)"
  by (auto simp: agent_inv_def on_event_def in_flight_def events_of_def admits_def acc_inv_Add
      acc_tally_Add algebra_simps)

lemma agent_inv_on_tick:
  assumes "agent_inv cfg s" and "map_order ord"
  shows "agent_inv cfg (on_tick ord s)"
proof -
  obtain b a where d: "Accumulator_Drain ord (pendingFlows s) = (b, a)" by fastforce
  have inv: "acc_inv (pendingFlows s)" using assms(1) by (simp add: agent_inv_def)
  note drain = acc_tally_Drain [OF inv assms(2) d]
  have a: "acc_inv a" "acc_tally k i a = 0" for k i
    using acc_inv_Drain [OF inv, of ord] d drain(2) by (auto simp: acc_tally_def)
  have b: "acc_tally k i (pendingFlows s) = key_tally k i b" for k i
    using drain(1) by simp
  show ?thesis
    using assms(1) d a b
    by (auto simp: agent_inv_def on_tick_def in_flight_def acc_inv_AddAll acc_tally_AddAll algebra_simps)
qed

lemma agent_inv_step:
  assumes "agent_inv cfg s" and "agent_step cfg s s'"
  shows "agent_inv cfg s'"
  using assms(2)
proof cases
  case (Event e)
  then show ?thesis using assms(1) agent_inv_on_event by blast
next
  case (Tick ord)
  then show ?thesis using assms(1) agent_inv_on_tick by blast
qed (use assms(1) in \<open>auto simp: agent_inv_def in_flight_def algebra_simps\<close>)

lemma agent_inv_reachable: "agent_reachable cfg s \<Longrightarrow> agent_inv cfg s"
  by (induction rule: agent_reachable.induct) (auto intro: agent_inv_init agent_inv_step)

section \<open>Properties of the loop\<close>

text \<open>
  C1. The agent loses no traffic between collector and sender. In every reachable state, for
  every flow key and every counter (bytes, packets, connections, requests, errors,
  retransmissions, HTTP classes), what is pending in the store, queued, being sent, delivered
  and given up for that key adds up (modulo \<open>2 ^ 64\<close>) to what the admitted events of that
  key contributed, however ticks, full queues, put-back batches and sends interleave.
\<close>

theorem agent_conserves_traffic:
  assumes "agent_reachable cfg s"
  shows "acc_tally k i (pendingFlows s) + key_tally k i (concat (flowBatches s))
      + key_tally k i (sending s) + key_tally k i (delivered s) + key_tally k i (dropped s)
    = (\<Sum>e\<leftarrow>events_of k (admitted s). flow_contrib i e)"
  using agent_inv_reachable [OF assms] by (auto simp: agent_inv_def in_flight_def algebra_simps)

text \<open>
  C10. The store is well formed, the backlog is bounded and only admitted traffic is kept. In
  every reachable state each flow is stored once under its own key, at most 32 batches wait
  for the sender and none of them is empty, and every event that was stored passed the
  control-plane, port and CIDR filters.
\<close>

theorem agent_state_invariant:
  assumes "agent_reachable cfg s"
  shows "acc_inv (pendingFlows s) \<and> length (flowBatches s) \<le> 32 \<and> [] \<notin> set (flowBatches s)
    \<and> list_all (admits (ac_controlPlane cfg) (ac_flowFilter cfg) (ac_ignorePorts cfg)) (admitted s)"
  using agent_inv_reachable [OF assms]
  by (auto simp: agent_inv_def flowBatches_cap_def list_all_iff)

text \<open>The sender alone, while every post succeeds.\<close>

inductive sender_run :: "agent_state \<Rightarrow> agent_state \<Rightarrow> bool" where
  Idle: "sender_run s s"
| Take: "sending s = [] \<Longrightarrow> flowBatches s = b # bs
    \<Longrightarrow> sender_run (s\<lparr>sending := b, flowBatches := bs\<rparr>) s' \<Longrightarrow> sender_run s s'"
| Sent: "sending s = f # fs
    \<Longrightarrow> sender_run (s\<lparr>sending := fs, delivered := delivered s @ [f]\<rparr>) s' \<Longrightarrow> sender_run s s'"

lemma sender_run_reachable: "sender_run s s' \<Longrightarrow> agent_reachable cfg s \<Longrightarrow> agent_reachable cfg s'"
proof (induction rule: sender_run.induct)
  case (Take s b bs s')
  from Take.IH [OF agent_reachable.Step [OF Take.prems SenderTake [OF Take.hyps(1,2)]]] show ?case .
next
  case (Sent s f fs s')
  from Sent.IH [OF agent_reachable.Step [OF Sent.prems SendOK [OF Sent.hyps(1)]]] show ?case .
qed

lemma sender_run_drains:
  "sender_run s (s\<lparr>sending := [], flowBatches := [],
     delivered := delivered s @ sending s @ concat (flowBatches s)\<rparr>)"
proof (induction "length (flowBatches s) + length (sending s) + length (concat (flowBatches s))"
    arbitrary: s rule: less_induct)
  case less
  show ?case
  proof (cases "sending s")
    case (Cons f fs)
    let ?t = "s\<lparr>sending := fs, delivered := delivered s @ [f]\<rparr>"
    from less [of ?t] Cons show ?thesis by (intro sender_run.Sent [OF Cons]) simp
  next
    case Nil
    show ?thesis
    proof (cases "flowBatches s")
      case (Cons b bs)
      let ?t = "s\<lparr>sending := b, flowBatches := bs\<rparr>"
      from less [of ?t] Cons Nil show ?thesis by (intro sender_run.Take [OF Nil Cons]) simp
    next
      case Nil': Nil
      have "s\<lparr>sending := [], flowBatches := [],
          delivered := delivered s @ sending s @ concat (flowBatches s)\<rparr> = s"
        using Nil Nil' by simp
      then show ?thesis by (simp add: sender_run.Idle)
    qed
  qed
qed

text \<open>
  C4. A reachable backend receives everything. From any reachable state in which nothing has
  been given up, after one tick that finds room in the backlog the sender, as long as its
  posts succeed, reaches a state with an empty store, queue and hand: then the flows it
  delivered carry, key by key and counter by counter, exactly what all admitted events
  contributed.
\<close>

theorem agent_delivers_everything:
  assumes "agent_reachable cfg s" and "main_running s" and "map_order ord"
    and "length (flowBatches s) < 32" and "dropped s = []"
  shows "\<exists>s'. sender_run (on_tick ord s) s' \<and> agent_reachable cfg s'
    \<and> flows (pendingFlows s') = [] \<and> flowBatches s' = [] \<and> sending s' = [] \<and> admitted s' = admitted s
    \<and> (\<forall>k i. key_tally k i (delivered s') = (\<Sum>e\<leftarrow>events_of k (admitted s). flow_contrib i e))"
proof -
  let ?t = "on_tick ord s"
  let ?s' = "?t\<lparr>sending := [], flowBatches := [],
     delivered := delivered ?t @ sending ?t @ concat (flowBatches ?t)\<rparr>"
  have t: "agent_reachable cfg ?t"
    using assms(1) agent_step.Tick [OF assms(2,3)] by (rule agent_reachable.Step)
  have run: "sender_run ?t ?s'" by (rule sender_run_drains)
  then have reach: "agent_reachable cfg ?s'" using t by (rule sender_run_reachable)
  obtain b a where d: "Accumulator_Drain ord (pendingFlows s) = (b, a)" by fastforce
  have "acc_inv (pendingFlows s)" using agent_inv_reachable [OF assms(1)] by (simp add: agent_inv_def)
  from acc_tally_Drain(2) [OF this assms(3) d] have "flows a = []" .
  then have t': "flows (pendingFlows ?t) = []" "dropped ?t = []" "admitted ?t = admitted s"
    using assms(4,5) d by (auto simp: on_tick_def flowBatches_cap_def split: if_splits)
  have "\<forall>k i. key_tally k i (delivered ?s') = (\<Sum>e\<leftarrow>events_of k (admitted s). flow_contrib i e)"
    using agent_inv_reachable [OF reach] t' by (auto simp: agent_inv_def in_flight_def acc_tally_def)
  with run reach t' show ?thesis by (intro exI [of _ ?s']) auto
qed

section \<open>Witnesses\<close>

definition demo_config :: agent_config where
  "demo_config = \<lparr>ac_controlPlane = \<lparr>addresses = []\<rparr>, ac_flowFilter = \<lparr>allow = [], deny = []\<rparr>,
     ac_ignorePorts = []\<rparr>"

definition demo_event :: flow_metric where
  "demo_event = flow_metric_zero\<lparr>fm_SrcIP := ''10.0.0.1'', fm_DstIP := ''10.0.0.2'', fm_PacketCount := 3\<rparr>"

definition demo_state :: agent_state where
  "demo_state = on_event demo_config demo_event agent_init"

lemma demo_admitted: "demo_state = agent_init\<lparr>
   pendingFlows := Accumulator_Add NewAccumulator demo_event, admitted := [demo_event]\<rparr>"
proof -
  have "ParseIP ''10.0.0.2'' = Some (replicate 10 0 @ [0xFF, 0xFF, 10, 0, 0, 2])"
    "\<not> IP_IsUnspecified (replicate 10 0 @ [0xFF, 0xFF, 10, 0, 0, 2])"
    "\<not> IP_IsLoopback (replicate 10 0 @ [0xFF, 0xFF, 10, 0, 0, 2])"
    "ParseAddr ''10.0.0.2'' = Some (Addr4 [10, 0, 0, 2])" "ParseAddr ''10.0.0.1'' = Some (Addr4 [10, 0, 0, 1])"
    by code_simp+
  then show ?thesis
    by (simp add: demo_state_def on_event_def demo_event_def demo_config_def ignoreFlow_def
        endpoint_matches_def flowFilter_allows_def flowFilter_matches_def agent_init_def Let_def)
qed

lemma demo_reachable: "agent_reachable demo_config demo_state"
  unfolding demo_state_def
  by (rule agent_reachable.Step [OF agent_reachable.Init agent_step.Event])
    (simp_all add: main_running_def agent_init_def)

theorem agent_conserves_traffic_witness:
  "acc_tally (KeyFromMetric demo_event) FPackets (pendingFlows demo_state) = 3"
  using agent_conserves_traffic [OF demo_reachable, of "KeyFromMetric demo_event" FPackets]
  by (simp add: demo_admitted agent_init_def events_of_def demo_event_def nonNegative_def to_u64_def)

theorem agent_state_invariant_witness:
  "acc_inv (pendingFlows demo_state) \<and> admits (ac_controlPlane demo_config)
     (ac_flowFilter demo_config) (ac_ignorePorts demo_config) demo_event"
  using agent_state_invariant [OF demo_reachable] by (simp add: demo_admitted)

theorem agent_delivers_everything_witness:
  "\<exists>s' :: agent_state. flows (pendingFlows s') = [] \<and> key_tally (KeyFromMetric demo_event) FPackets (delivered s') = 3"
proof -
  have "main_running demo_state" "length (flowBatches demo_state) < 32" "dropped demo_state = []"
    by (simp_all add: demo_admitted main_running_def agent_init_def)
  from agent_delivers_everything [OF demo_reachable this(1) map_order_id this(2,3)]
  obtain s' :: agent_state where "flows (pendingFlows s') = []"
    and "\<forall>k i. key_tally k i (delivered s') = (\<Sum>e\<leftarrow>events_of k (admitted demo_state). flow_contrib i e)"
    by blast
  moreover have "(\<Sum>e\<leftarrow>events_of (KeyFromMetric demo_event) (admitted demo_state). flow_contrib FPackets e) = 3"
    by (simp add: demo_admitted events_of_def demo_event_def nonNegative_def to_u64_def)
  ultimately show ?thesis by metis
qed

end
