(* ===== verification/Packet_Parse.thy ===== *)
theory Packet_Parse
  imports Exporter Netip
begin

unbundle bit_operations_syntax

text \<open>
  The agent's packet and sample decoders: the fixed 82-byte eBPF sample and its conversion to
  a flow event (\<open>features/traffic/packet/ebpf_collector.go\<close>), the ICMP packet-socket parser
  (\<open>features/protocols/network/icmp\<close>), the IPv4, IPv6 and UDP header parsers and the small
  TCP decoders, all under \<open>src/agent/internal\<close>. The properties are the round trip of the
  sample layout, and which packets and frames the ICMP decoder and collector accept, with the
  events they make of them, given by the layout of the bytes.
\<close>

section \<open>Fixed-width fields\<close>

text \<open>Slices are only taken where the source has checked the length.\<close>

definition go_slice :: "nat \<Rightarrow> nat \<Rightarrow> 'a list \<Rightarrow> 'a list" where
  "go_slice from to s = take (to - from) (drop from s)"

fun le_word :: "u8 list \<Rightarrow> 'w::len word" where
  "le_word [] = 0"
| "le_word (b # bs) = ucast b OR push_bit 8 (le_word bs)"

definition be16 :: "u8 list \<Rightarrow> u16" where
  "be16 bs = le_word (rev bs)"

fun le_bytes :: "nat \<Rightarrow> 'w::len word \<Rightarrow> u8 list" where
  "le_bytes 0 w = []"
| "le_bytes (Suc n) w = ucast w # le_bytes n (drop_bit 8 w)"

section \<open>The eBPF sample\<close>

record raw_flow_event =
  rw_TimestampNS :: u64
  rw_Bytes :: u64
  rw_SrcAddr :: "u8 list"
  rw_DstAddr :: "u8 list"
  rw_Connections :: u32
  rw_SrcPort :: u16
  rw_DstPort :: u16
  rw_Family :: u16
  rw_Protocol :: u8
  rw_Direction :: u8
  rw_Packets :: u32
  rw_ErrorCount :: u32
  rw_Retransmits :: u32
  rw_RTTUS :: u32
  rw_AppDelayUS :: u32
  rw_HTTPStatus :: u16

text \<open>\<open>binary.Size\<close> of the struct: the sum of the widths of its fields, without padding.\<close>

definition raw_size :: nat where
  "raw_size = 8 + 8 + 16 + 16 + 4 + 2 + 2 + 2 + 1 + 1 + 4 + 4 + 4 + 4 + 4 + 2"

datatype decode_error = UnexpectedSize nat nat

text \<open>\<open>binary.Read\<close> fills the fields in declaration order, little endian.\<close>

definition decodeRawFlowEvent :: "u8 list \<Rightarrow> decode_error + raw_flow_event" where
  "decodeRawFlowEvent sample =
     (if length sample \<noteq> raw_size then Inl (UnexpectedSize (length sample) raw_size)
      else Inr \<lparr>
        rw_TimestampNS = le_word (go_slice 0 8 sample),
        rw_Bytes = le_word (go_slice 8 16 sample),
        rw_SrcAddr = go_slice 16 32 sample,
        rw_DstAddr = go_slice 32 48 sample,
        rw_Connections = le_word (go_slice 48 52 sample),
        rw_SrcPort = le_word (go_slice 52 54 sample),
        rw_DstPort = le_word (go_slice 54 56 sample),
        rw_Family = le_word (go_slice 56 58 sample),
        rw_Protocol = le_word (go_slice 58 59 sample),
        rw_Direction = le_word (go_slice 59 60 sample),
        rw_Packets = le_word (go_slice 60 64 sample),
        rw_ErrorCount = le_word (go_slice 64 68 sample),
        rw_Retransmits = le_word (go_slice 68 72 sample),
        rw_RTTUS = le_word (go_slice 72 76 sample),
        rw_AppDelayUS = le_word (go_slice 76 80 sample),
        rw_HTTPStatus = le_word (go_slice 80 82 sample)\<rparr>)"

definition DecodeRawEvent :: "u8 list \<Rightarrow> decode_error + raw_flow_event" where
  "DecodeRawEvent sample = decodeRawFlowEvent sample"

definition rtt_Decode :: "(u64 \<Rightarrow> 'f) \<Rightarrow> u8 list \<Rightarrow> decode_error + 'f" where
  "rtt_Decode frombits sample =
     (if length sample \<noteq> 8 then Inl (UnexpectedSize (length sample) 8)
      else Inr (frombits (le_word sample)))"

definition retrans_Decode :: "u8 list \<Rightarrow> decode_error + u64" where
  "retrans_Decode sample =
     (if length sample \<noteq> 8 then Inl (UnexpectedSize (length sample) 8) else Inr (le_word sample))"

section \<open>From sample to event\<close>

record ebpf_collector =
  ec_registration :: registration
  ec_ifaceName :: string

definition socketIP :: "u8 list \<Rightarrow> u16 \<Rightarrow> string" where
  "socketIP addr family = (if family = 10 then IP_String addr else IP_String (go_slice 0 4 addr))"

fun first_ipv6 :: "interface list \<Rightarrow> string" where
  "first_ipv6 [] = []"
| "first_ipv6 (i # is) =
     (case ParseIP (if_IPAddress i) of
        Some ip \<Rightarrow> if To4 ip = None \<and> \<not> IP_IsUnspecified ip then IP_String ip else first_ipv6 is
      | None \<Rightarrow> first_ipv6 is)"

definition fallbackSource :: "ebpf_collector \<Rightarrow> u16 \<Rightarrow> string" where
  "fallbackSource c family =
     (if family = 10 then first_ipv6 (rg_Interfaces (ec_registration c))
      else case rg_PrivateIPs (ec_registration c) of [] \<Rightarrow> [] | ip # _ \<Rightarrow> ip)"

definition rawEventSource :: "raw_flow_event \<Rightarrow> string" where
  "rawEventSource raw =
     (if rw_Bytes raw = 0 \<and> rw_Packets raw = 0 \<and> rw_Connections raw = 0
         \<and> (rw_Retransmits raw > 0 \<or> rw_RTTUS raw > 0)
      then ''tcp_metric_ebpf'' else ''tc_ebpf'')"

definition raw_protocol :: "u8 \<Rightarrow> string" where
  "raw_protocol p = (if p = 1 \<or> p = 58 then ProtocolICMP else if p = 17 then ProtocolUDP else ProtocolTCP)"

text \<open>\<open>now\<close> is the clock reading of the call.\<close>

definition ebpf_convert :: "gotime \<Rightarrow> ebpf_collector \<Rightarrow> raw_flow_event \<Rightarrow> flow_metric" where
  "ebpf_convert now c raw =
     (let sourceIP = socketIP (rw_SrcAddr raw) (rw_Family raw);
          destinationIP = socketIP (rw_DstAddr raw) (rw_Family raw);
          unusable = (case ParseIP sourceIP of None \<Rightarrow> True | Some p \<Rightarrow> IP_IsUnspecified p);
          fallback = fallbackSource c (rw_Family raw);
          sourceIP' = (if unusable \<and> fallback \<noteq> [] then fallback else sourceIP);
          protocol = raw_protocol (rw_Protocol raw);
          (srcPort, dstPort) = NormalizePorts protocol (uint (rw_SrcPort raw)) (uint (rw_DstPort raw))
      in \<lparr>fm_AgentID = rg_AgentID (ec_registration c), fm_SrcIP = sourceIP', fm_DstIP = destinationIP,
          fm_SrcPort = srcPort, fm_DstPort = dstPort, fm_Protocol = protocol,
          fm_Direction = FromKernel (rw_Direction raw),
          fm_Interface =
            (if ec_ifaceName c \<noteq> [] then ec_ifaceName c
             else case rg_Interfaces (ec_registration c) of [] \<Rightarrow> [] | i # _ \<Rightarrow> if_Name i),
          fm_Source = rawEventSource raw,
          fm_ByteCount = u64_to_i64 (rw_Bytes raw), fm_PacketCount = uint (rw_Packets raw),
          fm_ConnectionCount = uint (rw_Connections raw), fm_RequestCount = 0,
          fm_ErrorCount = uint (rw_ErrorCount raw),
          fm_RetransmissionCount = uint (rw_Retransmits raw),
          fm_RTTMs = f64_div (f64_of_int (uint (rw_RTTUS raw))) 1000,
          fm_AppDelayMs = f64_div (f64_of_int (uint (rw_AppDelayUS raw))) 1000,
          fm_HTTPStatus = uint (rw_HTTPStatus raw), fm_FirstSeen = now, fm_LastSeen = now\<rparr>)"

fun ignored_loop :: "int list \<Rightarrow> u32 list \<Rightarrow> u32 list" where
  "ignored_loop [] keys = keys"
| "ignored_loop (port # ports) keys =
     (if port \<le> 0 \<or> port > 65535 then ignored_loop ports keys
      else let key = to_u32 port in
           if key \<in> set keys then ignored_loop ports keys
           else ignored_loop ports (keys @ [key]))"

text \<open>\<open>seen\<close> always holds exactly the keys collected so far.\<close>

definition ignoredPortKeys :: "int list \<Rightarrow> u32 list" where
  "ignoredPortKeys ports = ignored_loop ports []"

section \<open>Packet headers\<close>

record ipv4_header =
  h4_Source :: string
  h4_Destination :: string
  h4_Protocol :: u8
  h4_HeaderBytes :: nat

record ipv6_header =
  h6_Source :: string
  h6_Destination :: string
  h6_NextHeader :: u8
  h6_HeaderBytes :: nat

record udp_header =
  ud_SourcePort :: int
  ud_DestinationPort :: int
  ud_Length :: int

definition ihl_bytes :: "u8 \<Rightarrow> nat" where
  "ihl_bytes b = unat (b AND 0x0F) * 4"

definition ipv4_Parse :: "u8 list \<Rightarrow> ipv4_header option" where
  "ipv4_Parse packet =
     (if length packet < 20 \<or> drop_bit 4 (packet ! 0) \<noteq> 4 then None
      else let headerLen = ihl_bytes (packet ! 0) in
        if headerLen < 20 \<or> length packet < headerLen then None
        else Some \<lparr>h4_Source = IP_String (go_slice 12 16 packet),
                   h4_Destination = IP_String (go_slice 16 20 packet),
                   h4_Protocol = packet ! 9, h4_HeaderBytes = headerLen\<rparr>)"

definition ipv6_Parse :: "u8 list \<Rightarrow> ipv6_header option" where
  "ipv6_Parse packet =
     (if length packet < 40 \<or> drop_bit 4 (packet ! 0) \<noteq> 6 then None
      else Some \<lparr>h6_Source = IP_String (go_slice 8 24 packet),
                 h6_Destination = IP_String (go_slice 24 40 packet),
                 h6_NextHeader = packet ! 6, h6_HeaderBytes = 40\<rparr>)"

definition udp_Parse :: "u8 list \<Rightarrow> udp_header option" where
  "udp_Parse packet =
     (if length packet < 8 then None
      else Some \<lparr>ud_SourcePort = uint (be16 (go_slice 0 2 packet)),
                 ud_DestinationPort = uint (be16 (go_slice 2 4 packet)),
                 ud_Length = uint (be16 (go_slice 4 6 packet))\<rparr>)"

section \<open>The ICMP collector\<close>

definition parseIPv4ICMP :: "u8 list \<Rightarrow> string \<times> string" where
  "parseIPv4ICMP packet =
     (if length packet < 20 then ([], [])
      else let versionIHL = packet ! 0 in
        if drop_bit 4 versionIHL \<noteq> 4 then ([], [])
        else let headerLen = ihl_bytes versionIHL in
          if headerLen < 20 \<or> length packet < headerLen + 1 then ([], [])
          else if packet ! 9 \<noteq> 1 then ([], [])
          else (IP_String (go_slice 12 16 packet), IP_String (go_slice 16 20 packet)))"

definition parseIPv6ICMP :: "u8 list \<Rightarrow> string \<times> string" where
  "parseIPv6ICMP packet =
     (if length packet < 40 then ([], [])
      else if drop_bit 4 (packet ! 0) \<noteq> 6 \<or> packet ! 6 \<noteq> 58 then ([], [])
      else (IP_String (go_slice 8 24 packet), IP_String (go_slice 24 40 packet)))"

record icmp_event =
  ie_SourceIP :: string
  ie_DestinationIP :: string
  ie_Bytes :: i64
  ie_Timestamp :: gotime

record icmp_model =
  im_Requests :: u64
  im_Replies :: u64
  im_Bytes :: u64

definition icmp_Apply :: "icmp_model \<Rightarrow> icmp_event \<Rightarrow> icmp_model" where
  "icmp_Apply m e =
     (let m1 = m\<lparr>im_Requests := im_Requests m + 1\<rparr> in
      if ie_Bytes e > 0 then m1\<lparr>im_Bytes := im_Bytes m1 + to_u64 (ie_Bytes e)\<rparr> else m1)"

text \<open>The error "packet is not ICMP" is \<open>None\<close>; the event's timestamp stays zero.\<close>

definition DecodePacket :: "u8 list \<Rightarrow> icmp_event option" where
  "DecodePacket packet =
     (case parseIPv4ICMP packet of (s4, d4) \<Rightarrow>
        if s4 \<noteq> [] \<and> d4 \<noteq> []
        then Some \<lparr>ie_SourceIP = s4, ie_DestinationIP = d4, ie_Bytes = int (length packet), ie_Timestamp = 0\<rparr>
        else case parseIPv6ICMP packet of (s6, d6) \<Rightarrow>
          if s6 \<noteq> [] \<and> d6 \<noteq> []
          then Some \<lparr>ie_SourceIP = s6, ie_DestinationIP = d6, ie_Bytes = int (length packet), ie_Timestamp = 0\<rparr>
          else None)"

text \<open>
  \<open>Collector.parse\<close>. \<open>pkttype\<close> is the packet type of a link-layer socket address, \<open>None\<close> for
  another kind of address.
\<close>

definition icmp_parse ::
    "gotime \<Rightarrow> registration \<Rightarrow> string \<Rightarrow> u8 list \<Rightarrow> u8 option \<Rightarrow> flow_metric option" where
  "icmp_parse now reg ifaceName packet pkttype =
     (if length packet < 14 then None
      else
        let flowDirection = (if pkttype = Some 4 then Egress else Ingress);
            ethProtocol = be16 (go_slice 12 14 packet);
            addrs = (if ethProtocol = 0x0800 then Some (parseIPv4ICMP (drop 14 packet))
                     else if ethProtocol = 0x86dd then Some (parseIPv6ICMP (drop 14 packet))
                     else None)
        in case addrs of
             None \<Rightarrow> None
           | Some (sourceIP, destinationIP) \<Rightarrow>
               if sourceIP = [] \<or> destinationIP = [] then None
               else
                 let (s, d) = (if flowDirection = Ingress then (destinationIP, sourceIP)
                               else (sourceIP, destinationIP))
                 in Some (flow_metric_zero\<lparr>fm_AgentID := rg_AgentID reg, fm_SrcIP := s, fm_DstIP := d,
                      fm_Protocol := ProtocolICMP, fm_Direction := flowDirection,
                      fm_ByteCount := int (length packet), fm_PacketCount := 1, fm_RequestCount := 1,
                      fm_Source := ''packet_socket_icmp'', fm_FirstSeen := now, fm_LastSeen := now,
                      fm_Interface := ifaceName\<rparr>))"

fun firstInterfaceName :: "interface list \<Rightarrow> string" where
  "firstInterfaceName [] = []"
| "firstInterfaceName (i # is) = (if if_Name i \<noteq> [] then if_Name i else firstInterfaceName is)"

definition htons :: "u16 \<Rightarrow> u16" where
  "htons x = push_bit 8 x OR drop_bit 8 x"

section \<open>Round trip of the sample layout\<close>

lemma length_le_bytes [simp]: "length (le_bytes n w) = n"
  by (induction n arbitrary: w) auto

lemma le_word_bytes: "le_word (le_bytes n w) = take_bit (8 * n) w"
proof (induction n arbitrary: w)
  case (Suc n)
  show ?case
    by (rule bit_word_eqI)
      (auto simp: Suc bit_or_iff bit_push_bit_iff bit_take_bit_iff bit_drop_bit_eq bit_ucast_iff)
qed simp

lemma le_word_bytes_full [simp]:
  "LENGTH('w) \<le> 8 * n \<Longrightarrow> le_word (le_bytes n w) = (w :: 'w::len word)"
  by (simp add: le_word_bytes take_bit_word_eq_self)

lemma le_word_bound: "take_bit (8 * length bs) (le_word bs) = le_word bs"
proof (induction bs)
  case (Cons b bs)
  have h: "n < 8 * length bs" if "bit (le_word bs :: 'a word) n" for n
    using that by (subst (asm) Cons.IH [symmetric]) (simp only: bit_take_bit_iff)
  show ?case
  proof (rule bit_word_eqI)
    fix n assume "n < LENGTH('a)"
    show "bit (take_bit (8 * length (b # bs)) (le_word (b # bs) :: 'a word)) n
        = bit (le_word (b # bs) :: 'a word) n"
      using h [of "n - 8"] bit_imp_le_length [of b n]
      by (auto simp: bit_or_iff bit_push_bit_iff bit_take_bit_iff bit_ucast_iff)
  qed
qed simp

lemma le_bytes_word:
  "8 * length bs \<le> LENGTH('w) \<Longrightarrow> le_bytes (length bs) (le_word bs :: 'w::len word) = bs"
proof (induction bs)
  case (Cons b bs)
  let ?w = "le_word bs :: 'w word"
  have "ucast (ucast b OR push_bit 8 ?w) = b"
    using Cons.prems
    by (intro bit_word_eqI) (auto simp: bit_or_iff bit_push_bit_iff bit_ucast_iff)
  moreover have "drop_bit 8 (ucast b OR push_bit 8 ?w) = ?w"
  proof (rule bit_word_eqI)
    fix n assume n: "n < LENGTH('w)"
    have "bit ?w n \<Longrightarrow> n < 8 * length bs"
      by (subst (asm) le_word_bound [symmetric]) (simp only: bit_take_bit_iff)
    then show "bit (drop_bit 8 (ucast b OR push_bit 8 ?w)) n = bit ?w n"
      using Cons.prems n
      by (auto simp: bit_drop_bit_eq bit_or_iff bit_push_bit_iff bit_ucast_iff dest: bit_imp_le_length)
  qed
  ultimately show ?case using Cons by simp
qed simp

text \<open>
  The layout the kernel side writes: the packed \<open>struct flow_event\<close> of
  \<open>src/agent/internal/shared/bpf/flow_event.h\<close>, on a little-endian machine.
\<close>

definition flow_event_bytes :: "raw_flow_event \<Rightarrow> u8 list" where
  "flow_event_bytes r =
     le_bytes 8 (rw_TimestampNS r) @ le_bytes 8 (rw_Bytes r) @ rw_SrcAddr r @ rw_DstAddr r
     @ le_bytes 4 (rw_Connections r) @ le_bytes 2 (rw_SrcPort r) @ le_bytes 2 (rw_DstPort r)
     @ le_bytes 2 (rw_Family r) @ le_bytes 1 (rw_Protocol r) @ le_bytes 1 (rw_Direction r)
     @ le_bytes 4 (rw_Packets r) @ le_bytes 4 (rw_ErrorCount r) @ le_bytes 4 (rw_Retransmits r)
     @ le_bytes 4 (rw_RTTUS r) @ le_bytes 4 (rw_AppDelayUS r) @ le_bytes 2 (rw_HTTPStatus r)"

definition raw_wf :: "raw_flow_event \<Rightarrow> bool" where
  "raw_wf r \<longleftrightarrow> length (rw_SrcAddr r) = 16 \<and> length (rw_DstAddr r) = 16"

lemma slice_glue: "a \<le> b \<Longrightarrow> b \<le> c \<Longrightarrow> go_slice a b s @ go_slice b c s = go_slice a c s"
proof -
  assume "a \<le> b" "b \<le> c"
  then have "go_slice b c s = take (c - b) (drop (b - a) (drop a s))" "c - a = (b - a) + (c - b)"
    by (simp_all add: go_slice_def)
  then show ?thesis by (simp only: go_slice_def take_add)
qed

lemma slice_glue_more: "a \<le> b \<Longrightarrow> b \<le> c \<Longrightarrow> go_slice a b s @ go_slice b c s @ r = go_slice a c s @ r"
  using slice_glue [of a b c s] by (metis append.assoc)

lemma le_bytes_slice:
  assumes "a \<le> b" "b \<le> length s" "n = b - a" "8 * n \<le> LENGTH('w)"
  shows "le_bytes n (le_word (go_slice a b s) :: 'w::len word) = go_slice a b s"
  using le_bytes_word [of "go_slice a b s", where 'w = 'w] assms by (simp add: go_slice_def)

lemma one_byte:
  assumes "b = Suc a" "a < length s"
  shows "(le_word (go_slice a b s) :: u8) # r = go_slice a b s @ r"
proof -
  have "go_slice a b s = [s ! a]" using assms by (simp add: go_slice_def take_Suc hd_drop_conv_nth)
  then show ?thesis by simp
qed

lemma decode_encode: "raw_wf r \<Longrightarrow> decodeRawFlowEvent (flow_event_bytes r) = Inr r"
  by (simp add: decodeRawFlowEvent_def flow_event_bytes_def raw_wf_def raw_size_def go_slice_def)

lemma encode_decode:
  assumes "length sample = 82" "decodeRawFlowEvent sample = Inr r"
  shows "flow_event_bytes r = sample"
proof -
  have "flow_event_bytes r = go_slice 0 82 sample"
    using assms by (auto simp: decodeRawFlowEvent_def raw_size_def flow_event_bytes_def le_bytes_slice slice_glue slice_glue_more one_byte)
  then show ?thesis using assms by (simp add: go_slice_def)
qed

text \<open>
  C38. The sample decoder inverts the kernel's layout, both ways. Decoding the bytes of any
  record gives the record back with every field at its full width; a sample decodes exactly
  when it has 82 bytes, and then it is the layout of the record it decodes to; any other
  length is an error that reports both sizes.
\<close>

theorem sample_roundtrip:
  assumes "raw_wf r"
  shows "decodeRawFlowEvent (flow_event_bytes r) = Inr r
    \<and> (case decodeRawFlowEvent sample of
         Inr q \<Rightarrow> length sample = 82 \<and> raw_wf q \<and> flow_event_bytes q = sample
       | Inl err \<Rightarrow> length sample \<noteq> 82 \<and> err = UnexpectedSize (length sample) 82)"
proof (cases "length sample = 82")
  case True
  then obtain q where q: "decodeRawFlowEvent sample = Inr q" "raw_wf q"
    by (simp add: decodeRawFlowEvent_def raw_size_def raw_wf_def go_slice_def)
  with True show ?thesis using encode_decode decode_encode [OF assms] by simp
next
  case False
  then show ?thesis using decode_encode [OF assms] by (simp add: decodeRawFlowEvent_def raw_size_def)
qed

theorem sample_roundtrip_witness:
  "decodeRawFlowEvent (flow_event_bytes \<lparr>rw_TimestampNS = 1, rw_Bytes = 2 ^ 63, rw_SrcAddr = replicate 16 10,
     rw_DstAddr = replicate 16 11, rw_Connections = 1, rw_SrcPort = 443, rw_DstPort = 50000, rw_Family = 2,
     rw_Protocol = 6, rw_Direction = 1, rw_Packets = 3, rw_ErrorCount = 0, rw_Retransmits = 0,
     rw_RTTUS = 900, rw_AppDelayUS = 0, rw_HTTPStatus = 200\<rparr>) =
   Inr \<lparr>rw_TimestampNS = 1, rw_Bytes = 2 ^ 63, rw_SrcAddr = replicate 16 10,
     rw_DstAddr = replicate 16 11, rw_Connections = 1, rw_SrcPort = 443, rw_DstPort = 50000, rw_Family = 2,
     rw_Protocol = 6, rw_Direction = 1, rw_Packets = 3, rw_ErrorCount = 0, rw_Retransmits = 0,
     rw_RTTUS = 900, rw_AppDelayUS = 0, rw_HTTPStatus = 200\<rparr>"
  by (rule sample_roundtrip [THEN conjunct1]) (simp add: raw_wf_def)

section \<open>Addresses\<close>

lemma IP_String_nonempty: "ip_wf ip \<Longrightarrow> IP_String ip \<noteq> []"
proof
  assume "ip_wf ip" "IP_String ip = []"
  with ParseIP_String [of ip] show False by (simp add: ParseIP_def ParseAddr_def)
qed

definition raw_addr :: "u8 list \<Rightarrow> u16 \<Rightarrow> u8 list" where
  "raw_addr bytes family = (if family = 10 then bytes else take 4 bytes)"

lemma ParseIP_socketIP:
  assumes "length b = 16"
  shows "ParseIP (socketIP b f) = Some (To16 (raw_addr b f))"
  using assms ParseIP_String [of "raw_addr b f"]
  by (cases "f = 10") (simp_all add: socketIP_def raw_addr_def go_slice_def ip_wf_def)

lemma convert_fields:
  "fm_DstIP (ebpf_convert now c raw) = socketIP (rw_DstAddr raw) (rw_Family raw)"
  "fm_PacketCount (ebpf_convert now c raw) = uint (rw_Packets raw)"
  "fm_RetransmissionCount (ebpf_convert now c raw) = uint (rw_Retransmits raw)"
  "fm_ConnectionCount (ebpf_convert now c raw) = uint (rw_Connections raw)"
  "fm_ErrorCount (ebpf_convert now c raw) = uint (rw_ErrorCount raw)"
  "fm_RequestCount (ebpf_convert now c raw) = 0"
  "fm_Protocol (ebpf_convert now c raw) = raw_protocol (rw_Protocol raw)"
  "(fm_SrcPort (ebpf_convert now c raw), fm_DstPort (ebpf_convert now c raw)) =
     NormalizePorts (raw_protocol (rw_Protocol raw)) (uint (rw_SrcPort raw)) (uint (rw_DstPort raw))"
  by (simp_all add: ebpf_convert_def Let_def split: prod.splits)

lemma convert_SrcIP:
  assumes "raw_wf raw"
  shows "fm_SrcIP (ebpf_convert now c raw) =
    (if IP_IsUnspecified (To16 (raw_addr (rw_SrcAddr raw) (rw_Family raw)))
        \<and> fallbackSource c (rw_Family raw) \<noteq> []
     then fallbackSource c (rw_Family raw) else socketIP (rw_SrcAddr raw) (rw_Family raw))"
  using ParseIP_socketIP [of "rw_SrcAddr raw" "rw_Family raw"] assms
  by (simp add: ebpf_convert_def Let_def raw_wf_def split: prod.splits)

lemma contrib_of_u32:
  "to_u64 (nonNegative (uint (w :: u32))) = ucast w"
  "u32_to_u64 (to_u32 (nonNegative (uint (w :: u32)))) = ucast w"
  by (simp_all add: nonNegative_def to_u64_def to_u32_def u32_to_u64_def)

text \<open>
  Converted samples keep their addresses and counters. The destination of the event
  parses back to the kernel's address bytes (16 of them for family 10, the first 4
  otherwise), and so does the source unless it is unspecified and a fallback exists; ICMP
  events have no ports and other events the sample's; the counters are the sample's, and the
  request count is left to the reducer.
\<close>

theorem convert_keeps_sample:
  assumes "raw_wf raw" and "e = ebpf_convert now c raw"
  shows "ParseIP (fm_DstIP e) = Some (To16 (raw_addr (rw_DstAddr raw) (rw_Family raw)))
    \<and> (if IP_IsUnspecified (To16 (raw_addr (rw_SrcAddr raw) (rw_Family raw)))
          \<and> fallbackSource c (rw_Family raw) \<noteq> []
       then fm_SrcIP e = fallbackSource c (rw_Family raw)
       else ParseIP (fm_SrcIP e) = Some (To16 (raw_addr (rw_SrcAddr raw) (rw_Family raw))))
    \<and> (fm_SrcPort e, fm_DstPort e) =
        (if rw_Protocol raw \<in> {1, 58} then (0, 0) else (uint (rw_SrcPort raw), uint (rw_DstPort raw)))
    \<and> flow_contrib FPackets e = ucast (rw_Packets raw)
    \<and> flow_contrib FRetrans e = ucast (rw_Retransmits raw)
    \<and> flow_contrib (FConn Opens) e = ucast (rw_Connections raw)
    \<and> flow_contrib (FConn Errors) e = ucast (rw_ErrorCount raw)
    \<and> fm_RequestCount e = 0"
  unfolding assms(2) convert_SrcIP [OF assms(1)] convert_fields
  using assms(1) ParseIP_socketIP [of "rw_SrcAddr raw" "rw_Family raw"]
    ParseIP_socketIP [of "rw_DstAddr raw" "rw_Family raw"]
  by (simp add: raw_wf_def NormalizePorts_def raw_protocol_def go_const conn_event_of_def
      convert_fields contrib_of_u32)

theorem convert_keeps_sample_witness:
  "fm_SrcIP (ebpf_convert 7 \<lparr>ec_registration = \<lparr>rg_AgentID = ''a'', rg_Hostname = [], rg_MachineID = [],
       rg_TenantID = [], rg_PrivateIPs = [''10.0.0.5''], rg_PublicIP = None, rg_MACAddresses = [],
       rg_Interfaces = [], rg_OS = [], rg_Kernel = [], rg_AgentVersion = [], rg_Environment = []\<rparr>,
       ec_ifaceName = ''ens3''\<rparr>
     \<lparr>rw_TimestampNS = 1, rw_Bytes = 9, rw_SrcAddr = replicate 16 0, rw_DstAddr = replicate 16 11,
      rw_Connections = 1, rw_SrcPort = 443, rw_DstPort = 50000, rw_Family = 2, rw_Protocol = 6,
      rw_Direction = 1, rw_Packets = 3, rw_ErrorCount = 0, rw_Retransmits = 0, rw_RTTUS = 900,
      rw_AppDelayUS = 0, rw_HTTPStatus = 200\<rparr>) = ''10.0.0.5''"
proof -
  let ?c = "\<lparr>ec_registration = \<lparr>rg_AgentID = ''a'', rg_Hostname = [], rg_MachineID = [],
       rg_TenantID = [], rg_PrivateIPs = [''10.0.0.5''], rg_PublicIP = None, rg_MACAddresses = [],
       rg_Interfaces = [], rg_OS = [], rg_Kernel = [], rg_AgentVersion = [], rg_Environment = []\<rparr>,
       ec_ifaceName = ''ens3''\<rparr>"
  let ?r = "\<lparr>rw_TimestampNS = 1, rw_Bytes = 9, rw_SrcAddr = replicate 16 0, rw_DstAddr = replicate 16 11,
      rw_Connections = 1, rw_SrcPort = 443, rw_DstPort = 50000, rw_Family = 2, rw_Protocol = 6,
      rw_Direction = 1, rw_Packets = 3, rw_ErrorCount = 0, rw_Retransmits = 0, rw_RTTUS = 900,
      rw_AppDelayUS = 0, rw_HTTPStatus = 200\<rparr> :: raw_flow_event"
  have u: "IP_IsUnspecified (To16 (raw_addr (rw_SrcAddr ?r) (rw_Family ?r)))" by code_simp
  have f: "fallbackSource ?c (rw_Family ?r) = ''10.0.0.5''" by (simp add: fallbackSource_def)
  have "raw_wf ?r" by (simp add: raw_wf_def)
  from convert_keeps_sample [OF this refl, of 7 ?c] u f show ?thesis
    by (simp only: if_True simp_thms list.distinct)
qed

section \<open>ICMP packets\<close>

text \<open>
  The layouts of the two kinds of packets, written as the bytes of their parts: the first byte
  holds the version and, for IPv4, the length of the header in words of four bytes.
\<close>

definition icmp4_packet :: "u8 list \<Rightarrow> net_ip \<Rightarrow> net_ip \<Rightarrow> bool" where
  "icmp4_packet p src dst \<longleftrightarrow>
     (\<exists>n fixed sum options payload.
        p = of_nat (4 * 16 + n) # fixed @ [1] @ sum @ src @ dst @ options @ payload
        \<and> 5 \<le> n \<and> n \<le> 15 \<and> length fixed = 8 \<and> length sum = 2 \<and> length src = 4 \<and> length dst = 4
        \<and> length options = 4 * (n - 5) \<and> payload \<noteq> [])"

definition icmp6_packet :: "u8 list \<Rightarrow> net_ip \<Rightarrow> net_ip \<Rightarrow> bool" where
  "icmp6_packet p src dst \<longleftrightarrow>
     (\<exists>n fixed hops payload.
        p = of_nat (6 * 16 + n) # fixed @ [58] @ [hops] @ src @ dst @ payload
        \<and> n \<le> 15 \<and> length fixed = 5 \<and> length src = 16 \<and> length dst = 16)"

lemma nibbles:
  fixes v :: u8
  shows "unat (v AND 0x0F) = unat v mod 16" "unat (drop_bit 4 v) = unat v div 16"
proof -
  have "v AND 0x0F = take_bit 4 v" by (simp add: take_bit_eq_mask mask_eq_exp_minus_1)
  then show "unat (v AND 0x0F) = unat v mod 16" by (simp only: unsigned_take_bit_eq) (simp add: take_bit_eq_mod)
  show "unat (drop_bit 4 v) = unat v div 16" by (simp only: unat_drop_bit_eq) (simp add: drop_bit_eq_div)
qed

lemma first_byte:
  "drop_bit 4 (v :: u8) = 4 \<longleftrightarrow> (\<exists>n\<le>15. v = of_nat (4 * 16 + n))"
  "drop_bit 4 (v :: u8) = 6 \<longleftrightarrow> (\<exists>n\<le>15. v = of_nat (6 * 16 + n))"
  "n \<le> 15 \<Longrightarrow> ihl_bytes (of_nat (4 * 16 + n)) = 4 * n"
proof -
  have of_nat_unat: "of_nat (unat w) = w" for w :: u8 by simp
  have of: "unat (of_nat m :: u8) = m" if "m < 256" for m
    using that by (simp add: unat_of_nat)
  have nib: "drop_bit 4 v = of_nat k \<longleftrightarrow> (\<exists>n\<le>15. v = of_nat (k * 16 + n))" if "k < 16" for k
  proof
    assume "drop_bit 4 v = of_nat k"
    then have "unat v div 16 = k" using nibbles(2) [of v] of [of k] that by simp
    then have "unat v = k * 16 + unat v mod 16" by presburger
    then have "v = of_nat (k * 16 + unat v mod 16)" by (metis of_nat_unat)
    moreover have "unat v mod 16 \<le> 15" by presburger
    ultimately show "\<exists>n\<le>15. v = of_nat (k * 16 + n)" by blast
  next
    assume "\<exists>n\<le>15. v = of_nat (k * 16 + n)"
    then obtain n where n: "n \<le> 15" "v = of_nat (k * 16 + n)" by blast
    then have "unat v = k * 16 + n" using of [of "k * 16 + n"] that by simp
    then have "unat (drop_bit 4 v) = k" using nibbles(2) [of v] n(1) by simp
    then show "drop_bit 4 v = of_nat k" by (metis of_nat_unat)
  qed
  show "drop_bit 4 v = 4 \<longleftrightarrow> (\<exists>n\<le>15. v = of_nat (4 * 16 + n))" "drop_bit 4 v = 6 \<longleftrightarrow> (\<exists>n\<le>15. v = of_nat (6 * 16 + n))"
    using nib [of 4] nib [of 6] by simp_all
  show "ihl_bytes (of_nat (4 * 16 + n)) = 4 * n" if "n \<le> 15" for n
  proof -
    have "(4 * 16 + n) mod 16 = n" using that by presburger
    then show ?thesis using nibbles(1) [of "of_nat (4 * 16 + n)"] of [of "4 * 16 + n"] that by (simp add: ihl_bytes_def)
  qed
qed

lemma byte_slice: "i < length p \<Longrightarrow> p ! i # r = go_slice i (Suc i) p @ r"
  by (simp add: go_slice_def take_Suc hd_drop_conv_nth)

lemma slice_all: "go_slice 0 k p @ drop k p = p"
  by (simp add: go_slice_def)

text \<open>The same conditions on the bytes at their offsets.\<close>

definition icmp4_ok :: "u8 list \<Rightarrow> bool" where
  "icmp4_ok p \<longleftrightarrow> 20 \<le> length p \<and> drop_bit 4 (p ! 0) = 4 \<and> 20 \<le> ihl_bytes (p ! 0) \<and> ihl_bytes (p ! 0) < length p \<and> p ! 9 = 1"

definition icmp6_ok :: "u8 list \<Rightarrow> bool" where
  "icmp6_ok p \<longleftrightarrow> 40 \<le> length p \<and> drop_bit 4 (p ! 0) = 6 \<and> p ! 6 = 58"

lemma icmp4_packet_iff:
  "icmp4_packet p src dst \<longleftrightarrow> icmp4_ok p \<and> src = go_slice 12 16 p \<and> dst = go_slice 16 20 p" (is "_ \<longleftrightarrow> ?f")
proof
  assume "icmp4_packet p src dst"
  then obtain n fixed sum options payload where
    p: "p = of_nat (4 * 16 + n) # fixed @ [1] @ sum @ src @ dst @ options @ payload"
    and n: "5 \<le> n" "n \<le> 15" and len: "length fixed = 8" "length sum = 2" "length src = 4" "length dst = 4"
      "length options = 4 * (n - 5)" "payload \<noteq> []"
    unfolding icmp4_packet_def by blast
  have "p ! 0 = of_nat (4 * 16 + n)" using p by simp
  moreover have "drop_bit 4 (p ! 0) = 4" using n p by (subst first_byte(1)) auto
  moreover have "p ! 9 = 1" using p len by (simp add: nth_append)
  moreover have "ihl_bytes (p ! 0) = 4 * n" using first_byte(3) n(2) p by simp
  moreover have "4 * n < length p" using p len n by (cases payload) auto
  ultimately show ?f using p len n by (simp add: go_slice_def icmp4_ok_def)
next
  assume f: ?f
  define k where "k = ihl_bytes (p ! 0)"
  obtain n where n: "n \<le> 15" "p ! 0 = of_nat (4 * 16 + n)" using f first_byte(1) unfolding icmp4_ok_def by blast
  then have k: "k = 4 * n" using first_byte(3) by (simp add: k_def)
  have "p = p ! 0 # go_slice 1 9 p @ [p ! 9] @ go_slice 10 12 p @ src @ dst @ go_slice 20 k p @ drop k p"
  proof -
    have "20 \<le> k" "k < length p" "p \<noteq> []" "src = go_slice 12 16 p" "dst = go_slice 16 20 p" using f by (auto simp: k_def icmp4_ok_def)
    then show ?thesis using slice_all [of k p] by (simp add: byte_slice slice_glue slice_glue_more)
  qed
  moreover have "length (go_slice 1 9 p) = 8" "length (go_slice 10 12 p) = 2" "length src = 4" "length dst = 4"
    "length (go_slice 20 k p) = 4 * (n - 5)" "drop k p \<noteq> []"
    using f k by (auto simp: go_slice_def icmp4_ok_def k_def [symmetric] min_def)
  moreover have "5 \<le> n" "p ! 9 = 1" using f k by (simp_all add: icmp4_ok_def k_def [symmetric])
  ultimately show "icmp4_packet p src dst" using n unfolding icmp4_packet_def by metis
qed

lemma icmp6_packet_iff:
  "icmp6_packet p src dst \<longleftrightarrow> icmp6_ok p \<and> src = go_slice 8 24 p \<and> dst = go_slice 24 40 p" (is "_ \<longleftrightarrow> ?f")
proof
  assume "icmp6_packet p src dst"
  then obtain n fixed hops payload where
    p: "p = of_nat (6 * 16 + n) # fixed @ [58] @ [hops] @ src @ dst @ payload"
    and n: "n \<le> 15" and len: "length fixed = 5" "length src = 16" "length dst = 16"
    unfolding icmp6_packet_def by blast
  have "drop_bit 4 (p ! 0) = 6" using n p by (subst first_byte(2)) auto
  moreover have "p ! 6 = 58" using p len by (simp add: nth_append)
  ultimately show ?f using p len by (simp add: go_slice_def icmp6_ok_def)
next
  assume f: ?f
  obtain n where n: "n \<le> 15" "p ! 0 = of_nat (6 * 16 + n)" using f first_byte(2) unfolding icmp6_ok_def by blast
  have "p = p ! 0 # go_slice 1 6 p @ [p ! 6] @ [p ! 7] @ src @ dst @ drop 40 p"
  proof -
    have "40 \<le> length p" "p \<noteq> []" "src = go_slice 8 24 p" "dst = go_slice 24 40 p" using f by (auto simp: icmp6_ok_def)
    then show ?thesis using slice_all [of 40 p] by (simp add: byte_slice slice_glue slice_glue_more)
  qed
  moreover have "p ! 6 = 58" "length (go_slice 1 6 p) = 5" "length src = 16" "length dst = 16"
    using f by (auto simp: go_slice_def icmp6_ok_def)
  ultimately show "icmp6_packet p src dst" using n unfolding icmp6_packet_def by metis
qed

lemma parsed_addresses:
  "parseIPv4ICMP p = (if icmp4_ok p then (IP_String (go_slice 12 16 p), IP_String (go_slice 16 20 p)) else ([], []))"
  "parseIPv6ICMP p = (if icmp6_ok p then (IP_String (go_slice 8 24 p), IP_String (go_slice 24 40 p)) else ([], []))"
  by (auto simp: parseIPv4ICMP_def icmp4_ok_def parseIPv6ICMP_def icmp6_ok_def Let_def)

lemma addresses_nonempty:
  "icmp4_ok p \<Longrightarrow> IP_String (go_slice 12 16 p) \<noteq> []" "icmp4_ok p \<Longrightarrow> IP_String (go_slice 16 20 p) \<noteq> []"
  "icmp6_ok p \<Longrightarrow> IP_String (go_slice 8 24 p) \<noteq> []" "icmp6_ok p \<Longrightarrow> IP_String (go_slice 24 40 p) \<noteq> []"
  by (auto intro!: IP_String_nonempty simp: icmp4_ok_def icmp6_ok_def ip_wf_def go_slice_def)

lemma icmp_versions: "icmp4_ok p \<Longrightarrow> \<not> icmp6_ok p"
  by (simp add: icmp4_ok_def icmp6_ok_def)

text \<open>What \<open>DecodePacket\<close> and the collector make of the addresses of a packet.\<close>

definition icmp_seen :: "nat \<Rightarrow> net_ip \<Rightarrow> net_ip \<Rightarrow> icmp_event" where
  "icmp_seen n src dst =
     \<lparr>ie_SourceIP = IP_String src, ie_DestinationIP = IP_String dst, ie_Bytes = int n, ie_Timestamp = 0\<rparr>"

definition icmp_metric :: "gotime \<Rightarrow> registration \<Rightarrow> string \<Rightarrow> nat \<Rightarrow> bool \<Rightarrow> net_ip \<Rightarrow> net_ip \<Rightarrow> flow_metric" where
  "icmp_metric now reg ifaceName n outgoing src dst =
     flow_metric_zero\<lparr>fm_AgentID := rg_AgentID reg, fm_SrcIP := IP_String (if outgoing then src else dst),
       fm_DstIP := IP_String (if outgoing then dst else src), fm_Protocol := ProtocolICMP,
       fm_Direction := (if outgoing then Egress else Ingress), fm_ByteCount := int n, fm_PacketCount := 1, fm_RequestCount := 1,
       fm_Source := ''packet_socket_icmp'', fm_FirstSeen := now, fm_LastSeen := now, fm_Interface := ifaceName\<rparr>"

lemma decode_packet:
  "DecodePacket p =
     (if icmp4_ok p then Some (icmp_seen (length p) (go_slice 12 16 p) (go_slice 16 20 p))
      else if icmp6_ok p then Some (icmp_seen (length p) (go_slice 8 24 p) (go_slice 24 40 p)) else None)"
  by (simp add: DecodePacket_def parsed_addresses addresses_nonempty icmp_seen_def)

lemma decode_packet_iff:
  "DecodePacket p = Some e \<longleftrightarrow>
     (\<exists>src dst. (icmp4_packet p src dst \<or> icmp6_packet p src dst) \<and> e = icmp_seen (length p) src dst)"
  using icmp_versions [of p] by (auto simp: decode_packet icmp4_packet_iff icmp6_packet_iff)

lemma ethertype:
  assumes "14 \<le> length frame"
  shows "be16 (go_slice 12 14 frame) = 0x0800 \<longleftrightarrow> go_slice 12 14 frame = [8, 0]"
    and "be16 (go_slice 12 14 frame) = 0x86dd \<longleftrightarrow> go_slice 12 14 frame = [0x86, 0xdd]"
proof -
  have "length (go_slice 12 14 frame) = 2" using assms by (simp add: go_slice_def)
  then obtain a b where ab: "go_slice 12 14 frame = [a, b]" by (auto simp: length_Suc_conv numeral_2_eq_2)
  have eq16: "be16 [a, b] = be16 [c, d] \<longleftrightarrow> [a, b] = [c, d]" for c d
  proof
    assume eq: "be16 [a, b] = be16 [c, d]"
    have "length (rev [x, y]) = 2" for x y :: u8 by simp
    then have "rev [x, y] = le_bytes 2 (be16 [x, y])" for x y
      using le_bytes_word [of "rev [x, y]", where 'w = 16] by (simp only: be16_def) simp
    with eq have "rev [a, b] = rev [c, d]" by metis
    then show "[a, b] = [c, d]" by simp
  qed simp
  have "be16 [8, 0] = 0x0800" "be16 [0x86, 0xdd] = 0x86dd" by code_simp+
  with eq16 [where c = 8 and d = 0] eq16 [where c = "0x86" and d = "0xdd"] ab
  show "be16 (go_slice 12 14 frame) = 0x0800 \<longleftrightarrow> go_slice 12 14 frame = [8, 0]"
    "be16 (go_slice 12 14 frame) = 0x86dd \<longleftrightarrow> go_slice 12 14 frame = [0x86, 0xdd]" by simp_all
qed

lemma frame_split:
  "length macs = 12 \<and> length ty = 2 \<and> frame = macs @ ty @ p \<longleftrightarrow>
     14 \<le> length frame \<and> macs = take 12 frame \<and> ty = go_slice 12 14 frame \<and> p = drop 14 frame"
proof
  assume "14 \<le> length frame \<and> macs = take 12 frame \<and> ty = go_slice 12 14 frame \<and> p = drop 14 frame"
  moreover have "go_slice 0 12 frame @ go_slice 12 14 frame @ drop 14 frame = frame"
    using slice_all [of 14 frame] by (simp add: slice_glue_more)
  ultimately show "length macs = 12 \<and> length ty = 2 \<and> frame = macs @ ty @ p" by (auto simp: go_slice_def min_def)
qed (auto simp: go_slice_def)

lemma icmp_parse_iff:
  "icmp_parse now reg ifaceName frame pkttype = Some m \<longleftrightarrow>
     (\<exists>macs ty p src dst. length macs = 12 \<and> frame = macs @ ty @ p
        \<and> (ty = [8, 0] \<and> icmp4_packet p src dst \<or> ty = [0x86, 0xdd] \<and> icmp6_packet p src dst)
        \<and> m = icmp_metric now reg ifaceName (length frame) (pkttype = Some 4) src dst)" (is "_ \<longleftrightarrow> ?r")
proof -
  have r: "?r \<longleftrightarrow> 14 \<le> length frame \<and> (\<exists>src dst.
      (go_slice 12 14 frame = [8, 0] \<and> icmp4_packet (drop 14 frame) src dst
       \<or> go_slice 12 14 frame = [0x86, 0xdd] \<and> icmp6_packet (drop 14 frame) src dst)
      \<and> m = icmp_metric now reg ifaceName (length frame) (pkttype = Some 4) src dst)"
  proof -
    have "?r \<longleftrightarrow> (\<exists>macs ty p src dst. (length macs = 12 \<and> length ty = 2 \<and> frame = macs @ ty @ p)
        \<and> (ty = [8, 0] \<and> icmp4_packet p src dst \<or> ty = [0x86, 0xdd] \<and> icmp6_packet p src dst)
        \<and> m = icmp_metric now reg ifaceName (length frame) (pkttype = Some 4) src dst)"
      by (intro ex_cong1) auto
    then show ?thesis unfolding frame_split by blast
  qed
  have dir: "Egress \<noteq> Ingress" by (simp add: go_const)
  define q where "q = drop 14 frame"
  show ?thesis
  proof (cases "14 \<le> length frame")
    case True
    then have "icmp_parse now reg ifaceName frame pkttype =
      (if go_slice 12 14 frame = [8, 0]
       then if icmp4_ok q then Some (icmp_metric now reg ifaceName (length frame) (pkttype = Some 4) (go_slice 12 16 q) (go_slice 16 20 q)) else None
       else if go_slice 12 14 frame = [0x86, 0xdd]
       then if icmp6_ok q then Some (icmp_metric now reg ifaceName (length frame) (pkttype = Some 4) (go_slice 8 24 q) (go_slice 24 40 q)) else None
       else None)"
      using dir unfolding icmp_parse_def ethertype [OF True] parsed_addresses icmp_metric_def Let_def q_def [symmetric]
      by (cases "pkttype = Some 4") (simp_all add: addresses_nonempty)
    with True show ?thesis unfolding r unfolding icmp4_packet_iff icmp6_packet_iff q_def [symmetric] by auto
  next
    case False
    then show ?thesis unfolding r by (simp add: icmp_parse_def)
  qed
qed

lemma decoded_header:
  assumes "DecodePacket p = Some e"
  shows "(\<exists>h. ipv4_Parse p = Some h \<and> h4_Protocol h = 1 \<and> h4_Source h = ie_SourceIP e \<and> h4_Destination h = ie_DestinationIP e)
    \<or> (\<exists>h. ipv6_Parse p = Some h \<and> h6_NextHeader h = 58 \<and> h6_Source h = ie_SourceIP e \<and> h6_Destination h = ie_DestinationIP e)"
  using assms unfolding decode_packet
  by (auto simp: icmp4_ok_def icmp6_ok_def icmp_seen_def ipv4_Parse_def ipv6_Parse_def Let_def split: if_splits)

text \<open>
  C39. ICMP packets are recognised by their layout, and the three parsers agree. The decoder
  accepts exactly the packets laid out as an IPv4 header of 20 to 60 bytes with protocol 1 and
  at least one byte after it, or as an IPv6 header with next header 58; its event carries the
  two addresses of the header and the length of the packet, and the header parsers read the
  same addresses from the same packet. The collector accepts an Ethernet frame exactly when 12
  bytes of hardware addresses and the type of IPv4 or IPv6 precede such a packet of that
  version; its event names the machine's own address first (the source of an outgoing packet,
  the destination of any other), counts one packet and one request of the frame's length, and
  has no ports.
\<close>

theorem icmp_packets_exact:
  "(DecodePacket p = Some e \<longleftrightarrow>
      (\<exists>src dst. (icmp4_packet p src dst \<or> icmp6_packet p src dst) \<and> e = icmp_seen (length p) src dst))
   \<and> (case DecodePacket p of
        Some e \<Rightarrow>
          (\<exists>h. ipv4_Parse p = Some h \<and> h4_Protocol h = 1 \<and> h4_Source h = ie_SourceIP e \<and> h4_Destination h = ie_DestinationIP e)
          \<or> (\<exists>h. ipv6_Parse p = Some h \<and> h6_NextHeader h = 58 \<and> h6_Source h = ie_SourceIP e \<and> h6_Destination h = ie_DestinationIP e)
      | None \<Rightarrow> parseIPv4ICMP p = ([], []) \<and> parseIPv6ICMP p = ([], []))
   \<and> (icmp_parse now reg ifaceName frame pkttype = Some m \<longleftrightarrow>
      (\<exists>macs ty q src dst. length macs = 12 \<and> frame = macs @ ty @ q
         \<and> (ty = [8, 0] \<and> icmp4_packet q src dst \<or> ty = [0x86, 0xdd] \<and> icmp6_packet q src dst)
         \<and> m = icmp_metric now reg ifaceName (length frame) (pkttype = Some 4) src dst))"
proof (intro conjI)
  show "case DecodePacket p of
        Some e \<Rightarrow>
          (\<exists>h. ipv4_Parse p = Some h \<and> h4_Protocol h = 1 \<and> h4_Source h = ie_SourceIP e \<and> h4_Destination h = ie_DestinationIP e)
          \<or> (\<exists>h. ipv6_Parse p = Some h \<and> h6_NextHeader h = 58 \<and> h6_Source h = ie_SourceIP e \<and> h6_Destination h = ie_DestinationIP e)
      | None \<Rightarrow> parseIPv4ICMP p = ([], []) \<and> parseIPv6ICMP p = ([], [])"
  proof (cases "DecodePacket p")
    case None
    then show ?thesis by (auto simp: decode_packet parsed_addresses split: if_splits)
  qed (use decoded_header in simp)
qed (rule decode_packet_iff icmp_parse_iff)+

section \<open>Ignored ports\<close>

lemma ignored_loop_spec:
  assumes "distinct keys"
  shows "distinct (ignored_loop ports keys)
    \<and> set (ignored_loop ports keys) = set keys \<union> to_u32 ` {p \<in> set ports. 0 < p \<and> p \<le> 65535}"
  using assms
  by (induction ports keys rule: ignored_loop.induct) (auto simp: Let_def)

text \<open>
  The kernel's ignore table gets exactly the valid ports. The keys put into the eBPF map
  are pairwise different and are the configured ports between 1 and 65535; everything else
  in the configuration is skipped, and no two configured ports share a key.
\<close>

theorem ignored_ports_exact:
  "distinct (ignoredPortKeys ports)
   \<and> uint ` set (ignoredPortKeys ports) = {p \<in> set ports. 0 < p \<and> p \<le> 65535}"
proof -
  have "uint (to_u32 p) = p" if "0 < p" "p \<le> 65535" for p
    using that by (intro uint_to_u32) auto
  then have "uint ` to_u32 ` {p \<in> set ports. 0 < p \<and> p \<le> 65535} = {p \<in> set ports. 0 < p \<and> p \<le> 65535}"
    by (force simp: image_iff)
  then show ?thesis using ignored_loop_spec [of "[]" ports] by (simp add: ignoredPortKeys_def)
qed

end
