(* ===== verification/Collectors.thy ===== *)
theory Collectors
  imports Packet_Parse
begin

text \<open>
  The agent's collectors as resource holders (\<open>src/agent/internal/features/traffic/packet\<close>):
  loading the eBPF object, choosing between TCX and kprobe capture, attaching the probes and
  closing everything again, and the mock and multi collectors. The kernel interface (the
  \<open>cilium/ebpf\<close> package) is the environment record: for each call, the error it returns, if
  any. The properties state that a failed start leaves nothing attached and what a
  successful start has attached.
\<close>

section \<open>The environment\<close>

datatype hook = KHook string string bool | TCXHook bool

record 'e ebpf_env =
  ev_rlimit :: "'e option"
  ev_spec :: "'e option"
  ev_collection :: "'e option"
  ev_program :: "string \<Rightarrow> bool"
  ev_ignored_map :: bool
  ev_events_map :: bool
  ev_put :: "u32 \<Rightarrow> 'e option"
  ev_attach :: "hook \<Rightarrow> 'e option"
  ev_iface :: "string \<Rightarrow> 'e option"
  ev_reader :: "'e option"
  ev_close :: "hook \<Rightarrow> 'e option"
  ev_close_reader :: "'e option"

datatype 'e ebpf_error =
    UnsupportedMode string | Wrapped string 'e | ProgramMissing string | TCXProgramsMissing
  | InterfaceEmpty | EventsMissing | NoTCX

text \<open>
  The collector, with the resources it holds: \<open>cl_open\<close> are the hooks attached in the kernel
  and not closed yet, \<open>cl_links\<close> those the collector knows of.
\<close>

record collector =
  cl_mode :: string
  cl_iface :: string
  cl_links :: "hook list"
  cl_kprobes :: "string list"
  cl_misses :: "string list"
  cl_reader :: bool
  cl_loaded :: bool
  cl_open :: "hook list"

record kprobe_attachment =
  ka_program :: string
  ka_symbol :: string
  ka_ret :: bool
  ka_required :: bool

definition kprobe :: "string \<Rightarrow> string \<Rightarrow> bool \<Rightarrow> bool \<Rightarrow> kprobe_attachment" where
  "kprobe p s r q = \<lparr>ka_program = p, ka_symbol = s, ka_ret = r, ka_required = q\<rparr>"

definition connectionAttachments :: "kprobe_attachment list" where
  "connectionAttachments = [
     kprobe ''trace_tcp_connect'' ''tcp_v4_connect'' False True,
     kprobe ''trace_tcp_v6_connect'' ''tcp_v6_connect'' False False,
     kprobe ''trace_tcp_accept'' ''inet_csk_accept'' True True,
     kprobe ''trace_tcp_send'' ''tcp_sendmsg'' False True,
     kprobe ''trace_tcp_send_ret'' ''tcp_sendmsg'' True True,
     kprobe ''trace_tcp_recv'' ''tcp_recvmsg'' False True,
     kprobe ''trace_tcp_recv_ret'' ''tcp_recvmsg'' True True,
     kprobe ''trace_udp_send'' ''udp_sendmsg'' False False,
     kprobe ''trace_udp_send_ret'' ''udp_sendmsg'' True False,
     kprobe ''trace_udp_recv'' ''udp_recvmsg'' False False,
     kprobe ''trace_udp_recv_ret'' ''udp_recvmsg'' True False]"

definition tcpMetricAttachments :: "kprobe_attachment list" where
  "tcpMetricAttachments = [
     kprobe ''trace_tcp_rtt'' ''tcp_rcv_established'' False False,
     kprobe ''trace_tcp_retransmit'' ''tcp_retransmit_skb'' False False,
     kprobe ''trace_tcp_delay_send'' ''tcp_sendmsg'' False False,
     kprobe ''trace_tcp_delay_recv'' ''tcp_recvmsg'' False False,
     kprobe ''trace_tcp_delay_recv_ret'' ''tcp_recvmsg'' True False]"

section \<open>Attaching and closing\<close>

text \<open>\<open>show_err\<close> renders an error in the list of missed probes.\<close>

fun attachKprobes :: "('e \<Rightarrow> string) \<Rightarrow> 'e ebpf_env \<Rightarrow> collector \<Rightarrow> kprobe_attachment list
    \<Rightarrow> 'e ebpf_error option \<times> collector" where
  "attachKprobes show_err env c [] = (None, c)"
| "attachKprobes show_err env c (item # items) =
     (if \<not> ev_program env (ka_program item) then
        (if ka_required item then (Some (ProgramMissing (ka_program item)), c)
         else attachKprobes show_err env
                (c\<lparr>cl_misses := cl_misses c @ [ka_program item @ '' missing'']\<rparr>) items)
      else
        let h = KHook (ka_program item) (ka_symbol item) (ka_ret item) in
        case ev_attach env h of
          Some e \<Rightarrow>
            if ka_required item then (Some (Wrapped (''attach '' @ ka_program item) e), c)
            else attachKprobes show_err env
              (c\<lparr>cl_misses := cl_misses c @ [ka_program item @ '' attach failed: '' @ show_err e]\<rparr>) items
        | None \<Rightarrow>
            attachKprobes show_err env
              (c\<lparr>cl_links := cl_links c @ [h], cl_open := cl_open c @ [h],
                 cl_kprobes := cl_kprobes c @ [ka_program item @ ''/'' @ ka_symbol item]\<rparr>) items)"

definition defaultInterfaceName :: "registration \<Rightarrow> string" where
  "defaultInterfaceName reg = firstInterfaceName (rg_Interfaces reg)"

definition attachTCX :: "'e ebpf_env \<Rightarrow> registration \<Rightarrow> collector \<Rightarrow> 'e ebpf_error option \<times> collector" where
  "attachTCX env reg c =
     (let ifaceName = (if cl_iface c = [] then defaultInterfaceName reg else cl_iface c) in
      if ifaceName = [] then (Some InterfaceEmpty, c)
      else case ev_iface env ifaceName of
        Some e \<Rightarrow> (Some (Wrapped (''lookup capture interface '' @ ifaceName) e), c)
      | None \<Rightarrow>
          if \<not> ev_program env ''tc_ingress'' \<or> \<not> ev_program env ''tc_egress''
          then (Some TCXProgramsMissing, c)
          else case ev_attach env (TCXHook True) of
            Some e \<Rightarrow> (Some (Wrapped (''attach tc ingress on '' @ ifaceName) e), c)
          | None \<Rightarrow>
              let c1 = c\<lparr>cl_open := cl_open c @ [TCXHook True]\<rparr> in
              case ev_attach env (TCXHook False) of
                Some e \<Rightarrow> (Some (Wrapped (''attach tc egress on '' @ ifaceName) e),
                            c1\<lparr>cl_open := remove1 (TCXHook True) (cl_open c1)\<rparr>)
              | None \<Rightarrow>
                  (None, c1\<lparr>cl_open := cl_open c1 @ [TCXHook False],
                            cl_links := cl_links c1 @ [TCXHook True, TCXHook False],
                            cl_mode := ''tc'', cl_iface := ifaceName\<rparr>))"

fun put_ports :: "'e ebpf_env \<Rightarrow> u32 list \<Rightarrow> 'e ebpf_error option" where
  "put_ports env [] = None"
| "put_ports env (p # ps) =
     (case ev_put env p of
        Some e \<Rightarrow> Some (Wrapped (''configure ignored port '' @ show_nat (unat p)) e)
      | None \<Rightarrow> put_ports env ps)"

definition configureIgnoredPorts :: "'e ebpf_env \<Rightarrow> int list \<Rightarrow> 'e ebpf_error option" where
  "configureIgnoredPorts env ports =
     (if \<not> ev_ignored_map env then None else put_ports env (ignoredPortKeys ports))"

text \<open>
  \<open>Close\<close> returns the first error, but closes every link whatever the others return. A
  failing \<open>Close\<close> of a hook still gives up the reference.
\<close>

definition close_links :: "'e ebpf_env \<Rightarrow> 'e option \<Rightarrow> hook list \<Rightarrow> 'e option" where
  "close_links env first links =
     foldl (\<lambda>f h. case ev_close env h of Some e \<Rightarrow> (if f = None then Some e else f) | None \<Rightarrow> f) first links"

definition ebpf_Close :: "'e ebpf_env \<Rightarrow> collector \<Rightarrow> 'e option \<times> collector" where
  "ebpf_Close env c =
     (let first = (if cl_reader c then ev_close_reader env else None) in
      (close_links env first (cl_links c),
       c\<lparr>cl_open := foldl (\<lambda>os h. remove1 h os) (cl_open c) (cl_links c),
         cl_reader := False, cl_loaded := False\<rparr>))"

section \<open>Starting\<close>

record ebpf_options =
  eo_ObjectPath :: string
  eo_CaptureMode :: string
  eo_CaptureInterface :: string
  eo_IgnorePorts :: "int list"

definition no_resources :: "string \<Rightarrow> string \<Rightarrow> collector" where
  "no_resources mode iface = \<lparr>cl_mode = mode, cl_iface = iface, cl_links = [], cl_kprobes = [],
     cl_misses = [], cl_reader = False, cl_loaded = False, cl_open = []\<rparr>"

definition fail_close :: "'e ebpf_env \<Rightarrow> collector \<Rightarrow> 'e ebpf_error \<Rightarrow> 'e ebpf_error option \<times> collector" where
  "fail_close env c err = (Some err, snd (ebpf_Close env c))"

definition open_reader :: "'e ebpf_env \<Rightarrow> collector \<Rightarrow> 'e ebpf_error option \<times> collector" where
  "open_reader env c =
     (if \<not> ev_events_map env then fail_close env c EventsMissing
      else case ev_reader env of
        Some e \<Rightarrow> fail_close env c (Wrapped [] e)
      | None \<Rightarrow> (None, c\<lparr>cl_reader := True\<rparr>))"

text \<open>The attachment phase of \<open>NewEBPF\<close>, after the object is loaded.\<close>

definition attach_phase ::
    "('e \<Rightarrow> string) \<Rightarrow> 'e ebpf_env \<Rightarrow> registration \<Rightarrow> string \<Rightarrow> collector
     \<Rightarrow> 'e ebpf_error option \<times> collector" where
  "attach_phase show_err env reg mode c =
     (let tc = (if mode = ''tc'' \<or> mode = ''auto'' then attachTCX env reg c else (Some NoTCX, c))
      in case tc of
        (None, c1) \<Rightarrow>
          (case attachKprobes show_err env c1 tcpMetricAttachments of
             (Some err, c2) \<Rightarrow> fail_close env c2 err
           | (None, c2) \<Rightarrow> open_reader env c2)
      | (Some err, c1) \<Rightarrow>
          if mode = ''tc'' then fail_close env c1 err
          else (case attachKprobes show_err env c1 (connectionAttachments @ tcpMetricAttachments) of
                  (Some err, c2) \<Rightarrow> fail_close env c2 err
                | (None, c2) \<Rightarrow> open_reader env (c2\<lparr>cl_mode := ''kprobe''\<rparr>)))"

text \<open>
  \<open>NewEBPF\<close>: the error, or \<open>None\<close>, and the collector with the resources that are held when it
  returns (a caller that gets an error drops the collector).
\<close>

definition NewEBPF ::
    "(string \<Rightarrow> string) \<Rightarrow> ('e \<Rightarrow> string) \<Rightarrow> 'e ebpf_env \<Rightarrow> registration \<Rightarrow> ebpf_options
     \<Rightarrow> 'e ebpf_error option \<times> collector" where
  "NewEBPF ul show_err env reg opts =
     (let m = ToLower ul (TrimSpace (eo_CaptureMode opts));
          mode = (if m = [] then ''auto'' else m);
          c0 = no_resources mode (TrimSpace (eo_CaptureInterface opts))
      in
      if mode \<notin> {''auto'', ''tc'', ''kprobe''} then (Some (UnsupportedMode (eo_CaptureMode opts)), c0)
      else case ev_rlimit env of
        Some e \<Rightarrow> (Some (Wrapped ''remove memlock'' e), c0)
      | None \<Rightarrow> (case ev_spec env of
          Some e \<Rightarrow> (Some (Wrapped (''read eBPF object '' @ eo_ObjectPath opts) e), c0)
        | None \<Rightarrow> (case ev_collection env of
            Some e \<Rightarrow> (Some (Wrapped ''load eBPF object'' e), c0)
          | None \<Rightarrow>
              (case configureIgnoredPorts env (eo_IgnorePorts opts) of
                 Some err \<Rightarrow> fail_close env (c0\<lparr>cl_loaded := True\<rparr>) err
               | None \<Rightarrow> attach_phase show_err env reg mode (c0\<lparr>cl_loaded := True\<rparr>)))))"

section \<open>Mock and multi collector\<close>

record mock_destination =
  md_ip :: string
  md_port :: int
  md_protocol :: string

fun str_Contains :: "string \<Rightarrow> string \<Rightarrow> bool" where
  "str_Contains [] sub = (sub = [])"
| "str_Contains (x # xs) sub = (HasPrefix (x # xs) sub \<or> str_Contains xs sub)"

definition mock_destinations :: "(string \<Rightarrow> string) \<Rightarrow> registration \<Rightarrow> mock_destination list" where
  "mock_destinations ul reg =
     (let d = (\<lambda>ip port proto. \<lparr>md_ip = ip, md_port = port, md_protocol = proto\<rparr>) in
      if str_Contains (ToLower ul (rg_Hostname reg)) ''db''
      then [d ''10.10.1.15'' 8080 ProtocolTCP, d ''1.1.1.1'' 443 ProtocolTCP, d ''10.10.1.40'' 6379 ProtocolTCP]
      else [d ''10.10.1.30'' 5432 ProtocolTCP, d ''8.8.8.8'' 443 ProtocolTCP,
            d ''10.10.1.99'' 8080 ProtocolTCP, d ''1.1.1.1'' 53 ProtocolUDP])"

text \<open>
  \<open>intn i n\<close> is the \<open>i\<close>-th draw of the random source with bound \<open>n\<close>, in the order of the
  source: destination, bytes received, bytes sent, connections, source port, age.
\<close>

definition mock_event ::
    "(string \<Rightarrow> string) \<Rightarrow> (nat \<Rightarrow> int \<Rightarrow> int) \<Rightarrow> registration \<Rightarrow> gotime \<Rightarrow> flow_metric" where
  "mock_event ul intn reg now =
     (let ds = mock_destinations ul reg;
          destination = ds ! nat (intn 0 (int (length ds)));
          bytesReceived = 25000 + intn 1 2500000;
          bytesSent = 2000 + intn 2 350000;
          connections = 1 + intn 3 3
      in \<lparr>fm_AgentID = rg_AgentID reg,
          fm_SrcIP = (case rg_PrivateIPs reg of [] \<Rightarrow> ''10.10.1.15'' | ip # _ \<Rightarrow> ip),
          fm_DstIP = md_ip destination, fm_SrcPort = 32000 + intn 4 25000,
          fm_DstPort = md_port destination, fm_Protocol = md_protocol destination,
          fm_Direction = Egress,
          fm_Interface = (case rg_Interfaces reg of [] \<Rightarrow> ''eth0'' | i # _ \<Rightarrow> if_Name i),
          fm_Source = ''mock'', fm_ByteCount = bytesSent + bytesReceived,
          fm_PacketCount = (bytesSent + bytesReceived) div 1200 + 1,
          fm_ConnectionCount = connections, fm_RequestCount = connections, fm_ErrorCount = 0,
          fm_RetransmissionCount = 0, fm_RTTMs = 0, fm_AppDelayMs = 0, fm_HTTPStatus = 0,
          fm_FirstSeen = now - (100 + intn 5 900) * Millisecond, fm_LastSeen = now\<rparr>)"

text \<open>\<open>MultiCollector.Close\<close>: every collector is closed; the first error is kept.\<close>

definition multi_Close :: "'e option list \<Rightarrow> 'e option" where
  "multi_Close outcomes = foldl (\<lambda>f o'. if o' \<noteq> None \<and> f = None then o' else f) None outcomes"

section \<open>Resource safety\<close>

definition holds_its_links :: "collector \<Rightarrow> bool" where
  "holds_its_links c \<longleftrightarrow> cl_open c = cl_links c"

lemma attachKprobes_links:
  assumes "attachKprobes show_err env c items = (r, c')" and "holds_its_links c"
  shows "holds_its_links c' \<and> cl_loaded c' = cl_loaded c \<and> cl_reader c' = cl_reader c
    \<and> cl_mode c' = cl_mode c"
  using assms
  by (induction show_err env c items rule: attachKprobes.induct)
    (auto simp: Let_def holds_its_links_def split: if_splits option.splits)

lemma attachTCX_links:
  assumes "attachTCX env reg c = (r, c')" and "cl_links c = []" and "holds_its_links c"
  shows "holds_its_links c' \<and> cl_loaded c' = cl_loaded c \<and> cl_reader c' = cl_reader c
    \<and> (if r = None then cl_mode c' = ''tc'' \<and> cl_links c' = [TCXHook True, TCXHook False]
       else c' = c)"
  using assms
  by (auto simp: attachTCX_def Let_def holds_its_links_def split: if_splits option.splits)

lemma remove_all: "foldl (\<lambda>os h. remove1 h os) xs xs = []"
  by (induction xs) auto

lemma Close_releases:
  "holds_its_links c \<Longrightarrow> cl_open (snd (ebpf_Close env c)) = [] \<and> \<not> cl_reader (snd (ebpf_Close env c))
     \<and> \<not> cl_loaded (snd (ebpf_Close env c))"
  by (simp add: ebpf_Close_def Let_def holds_its_links_def remove_all)

definition released :: "collector \<Rightarrow> bool" where
  "released c \<longleftrightarrow> cl_open c = [] \<and> \<not> cl_reader c \<and> \<not> cl_loaded c"

definition started :: "collector \<Rightarrow> bool" where
  "started c \<longleftrightarrow> holds_its_links c \<and> cl_reader c \<and> cl_loaded c"

definition start_ok :: "'e ebpf_error option \<times> collector \<Rightarrow> bool" where
  "start_ok rc = (case rc of (r, c) \<Rightarrow> if r = None then started c else released c)"

lemma fail_close_ok: "holds_its_links c \<Longrightarrow> start_ok (fail_close env c err)"
  using Close_releases [of c env] by (simp add: start_ok_def fail_close_def released_def)

lemma open_reader_ok:
  assumes "holds_its_links c" "cl_loaded c"
  shows "start_ok (open_reader env c)"
proof (cases "ev_events_map env \<and> ev_reader env = None")
  case True
  then show ?thesis using assms
    by (simp add: open_reader_def start_ok_def started_def holds_its_links_def)
next
  case False
  then have "\<exists>err. open_reader env c = fail_close env c err"
    by (cases "ev_events_map env"; cases "ev_reader env") (auto simp: open_reader_def)
  then show ?thesis using fail_close_ok [OF assms(1)] by fastforce
qed

lemma open_reader_None: "open_reader env c = (None, c') \<Longrightarrow> c' = c\<lparr>cl_reader := True\<rparr>"
  by (auto simp: open_reader_def fail_close_def split: if_splits option.splits)

definition hook_of :: "kprobe_attachment \<Rightarrow> hook" where
  "hook_of item = KHook (ka_program item) (ka_symbol item) (ka_ret item)"

lemma attachKprobes_required:
  assumes "attachKprobes show_err env c items = (None, c')"
  shows "set (cl_links c) \<union> hook_of ` {item \<in> set items. ka_required item} \<subseteq> set (cl_links c')"
  using assms
proof (induction items arbitrary: c)
  case (Cons item items)
  then show ?case
    by (auto simp: Let_def hook_of_def split: if_splits option.splits dest!: Cons.IH)
qed auto

definition required_hooks :: "hook set" where
  "required_hooks = hook_of ` {item \<in> set (connectionAttachments @ tcpMetricAttachments). ka_required item}"

definition capture_ok :: "string \<Rightarrow> collector \<Rightarrow> bool" where
  "capture_ok mode c \<longleftrightarrow>
     (if cl_mode c = ''tc'' then mode \<noteq> ''kprobe'' \<and> {TCXHook True, TCXHook False} \<subseteq> set (cl_links c)
      else cl_mode c = ''kprobe'' \<and> mode \<noteq> ''tc'' \<and> required_hooks \<subseteq> set (cl_links c))"

definition phase_ok :: "string \<Rightarrow> 'e ebpf_error option \<times> collector \<Rightarrow> bool" where
  "phase_ok mode rc \<longleftrightarrow> start_ok rc \<and> (fst rc = None \<longrightarrow> capture_ok mode (snd rc))"

lemma fail_close_phase: "holds_its_links c \<Longrightarrow> phase_ok mode (fail_close env c err)"
  by (simp add: phase_ok_def fail_close_ok) (simp add: fail_close_def)

lemma open_reader_phase:
  assumes "holds_its_links c" "cl_loaded c" "capture_ok mode c"
  shows "phase_ok mode (open_reader env c)"
  using assms open_reader_ok [of c env] open_reader_None [of env c "snd (open_reader env c)"]
  by (auto simp: phase_ok_def capture_ok_def prod_eq_iff)

lemma tcx_phase:
  assumes "holds_its_links c" "cl_loaded c" "cl_mode c = ''tc''" "mode \<noteq> ''kprobe''"
    and "cl_links c = [TCXHook True, TCXHook False]"
    and "attachKprobes show_err env c items = (r, c')"
  shows "phase_ok mode (case r of Some err \<Rightarrow> fail_close env c' err | None \<Rightarrow> open_reader env c')"
proof (cases r)
  case None
  then show ?thesis
    using assms attachKprobes_links [OF assms(6,1)] attachKprobes_required [of show_err env c items c']
    by (auto simp: capture_ok_def intro!: open_reader_phase)
qed (use attachKprobes_links [OF assms(6,1)] in \<open>simp add: fail_close_phase\<close>)

lemma kprobe_phase:
  assumes "holds_its_links c" "cl_loaded c" "mode \<noteq> ''tc''"
    and "attachKprobes show_err env c (connectionAttachments @ tcpMetricAttachments) = (r, c')"
  shows "phase_ok mode (case r of Some err \<Rightarrow> fail_close env c' err
                        | None \<Rightarrow> open_reader env (c'\<lparr>cl_mode := ''kprobe''\<rparr>))"
proof (cases r)
  case None
  then have "required_hooks \<subseteq> set (cl_links c')"
    using attachKprobes_required [OF assms(4) [unfolded None]] by (simp add: required_hooks_def)
  then show ?thesis
    using None assms attachKprobes_links [OF assms(4,1)]
    by (auto simp: capture_ok_def holds_its_links_def intro!: open_reader_phase)
qed (use attachKprobes_links [OF assms(4,1)] in \<open>simp add: fail_close_phase\<close>)

lemma attach_phase_spec:
  assumes "mode \<in> {''auto'', ''tc'', ''kprobe''}" and "holds_its_links c" "cl_links c = []" "cl_loaded c"
  shows "phase_ok mode (attach_phase show_err env reg mode c)"
proof -
  define tc where "tc = (if mode = ''tc'' \<or> mode = ''auto'' then attachTCX env reg c else (Some NoTCX, c))"
  obtain t c1 where t: "tc = (t, c1)" by fastforce
  have c1: "holds_its_links c1" "cl_loaded c1"
    "if t = None then mode \<noteq> ''kprobe'' \<and> cl_mode c1 = ''tc'' \<and> cl_links c1 = [TCXHook True, TCXHook False]
     else c1 = c"
    using t assms attachTCX_links [of env reg c t c1] by (auto simp: tc_def split: if_splits)
  note unfold = attach_phase_def tc_def [symmetric] Let_def t prod.case
  show ?thesis
  proof (cases t)
    case None
    obtain r c2 where "attachKprobes show_err env c1 tcpMetricAttachments = (r, c2)" by fastforce
    with None c1 tcx_phase [of c1 mode show_err env tcpMetricAttachments r c2] show ?thesis
      unfolding unfold by (auto split: option.splits)
  next
    case (Some err)
    obtain r c2 where "attachKprobes show_err env c1 (connectionAttachments @ tcpMetricAttachments) = (r, c2)"
      by fastforce
    with Some c1 kprobe_phase [of c1 mode show_err env r c2] fail_close_phase [of c1 mode env err]
    show ?thesis unfolding unfold by (auto split: option.splits)
  qed
qed

lemma NewEBPF_phase:
  assumes "NewEBPF ul show_err env reg opts = (r, c)"
  shows "start_ok (r, c) \<and> (r = None \<longrightarrow> capture_ok (ToLower ul (TrimSpace (eo_CaptureMode opts))) c)"
proof -
  define m where "m = ToLower ul (TrimSpace (eo_CaptureMode opts))"
  define mode where "mode = (if m = [] then ''auto'' else m)"
  define c0 where "c0 = no_resources mode (TrimSpace (eo_CaptureInterface opts))"
  have c0: "cl_open c0 = []" "\<not> cl_reader c0" "\<not> cl_loaded c0" "cl_links c0 = []"
    by (simp_all add: c0_def no_resources_def)
  let ?c1 = "c0\<lparr>cl_loaded := True\<rparr>"
  have wf: "holds_its_links ?c1" "cl_links ?c1 = []" "cl_loaded ?c1"
    using c0 by (simp_all add: holds_its_links_def)
  have new: "(r, c) = (if mode \<notin> {''auto'', ''tc'', ''kprobe''} then (Some (UnsupportedMode (eo_CaptureMode opts)), c0)
      else case ev_rlimit env of
        Some e \<Rightarrow> (Some (Wrapped ''remove memlock'' e), c0)
      | None \<Rightarrow> (case ev_spec env of
          Some e \<Rightarrow> (Some (Wrapped (''read eBPF object '' @ eo_ObjectPath opts) e), c0)
        | None \<Rightarrow> (case ev_collection env of
            Some e \<Rightarrow> (Some (Wrapped ''load eBPF object'' e), c0)
          | None \<Rightarrow>
              (case configureIgnoredPorts env (eo_IgnorePorts opts) of
                 Some err \<Rightarrow> fail_close env ?c1 err
               | None \<Rightarrow> attach_phase show_err env reg mode ?c1))))"
    using assms unfolding NewEBPF_def Let_def m_def mode_def c0_def by (rule sym)
  have mode_capture: "capture_ok mode c \<Longrightarrow> capture_ok m c"
    by (auto simp: capture_ok_def mode_def split: if_splits)
  show ?thesis
  proof (cases "mode \<in> {''auto'', ''tc'', ''kprobe''} \<and> ev_rlimit env = None \<and> ev_spec env = None
      \<and> ev_collection env = None")
    case False
    then have "r \<noteq> None \<and> c = c0" using new by (auto split: if_splits option.splits)
    with c0 show ?thesis by (auto simp: start_ok_def released_def)
  next
    case ok: True
    show ?thesis
    proof (cases "configureIgnoredPorts env (eo_IgnorePorts opts)")
      case None
      then have "attach_phase show_err env reg mode ?c1 = (r, c)" using new ok by auto
      with attach_phase_spec [OF _ wf, of mode show_err env reg] ok have "phase_ok mode (r, c)" by auto
      with mode_capture show ?thesis by (auto simp: phase_ok_def m_def)
    next
      case (Some err)
      then have "fail_close env ?c1 err = (r, c)" using new ok by auto
      with fail_close_ok [OF wf(1), of env err] show ?thesis by (auto simp: start_ok_def fail_close_def)
    qed
  qed
qed

text \<open>
  C40. Starting the eBPF collector is all or nothing. When \<open>NewEBPF\<close> returns an error, no hook
  is left attached, no ring-buffer reader is open and the collection is closed, whichever
  step failed; when it succeeds, the hooks it holds are exactly those attached in the
  kernel, with the reader open, and the capture is either TCX with both directions attached
  (never when kprobes were asked for) or kprobes with every required probe attached (never
  when TCX was asked for).
\<close>

theorem NewEBPF_all_or_nothing:
  assumes "NewEBPF ul show_err env reg opts = (r, c)"
  shows "if r = None
    then cl_open c = cl_links c \<and> cl_reader c \<and> cl_loaded c
      \<and> capture_ok (ToLower ul (TrimSpace (eo_CaptureMode opts))) c
    else cl_open c = [] \<and> \<not> cl_reader c \<and> \<not> cl_loaded c"
  using NewEBPF_phase [OF assms] by (auto simp: start_ok_def started_def released_def holds_its_links_def)

theorem NewEBPF_all_or_nothing_witness:
  "cl_open (snd (NewEBPF id id \<lparr>ev_rlimit = None, ev_spec = None, ev_collection = None,
      ev_program = (\<lambda>_. True), ev_ignored_map = True, ev_events_map = False, ev_put = (\<lambda>_. None),
      ev_attach = (\<lambda>_. None), ev_iface = (\<lambda>_. None), ev_reader = None, ev_close = (\<lambda>_. None),
      ev_close_reader = None\<rparr> \<lparr>rg_AgentID = ''a'', rg_Hostname = [], rg_MachineID = [], rg_TenantID = [],
      rg_PrivateIPs = [], rg_PublicIP = None, rg_MACAddresses = [], rg_Interfaces = [], rg_OS = [],
      rg_Kernel = [], rg_AgentVersion = [], rg_Environment = []\<rparr>
     \<lparr>eo_ObjectPath = [], eo_CaptureMode = ''TC'', eo_CaptureInterface = ''ens3'', eo_IgnorePorts = [18080]\<rparr>)) = []"
proof -
  let ?env = "\<lparr>ev_rlimit = None, ev_spec = None, ev_collection = None,
      ev_program = (\<lambda>_. True), ev_ignored_map = True, ev_events_map = False, ev_put = (\<lambda>_. None),
      ev_attach = (\<lambda>_. None), ev_iface = (\<lambda>_. None), ev_reader = None, ev_close = (\<lambda>_. None),
      ev_close_reader = None\<rparr> :: string ebpf_env"
  let ?reg = "\<lparr>rg_AgentID = ''a'', rg_Hostname = [], rg_MachineID = [], rg_TenantID = [],
      rg_PrivateIPs = [], rg_PublicIP = None, rg_MACAddresses = [], rg_Interfaces = [], rg_OS = [],
      rg_Kernel = [], rg_AgentVersion = [], rg_Environment = []\<rparr> :: registration"
  let ?opts = "\<lparr>eo_ObjectPath = [], eo_CaptureMode = ''TC'', eo_CaptureInterface = ''ens3'',
      eo_IgnorePorts = [18080]\<rparr>"
  have "fst (NewEBPF id id ?env ?reg ?opts) \<noteq> None" by code_simp
  with NewEBPF_all_or_nothing [OF prod.collapse [symmetric], of id id ?env ?reg ?opts] show ?thesis
    by simp
qed

end
