(* ===== verification/Agent_Run.thy ===== *)
theory Agent_Run
  imports Agent_Config Agent_Loop Collectors
begin

text \<open>
  The agent from its start to its end (\<open>run\<close> of \<open>src/agent/cmd/agent/main.go\<close>): loading the
  configuration, the filters, the registration, the goroutines of the heartbeat and of the
  connectivity probe, the choice and the opening of the collectors, the main loop of theory
  \<open>Agent_Loop\<close> and the deferred calls. The packet socket of the ICMP collector
  (\<open>features/protocols/network/icmp/collector.go\<close>), the heartbeat loop
  (\<open>internal/lifecycle/heartbeat.go\<close>) and the probe listener (\<open>internal/probe/probe.go\<close>) are
  modelled here too. The operating system is the record \<open>world\<close>: what each call returns. The
  properties state that the agent gives back every resource however it stops, and what a
  started agent never observes.
\<close>

section \<open>The packet socket\<close>

text \<open>
  The results of \<open>net.InterfaceByName\<close> (the index), \<open>unix.Socket\<close> (the descriptor),
  \<open>unix.Bind\<close> for a descriptor and an index, and \<open>unix.Close\<close>, which gives up the descriptor
  even when it reports an error.
\<close>

record 'e icmp_env =
  in_index :: "string \<Rightarrow> 'e + int"
  in_socket :: "'e + int"
  in_bind :: "int \<Rightarrow> int \<Rightarrow> 'e option"
  in_close :: "int \<Rightarrow> 'e option"

datatype 'e icmp_error = IfaceEmpty | IfaceLookup string 'e | SocketOpen 'e | SocketBind string 'e

text \<open>A collector: \<open>ic_closed\<close> is the \<open>sync.Once\<close> that guards its descriptor.\<close>

record icmp_collector =
  ic_ifaceName :: string
  ic_fd :: int
  ic_closed :: bool

fun icmp_firstNonEmpty :: "string list \<Rightarrow> string" where
  "icmp_firstNonEmpty [] = []"
| "icmp_firstNonEmpty (v # vs) = (if v \<noteq> [] then v else icmp_firstNonEmpty vs)"

text \<open>The constructor, with the descriptors that are open when it returns.\<close>

definition icmp_NewCollector ::
    "'e icmp_env \<Rightarrow> registration \<Rightarrow> string \<Rightarrow> ('e icmp_error + icmp_collector) \<times> int list" where
  "icmp_NewCollector env reg name =
     (let ifaceName = icmp_firstNonEmpty [name, firstInterfaceName (rg_Interfaces reg)] in
      if ifaceName = [] then (Inl IfaceEmpty, [])
      else case in_index env ifaceName of
        Inl e \<Rightarrow> (Inl (IfaceLookup ifaceName e), [])
      | Inr index \<Rightarrow>
          (case in_socket env of
             Inl e \<Rightarrow> (Inl (SocketOpen e), [])
           | Inr fd \<Rightarrow>
               (case in_bind env fd index of
                  Some e \<Rightarrow> (Inl (SocketBind ifaceName e), remove1 fd [fd])
                | None \<Rightarrow> (Inr \<lparr>ic_ifaceName = ifaceName, ic_fd = fd, ic_closed = False\<rparr>, [fd]))))"

definition icmp_Close :: "'e icmp_env \<Rightarrow> icmp_collector \<Rightarrow> int list \<Rightarrow> 'e option \<times> icmp_collector \<times> int list" where
  "icmp_Close env c fds =
     (if ic_closed c then (None, c, fds)
      else (in_close env (ic_fd c), c\<lparr>ic_closed := True\<rparr>, remove1 (ic_fd c) fds))"

section \<open>The calls of the backend\<close>

text \<open>
  The five calls of \<open>exporter.Sender\<close>: their paths and whether the answer is decoded. \<open>QueryEscape\<close>
  is \<open>url.QueryEscape\<close>.
\<close>

definition unreserved :: "char \<Rightarrow> bool" where
  "unreserved ch \<longleftrightarrow> (let n = of_char ch :: nat in 48 \<le> n \<and> n \<le> 57 \<or> 65 \<le> n \<and> n \<le> 90 \<or> 97 \<le> n \<and> n \<le> 122) \<or> ch \<in> set ''-_.~''"

definition escape_char :: "char \<Rightarrow> string" where
  "escape_char ch =
     (if unreserved ch then [ch] else if ch = CHR '' '' then ''+''
      else let n = of_char ch :: nat in [CHR ''%'', ''0123456789ABCDEF'' ! (n div 16), ''0123456789ABCDEF'' ! (n mod 16)])"

definition QueryEscape :: "string \<Rightarrow> string" where
  "QueryEscape v = concat (map escape_char v)"

text \<open>A pointer to a result that nothing is decoded into keeps its zero value.\<close>

definition decoded_or :: "'r \<Rightarrow> 'e send_error + 'r option \<Rightarrow> 'e send_error + 'r" where
  "decoded_or zero res = (case res of Inl e \<Rightarrow> Inl e | Inr None \<Rightarrow> Inr zero | Inr (Some r) \<Rightarrow> Inr r)"

definition error_of :: "'e send_error + 'r option \<Rightarrow> 'e send_error option" where
  "error_of res = (case res of Inl e \<Rightarrow> Some e | Inr _ \<Rightarrow> None)"

definition Sender_Register ::
    "(registration \<Rightarrow> 'e + string) \<Rightarrow> (string \<Rightarrow> string \<Rightarrow> 'e + 'e response) \<Rightarrow> (string \<Rightarrow> 'e + registration_result) \<Rightarrow> sender
     \<Rightarrow> registration \<Rightarrow> 'e send_error + registration_result" where
  "Sender_Register marshal do_post unmarshal s reg =
     decoded_or \<lparr>rr_AgentID = [], rr_VMID = [], rr_Status = []\<rparr>
       (Sender_post marshal do_post (Some unmarshal) s ''/api/agents/register'' reg)"

record heartbeat_payload =
  hp_AgentID :: string
  hp_Status :: string
  hp_Timestamp :: gotime

definition Sender_Heartbeat ::
    "(heartbeat_payload \<Rightarrow> 'e + string) \<Rightarrow> (string \<Rightarrow> string \<Rightarrow> 'e + 'e response) \<Rightarrow> sender \<Rightarrow> heartbeat_payload \<Rightarrow> 'e send_error option" where
  "Sender_Heartbeat marshal do_post s hb =
     error_of (Sender_post marshal do_post (None :: (string \<Rightarrow> 'e + unit) option) s ''/api/agents/heartbeat'' hb)"

definition Sender_Flow ::
    "(flow_event \<Rightarrow> 'e + string) \<Rightarrow> (string \<Rightarrow> string \<Rightarrow> 'e + 'e response) \<Rightarrow> sender \<Rightarrow> flow_event \<Rightarrow> 'e send_error option" where
  "Sender_Flow marshal do_post s event =
     error_of (Sender_post marshal do_post (None :: (string \<Rightarrow> 'e + unit) option) s ''/api/flows/ingest'' event)"

definition Sender_ConnectionTargets ::
    "(string \<Rightarrow> 'e + 'e response) \<Rightarrow> (string \<Rightarrow> 'e + probe_target list) \<Rightarrow> sender \<Rightarrow> string \<Rightarrow> 'e send_error + probe_target list" where
  "Sender_ConnectionTargets do_get unmarshal s agentID =
     decoded_or [] (Sender_get do_get (Some unmarshal) s (''/api/connections/targets?agent_id='' @ QueryEscape agentID))"

definition Sender_ConnectionProbe ::
    "(probe_event \<Rightarrow> 'e + string) \<Rightarrow> (string \<Rightarrow> string \<Rightarrow> 'e + 'e response) \<Rightarrow> sender \<Rightarrow> probe_event \<Rightarrow> 'e send_error option" where
  "Sender_ConnectionProbe marshal do_post s event =
     error_of (Sender_post marshal do_post (None :: (string \<Rightarrow> 'e + unit) option) s ''/api/connections/probe'' event)"

section \<open>The background loops\<close>

text \<open>
  \<open>lifecycle.Run\<close>: an occurrence at its \<open>select\<close> is the end of the context or a tick with the
  outcome of the heartbeat; the result lists the calls to the backend, in order. The timestamp of
  a heartbeat is kept as the instant that its text denotes. The loop is that of a positive
  interval: with another one \<open>time.NewTicker\<close> panics in this goroutine, which ends the process.
\<close>

datatype lifecycle_call = SendHeartbeat heartbeat_payload | SendRegister registration

datatype lifecycle_event = LifecycleDone | LifecycleTick gotime bool

fun lifecycle_Run :: "registration \<Rightarrow> lifecycle_event list \<Rightarrow> lifecycle_call list" where
  "lifecycle_Run reg [] = []"
| "lifecycle_Run reg (LifecycleDone # evs) = []"
| "lifecycle_Run reg (LifecycleTick now ok # evs) =
     SendHeartbeat \<lparr>hp_AgentID = rg_AgentID reg, hp_Status = ''online'', hp_Timestamp = now\<rparr>
     # (if ok then [] else [SendRegister reg]) @ lifecycle_Run reg evs"

text \<open>
  \<open>serveTCP\<close>: \<open>listener.Accept\<close> returns a connection or an error, with whether the context is
  done then. The result: the connections accepted and those closed, and whether it returned.
\<close>

datatype accept = Accepted nat | AcceptError bool

fun serve_loop :: "accept list \<Rightarrow> nat list \<Rightarrow> nat list \<Rightarrow> nat list \<times> nat list \<times> bool" where
  "serve_loop [] taken shut = (taken, shut, False)"
| "serve_loop (AcceptError ctx_done # as) taken shut =
     (if ctx_done then (taken, shut, True) else serve_loop as taken shut)"
| "serve_loop (Accepted conn # as) taken shut = serve_loop as (taken @ [conn]) (shut @ [conn])"

definition serveTCP :: "bool \<Rightarrow> accept list \<Rightarrow> nat list \<times> nat list \<times> bool" where
  "serveTCP listening accepts = (if \<not> listening then ([], [], True) else serve_loop accepts [] [])"

text \<open>\<open>tcpConnect\<close>: \<open>dial\<close> is the dialer with its timeout on a joined address, with its error text.\<close>

definition JoinHostPort :: "string \<Rightarrow> string \<Rightarrow> string" where
  "JoinHostPort host port =
     (if CHR '':'' \<in> set host then ''['' @ host @ '']:'' @ port else host @ '':'' @ port)"

definition tcpConnect ::
    "(duration \<Rightarrow> string \<Rightarrow> string option) \<Rightarrow> string \<Rightarrow> int \<Rightarrow> duration \<Rightarrow> bool \<times> string" where
  "tcpConnect dial host port timeout =
     (case dial timeout (JoinHostPort host (itoa port)) of
        Some err \<Rightarrow> (False, err)
      | None \<Rightarrow> (True, []))"

text \<open>
  \<open>runTargetLoop\<close>: the events that its rounds report, given at each tick what
  \<open>ConnectionTargets\<close> returns.
\<close>

datatype target_event = TargetsDone | TargetsTick "probe_target list option"

fun runTargetLoop :: "(probe_target \<Rightarrow> probe_event) \<Rightarrow> target_event list \<Rightarrow> probe_event list" where
  "runTargetLoop probe [] = []"
| "runTargetLoop probe (TargetsDone # evs) = []"
| "runTargetLoop probe (TargetsTick ts # evs) = probeTargets probe ts @ runTargetLoop probe evs"

text \<open>
  \<open>MockCollector.Run\<close>: the events it emits, given at each tick the time and the draws of the
  random source.
\<close>

datatype mock_tick = MockDone | MockTick gotime "nat \<Rightarrow> int \<Rightarrow> int"

fun mock_Run :: "(string \<Rightarrow> string) \<Rightarrow> registration \<Rightarrow> mock_tick list \<Rightarrow> flow_metric list" where
  "mock_Run ul reg [] = []"
| "mock_Run ul reg (MockDone # ticks) = []"
| "mock_Run ul reg (MockTick now intn # ticks) = mock_event ul intn reg now # mock_Run ul reg ticks"

text \<open>The goroutines that \<open>run\<close> starts, with the arguments that matter.\<close>

datatype goroutine =
    LifecycleLoop registration duration | ProbeListener string | ProbeLoop string duration
  | CollectorLoop | FlowSender

definition probe_Run :: "agent_settings \<Rightarrow> string \<Rightarrow> goroutine list" where
  "probe_Run cfg agentID =
     (if \<not> cf_ConnectivityProbeEnabled cfg then []
      else [ProbeListener (cf_ConnectivityProbeListenAddr cfg),
            ProbeLoop agentID (probe_interval (cf_ConnectivityProbeInterval cfg))])"

section \<open>Sources of events\<close>

datatype event_source = MockSource | EBPFSource collector | MultiSource collector icmp_collector

text \<open>What the process holds in the kernel.\<close>

record held =
  hd_hooks :: "hook list"
  hd_reader :: bool
  hd_loaded :: bool
  hd_sockets :: "int list"

definition nothing_held :: held where
  "nothing_held = \<lparr>hd_hooks = [], hd_reader = False, hd_loaded = False, hd_sockets = []\<rparr>"

definition holding :: "collector \<Rightarrow> int list \<Rightarrow> held" where
  "holding c fds = \<lparr>hd_hooks = cl_open c, hd_reader = cl_reader c, hd_loaded = cl_loaded c, hd_sockets = fds\<rparr>"

definition capture_options :: "agent_settings \<Rightarrow> ebpf_options" where
  "capture_options cfg =
     \<lparr>eo_ObjectPath = cf_BPFObject cfg, eo_CaptureMode = cf_CaptureMode cfg,
      eo_CaptureInterface = cf_CaptureInterface cfg, eo_IgnorePorts = cf_IgnorePorts cfg\<rparr>"

text \<open>The choice of the source: a failing ICMP collector is only logged.\<close>

definition open_source ::
    "(string \<Rightarrow> string) \<Rightarrow> ('e \<Rightarrow> string) \<Rightarrow> 'e ebpf_env \<Rightarrow> 'e icmp_env \<Rightarrow> agent_settings \<Rightarrow> registration
     \<Rightarrow> ('e ebpf_error + event_source) \<times> held" where
  "open_source ul show_err env ienv cfg reg =
     (if cf_MockMode cfg then (Inr MockSource, nothing_held)
      else case NewEBPF ul show_err env reg (capture_options cfg) of
        (Some err, c) \<Rightarrow> (Inl err, holding c [])
      | (None, c) \<Rightarrow>
          if cl_mode c \<noteq> ''tc'' then
            (case icmp_NewCollector ienv reg (cf_CaptureInterface cfg) of
               (Inl _, fds) \<Rightarrow> (Inr (EBPFSource c), holding c fds)
             | (Inr ic, fds) \<Rightarrow> (Inr (MultiSource c ic), holding c fds))
          else (Inr (EBPFSource c), holding c []))"

text \<open>\<open>source.Close\<close>: the error and what is still held.\<close>

fun close_source :: "'e ebpf_env \<Rightarrow> 'e icmp_env \<Rightarrow> event_source \<Rightarrow> held \<Rightarrow> 'e option \<times> held" where
  "close_source env ienv MockSource h = (None, h)"
| "close_source env ienv (EBPFSource c) h =
     (case ebpf_Close env c of (e, c') \<Rightarrow> (e, holding c' (hd_sockets h)))"
| "close_source env ienv (MultiSource c ic) h =
     (case ebpf_Close env c of (e, c') \<Rightarrow>
        (case icmp_Close ienv ic (hd_sockets h) of (e', _, fds) \<Rightarrow> (multi_Close [e, e'], holding c' fds)))"

section \<open>The run\<close>

text \<open>
  What the agent finds: the link-time version, the environment, the machine, the hash of its
  name, the host of a URL and the resolver, the answers to registration attempts, when the
  context is done while it waits between them, the capture libraries, and the lower-casing
  and error-rendering functions.
\<close>

record 'e world =
  wd_version :: string
  wd_getenv :: "string \<Rightarrow> string"
  wd_machine :: machine
  wd_hash :: "string \<Rightarrow> string"
  wd_hostname :: "string \<Rightarrow> string option"
  wd_lookup :: "string \<Rightarrow> net_ip list option"
  wd_register :: "registration \<Rightarrow> nat \<Rightarrow> 'e + registration_result"
  wd_cancelled :: "nat \<Rightarrow> 'e option"
  wd_ebpf :: "'e ebpf_env"
  wd_icmp :: "'e icmp_env"
  wd_lower :: "string \<Rightarrow> string"
  wd_show :: "'e \<Rightarrow> string"

datatype 'e ending =
    LoadError config_error | FilterError filter_error | RegisterError 'e
  | CaptureError "'e ebpf_error" | TickerPanic | Finished

record running =
  rn_settings :: agent_settings
  rn_registration :: registration
  rn_result :: registration_result
  rn_source :: event_source
  rn_config :: agent_config

text \<open>
  \<open>run\<close> up to its loop: stopped with a reason, or running; with the goroutines started so far
  and what is held. Registration may wait for ever (\<open>None\<close>). \<open>time.NewTicker\<close> panics on an
  interval that is not positive; the deferred \<open>source.Close\<close> runs then as well.
\<close>

datatype 'e start = Stopped "'e ending" "goroutine list" held | Running running "goroutine list" held

definition start_capture ::
    "'e world \<Rightarrow> agent_settings \<Rightarrow> registration \<Rightarrow> agent_config \<Rightarrow> registration_result \<Rightarrow> 'e start" where
  "start_capture W cfg reg loop result =
     (let gs = LifecycleLoop reg (cf_HeartbeatInterval cfg) # probe_Run cfg (rr_AgentID result) in
      case open_source (wd_lower W) (wd_show W) (wd_ebpf W) (wd_icmp W) cfg reg of
        (Inl err, h) \<Rightarrow> Stopped (CaptureError err) gs h
      | (Inr src, h) \<Rightarrow>
          if cf_FlowInterval cfg \<le> 0
          then Stopped TickerPanic (gs @ [CollectorLoop]) (snd (close_source (wd_ebpf W) (wd_icmp W) src h))
          else Running \<lparr>rn_settings = cfg, rn_registration = reg, rn_result = result, rn_source = src,
                        rn_config = loop\<rparr> (gs @ [CollectorLoop, FlowSender]) h)"

definition agent_start :: "'e world \<Rightarrow> 'e start option" where
  "agent_start W =
     (case agent_Load (wd_version W) (wd_getenv W) of
        Inl e \<Rightarrow> Some (Stopped (LoadError e) [] nothing_held)
      | Inr cfg \<Rightarrow>
          let reg = identity_Collect (wd_hash W) (wd_machine W) cfg;
              controlPlane = newEndpointFilter (wd_hostname W) (wd_lookup W) (cf_BackendURL cfg) (cf_IgnoreIPs cfg)
          in case newFlowFilter (cf_AllowCIDRs cfg) (cf_DenyCIDRs cfg) of
            Inl e \<Rightarrow> Some (Stopped (FilterError e) [] nothing_held)
          | Inr flowFilter \<Rightarrow>
              (case registerUntilReady (wd_register W reg) (wd_cancelled W) of
                 None \<Rightarrow> None
               | Some (Inl e, _) \<Rightarrow> Some (Stopped (RegisterError e) [] nothing_held)
               | Some (Inr result, _) \<Rightarrow>
                   Some (start_capture W cfg reg
                     \<lparr>ac_controlPlane = controlPlane, ac_flowFilter = flowFilter, ac_ignorePorts = cf_IgnorePorts cfg\<rparr>
                     result)))"

text \<open>The end of \<open>run\<close> after its loop: the deferred calls, whose errors are dropped.\<close>

fun agent_finish :: "'e world \<Rightarrow> 'e start \<Rightarrow> 'e start" where
  "agent_finish W (Stopped why gs h) = Stopped why gs h"
| "agent_finish W (Running r gs h) =
     Stopped Finished gs (snd (close_source (wd_ebpf W) (wd_icmp W) (rn_source r) h))"

section \<open>Everything is given back\<close>

lemma icmp_NewCollector_open:
  assumes "icmp_NewCollector ienv reg name = (r, fds)"
  shows "case r of Inl _ \<Rightarrow> fds = [] | Inr ic \<Rightarrow> fds = [ic_fd ic] \<and> \<not> ic_closed ic"
  using assms by (auto simp: icmp_NewCollector_def Let_def split: if_splits sum.splits option.splits)

lemma holding_sockets [simp]: "hd_sockets (holding c fds) = fds"
  by (simp add: holding_def)

lemma holding_released: "released c \<Longrightarrow> holding c [] = nothing_held"
  by (simp add: holding_def nothing_held_def released_def)

lemma close_started:
  assumes "started c"
  shows "released (snd (ebpf_Close env c))"
  using Close_releases [of c env] assms by (simp add: started_def released_def)

text \<open>A source is opened completely or not at all, and closing it gives everything back.\<close>

definition source_ok :: "agent_settings \<Rightarrow> (string \<Rightarrow> string) \<Rightarrow> event_source \<Rightarrow> held \<Rightarrow> bool" where
  "source_ok cfg ul src h =
     (let mode = ToLower ul (TrimSpace (cf_CaptureMode cfg)) in
      case src of
        MockSource \<Rightarrow> cf_MockMode cfg \<and> h = nothing_held
      | EBPFSource c \<Rightarrow> \<not> cf_MockMode cfg \<and> started c \<and> capture_ok mode c \<and> h = holding c []
      | MultiSource c ic \<Rightarrow> \<not> cf_MockMode cfg \<and> started c \<and> capture_ok mode c \<and> cl_mode c = ''kprobe''
          \<and> \<not> ic_closed ic \<and> h = holding c [ic_fd ic])"

lemma open_source_ok:
  assumes "open_source ul show_err env ienv cfg reg = (r, h)"
  shows "case r of Inl _ \<Rightarrow> h = nothing_held | Inr src \<Rightarrow> source_ok cfg ul src h"
proof (cases "cf_MockMode cfg")
  case True
  then show ?thesis using assms by (auto simp: open_source_def source_ok_def)
next
  case real: False
  obtain e c where new: "NewEBPF ul show_err env reg (capture_options cfg) = (e, c)" by fastforce
  note phase = NewEBPF_phase [OF new]
  show ?thesis
  proof (cases e)
    case (Some err)
    then show ?thesis using assms real new phase holding_released [of c] by (auto simp: open_source_def start_ok_def)
  next
    case None
    then have c: "started c" "capture_ok (ToLower ul (TrimSpace (cf_CaptureMode cfg))) c"
      using phase by (simp_all add: start_ok_def capture_options_def)
    obtain i fds where icmp: "icmp_NewCollector ienv reg (cf_CaptureInterface cfg) = (i, fds)" by fastforce
    show ?thesis
      using assms real new None c icmp icmp_NewCollector_open [OF icmp]
      by (auto simp: open_source_def source_ok_def capture_ok_def split: if_splits sum.splits)
  qed
qed

lemma close_source_ok:
  assumes "source_ok cfg ul src h"
  shows "snd (close_source env ienv src h) = nothing_held"
proof (cases src)
  case MockSource
  then show ?thesis using assms by (simp add: source_ok_def)
next
  case (EBPFSource c)
  then show ?thesis using assms close_started [of c env]
    by (simp add: source_ok_def Let_def case_prod_unfold holding_released)
next
  case (MultiSource c ic)
  then show ?thesis using assms close_started [of c env]
    by (simp add: source_ok_def Let_def case_prod_unfold icmp_Close_def holding_released)
qed

lemma register_loop_result:
  assumes "register_loop register cancelled delay i waited = Some y"
  shows "case fst y of Inr r \<Rightarrow> \<exists>k. register k = Inr r | Inl c \<Rightarrow> \<exists>k. cancelled k = Some c"
proof (rule register_loop.raw_induct [OF _ assms])
  fix loop register cancelled delay i waited y
  assume IH: "\<And>register cancelled delay i waited y. loop register cancelled delay i waited = Some y
      \<Longrightarrow> case fst y of Inr r \<Rightarrow> \<exists>k. register k = Inr r | Inl c \<Rightarrow> \<exists>k. cancelled k = Some c"
    and body: "(case register i of Inl e \<Rightarrow> (case cancelled i of
        None \<Rightarrow> loop register cancelled (next_delay delay) (i + 1) (waited @ [delay]) | Some c \<Rightarrow> Some (Inl c, waited))
      | Inr r \<Rightarrow> Some (Inr r, waited)) = Some y"
  show "case fst y of Inr r \<Rightarrow> \<exists>k. register k = Inr r | Inl c \<Rightarrow> \<exists>k. cancelled k = Some c"
    using body by (auto split: sum.splits option.splits dest: IH)
qed

text \<open>Whether some registration attempt of the agent succeeded, with which result.\<close>

definition registered_as :: "'e world \<Rightarrow> registration \<Rightarrow> registration_result \<Rightarrow> bool" where
  "registered_as W reg result \<longleftrightarrow> (\<exists>k. wd_register W reg k = Inr result)"

definition start_sound :: "'e world \<Rightarrow> 'e start \<Rightarrow> bool" where
  "start_sound W st =
     (case st of
        Stopped why gs h \<Rightarrow> h = nothing_held \<and> why \<noteq> Finished \<and> (gs \<noteq> [] \<longrightarrow> (\<exists>reg result. registered_as W reg result))
      | Running r gs h \<Rightarrow>
          registered_as W (rn_registration r) (rn_result r) \<and> 0 < cf_FlowInterval (rn_settings r)
          \<and> source_ok (rn_settings r) (wd_lower W) (rn_source r) h)"

lemma start_capture_sound:
  assumes "registered_as W reg result"
  shows "start_sound W (start_capture W cfg reg loop result)"
proof -
  obtain r h where src: "open_source (wd_lower W) (wd_show W) (wd_ebpf W) (wd_icmp W) cfg reg = (r, h)" by fastforce
  show ?thesis
  proof (cases r)
    case (Inl err)
    then show ?thesis using src open_source_ok [OF src] assms by (auto simp: start_capture_def start_sound_def Let_def)
  next
    case (Inr s)
    then have ok: "source_ok cfg (wd_lower W) s h" using open_source_ok [OF src] by simp
    then show ?thesis using src Inr assms close_source_ok [OF ok]
      by (auto simp: start_capture_def start_sound_def Let_def)
  qed
qed

lemma agent_start_sound:
  assumes "agent_start W = Some st"
  shows "start_sound W st"
proof (cases "agent_Load (wd_version W) (wd_getenv W)")
  case (Inl e)
  then show ?thesis using assms by (auto simp: agent_start_def start_sound_def)
next
  case load: (Inr cfg)
  show ?thesis
  proof (cases "newFlowFilter (cf_AllowCIDRs cfg) (cf_DenyCIDRs cfg)")
    case (Inl e)
    then show ?thesis using assms load by (auto simp: agent_start_def start_sound_def Let_def)
  next
    case filter: (Inr ff)
    let ?reg = "identity_Collect (wd_hash W) (wd_machine W) cfg"
    obtain out ws where reg: "registerUntilReady (wd_register W ?reg) (wd_cancelled W) = Some (out, ws)"
      using assms load filter by (auto simp: agent_start_def Let_def split: option.splits)
    have "case out of Inr res \<Rightarrow> registered_as W ?reg res | Inl c \<Rightarrow> True"
      using register_loop_result [OF reg [unfolded registerUntilReady_def]]
      by (auto simp: registered_as_def split: sum.splits)
    then show ?thesis
      using assms load filter reg start_capture_sound [of W ?reg]
      by (cases out) (auto simp: agent_start_def Let_def start_sound_def [of W "Stopped _ _ _"])
  qed
qed

text \<open>
  C9. The agent gives back what it took, however it stops. When the start ends before the main
  loop, for whatever reason (a bad variable, a malformed CIDR, a cancelled registration, a
  failing capture, a flow interval that is not positive), no hook, reader, eBPF collection or
  packet socket is left, and a goroutine was started only if a registration had succeeded
  before. When the main loop is reached, the registration it works under was granted, the
  flow interval is positive, the source was opened completely in the configured mode, and
  the deferred calls after the loop leave nothing held.
\<close>

theorem agent_run_releases:
  assumes "agent_start W = Some st"
  shows "case st of
      Stopped why gs h \<Rightarrow> h = nothing_held \<and> why \<noteq> Finished \<and> (gs \<noteq> [] \<longrightarrow> (\<exists>reg result. registered_as W reg result))
    | Running r gs h \<Rightarrow>
        registered_as W (rn_registration r) (rn_result r) \<and> 0 < cf_FlowInterval (rn_settings r)
        \<and> source_ok (rn_settings r) (wd_lower W) (rn_source r) h
        \<and> agent_finish W st = Stopped Finished gs nothing_held"
  using agent_start_sound [OF assms] close_source_ok
  by (cases st) (auto simp: start_sound_def)

text \<open>An agent with the default configuration whose second registration attempt succeeds.\<close>

definition demo_machine :: machine where
  "demo_machine = \<lparr>mc_hostname = ''web1'', mc_machine_id = ''m1'', mc_routes = [], mc_interfaces = [],
     mc_os_release = None, mc_kernel = ''6.8''\<rparr>"

definition demo_world :: "string world" where
  "demo_world = \<lparr>wd_version = ''dev'', wd_getenv = (\<lambda>_. []),
     wd_machine = demo_machine, wd_hash = id, wd_hostname = (\<lambda>_. Some ''10.0.0.1''), wd_lookup = (\<lambda>_. None),
     wd_register = (\<lambda>reg k. if k = 0 then Inl ''refused'' else Inr \<lparr>rr_AgentID = rg_AgentID reg, rr_VMID = ''v1'', rr_Status = ''online''\<rparr>),
     wd_cancelled = (\<lambda>_. None),
     wd_ebpf = \<lparr>ev_rlimit = None, ev_spec = None, ev_collection = None, ev_program = (\<lambda>_. True), ev_ignored_map = False,
       ev_events_map = True, ev_put = (\<lambda>_. None), ev_attach = (\<lambda>_. None), ev_iface = (\<lambda>_. None), ev_reader = None,
       ev_close = (\<lambda>_. Some ''busy''), ev_close_reader = None\<rparr>,
     wd_icmp = \<lparr>in_index = (\<lambda>_. Inr 2), in_socket = Inr 7, in_bind = (\<lambda>_ _. None), in_close = (\<lambda>_. None)\<rparr>,
     wd_lower = id, wd_show = id\<rparr>"

lemma demo_registers:
  "registerUntilReady (wd_register demo_world reg) (wd_cancelled demo_world)
     = Some (Inr \<lparr>rr_AgentID = rg_AgentID reg, rr_VMID = ''v1'', rr_Status = ''online''\<rparr>, [Second])"
  unfolding registerUntilReady_def
  by (subst register_loop.simps, simp add: demo_world_def, subst register_loop.simps, simp)

lemma demo_captures:
  assumes "eo_CaptureMode opts = ''tc''" "eo_CaptureInterface opts = ''ens3''"
  shows "\<exists>c. NewEBPF id id (wd_ebpf demo_world) reg opts = (None, c) \<and> cl_mode c = ''tc'' \<and> length (cl_open c) = 7"
proof -
  have words: "ToLower id (TrimSpace ''tc'') = ''tc''" "TrimSpace ''ens3'' = ''ens3''" by code_simp+
  show ?thesis
    by (simp add: NewEBPF_def assms words configureIgnoredPorts_def attach_phase_def attachTCX_def no_resources_def
        tcpMetricAttachments_def kprobe_def open_reader_def demo_world_def Let_def)
qed

lemma demo_world_starts: "\<exists>r gs h. agent_start demo_world = Some (Running r gs h) \<and> length (hd_hooks h) = 7"
proof -
  obtain cfg where cfg: "agent_Load ''dev'' (\<lambda>_. []) = Inr cfg" "cf_CaptureMode cfg = ''tc''" "cf_CaptureInterface cfg = ''ens3''"
      "\<not> cf_MockMode cfg" "cf_FlowInterval cfg = 2 * Second" "cf_AllowCIDRs cfg = []" "cf_DenyCIDRs cfg = []"
    using agent_defaults [of "''dev''"] by blast
  have world: "wd_version demo_world = ''dev''" "wd_getenv demo_world = (\<lambda>_. [])" "wd_lower demo_world = id" "wd_show demo_world = id"
    by (simp_all add: demo_world_def)
  have lists: "newFlowFilter [] [] = Inr \<lparr>allow = [], deny = []\<rparr>" by (simp add: newFlowFilter_def)
  let ?reg = "identity_Collect (wd_hash demo_world) (wd_machine demo_world) cfg"
  obtain c where "NewEBPF id id (wd_ebpf demo_world) ?reg (capture_options cfg) = (None, c)" "cl_mode c = ''tc''" "length (cl_open c) = 7"
    using demo_captures [of "capture_options cfg" ?reg] cfg by (auto simp: capture_options_def)
  then show ?thesis
    by (simp add: agent_start_def world cfg lists demo_registers start_capture_def open_source_def Let_def holding_def duration_defs)
qed

theorem agent_run_releases_witness:
  "\<exists>r gs h. agent_start demo_world = Some (Running r gs h) \<and> length (hd_hooks h) = 7
     \<and> agent_finish demo_world (Running r gs h) = Stopped Finished gs nothing_held"
proof -
  obtain r gs h where st: "agent_start demo_world = Some (Running r gs h)" "length (hd_hooks h) = 7"
    using demo_world_starts by blast
  with agent_run_releases [OF st(1)] show ?thesis by auto
qed

section \<open>What a started agent observes\<close>

text \<open>
  The events that the settings let through: the destination is an address, not unspecified,
  not loopback and none of the control plane's, no port is ignored, and the CIDR lists agree.
\<close>

definition observable :: "'e world \<Rightarrow> agent_settings \<Rightarrow> flow_metric \<Rightarrow> bool" where
  "observable W cfg e \<longleftrightarrow>
     (\<exists>p. ParseIP (fm_DstIP e) = Some p \<and> \<not> IP_IsUnspecified p \<and> \<not> IP_IsLoopback p
        \<and> p \<notin> To16 ` endpoint_ips (wd_hostname W) (wd_lookup W) (cf_BackendURL cfg) (cf_IgnoreIPs cfg))
     \<and> fm_SrcPort e \<notin> set (cf_IgnorePorts cfg) \<and> fm_DstPort e \<notin> set (cf_IgnorePorts cfg)
     \<and> (ParseAddr (fm_SrcIP e) \<noteq> None \<or> ParseAddr (fm_DstIP e) \<noteq> None)
     \<and> \<not> flow_hits (cf_DenyCIDRs cfg) e \<and> (cf_AllowCIDRs cfg = [] \<or> flow_hits (cf_AllowCIDRs cfg) e)"

lemma ignoreFlow_new:
  assumes "\<forall>host ips. lookup host = Some ips \<longrightarrow> list_all ip_wf ips"
  shows "\<not> ignoreFlow (newEndpointFilter hostname lookup url raws) e ports \<longleftrightarrow>
    (\<exists>p. ParseIP (fm_DstIP e) = Some p \<and> \<not> IP_IsUnspecified p \<and> \<not> IP_IsLoopback p
       \<and> p \<notin> To16 ` endpoint_ips hostname lookup url raws)
    \<and> fm_SrcPort e \<notin> set ports \<and> fm_DstPort e \<notin> set ports"
  by (cases "ParseIP (fm_DstIP e)") (auto simp: ignoreFlow_def endpoint_matches_new [OF assms] list_ex_iff image_iff)

lemma running_config:
  assumes "agent_start W = Some (Running r gs h)"
  obtains ff where "newFlowFilter (cf_AllowCIDRs (rn_settings r)) (cf_DenyCIDRs (rn_settings r)) = Inr ff"
    "rn_config r = \<lparr>ac_controlPlane = newEndpointFilter (wd_hostname W) (wd_lookup W) (cf_BackendURL (rn_settings r)) (cf_IgnoreIPs (rn_settings r)),
       ac_flowFilter = ff, ac_ignorePorts = cf_IgnorePorts (rn_settings r)\<rparr>"
proof -
  obtain cfg where load: "agent_Load (wd_version W) (wd_getenv W) = Inr cfg"
    using assms by (auto simp: agent_start_def split: sum.splits)
  obtain ff where ff: "newFlowFilter (cf_AllowCIDRs cfg) (cf_DenyCIDRs cfg) = Inr ff"
    using assms load by (auto simp: agent_start_def Let_def split: sum.splits)
  have "rn_settings r = cfg \<and> rn_config r = \<lparr>ac_controlPlane =
      newEndpointFilter (wd_hostname W) (wd_lookup W) (cf_BackendURL cfg) (cf_IgnoreIPs cfg), ac_flowFilter = ff,
      ac_ignorePorts = cf_IgnorePorts cfg\<rparr>"
    using assms load ff
    by (auto simp: agent_start_def start_capture_def Let_def split: option.splits sum.splits prod.splits if_splits)
  then show ?thesis using that ff by simp
qed

lemma running_admits:
  assumes "\<forall>host ips. wd_lookup W host = Some ips \<longrightarrow> list_all ip_wf ips"
    and "agent_start W = Some (Running r gs h)"
  shows "admits (ac_controlPlane (rn_config r)) (ac_flowFilter (rn_config r)) (ac_ignorePorts (rn_config r)) e
    \<longleftrightarrow> observable W (rn_settings r) e"
proof (rule running_config [OF assms(2)])
  fix ff
  assume "newFlowFilter (cf_AllowCIDRs (rn_settings r)) (cf_DenyCIDRs (rn_settings r)) = Inr ff"
    and "rn_config r = \<lparr>ac_controlPlane = newEndpointFilter (wd_hostname W) (wd_lookup W) (cf_BackendURL (rn_settings r)) (cf_IgnoreIPs (rn_settings r)),
       ac_flowFilter = ff, ac_ignorePorts = cf_IgnorePorts (rn_settings r)\<rparr>"
  then show ?thesis
    using flow_filter_decides [of _ _ ff e] by (simp add: admits_def ignoreFlow_new [OF assms(1)] observable_def)
qed

text \<open>
  C8. A started agent observes exactly what its configuration allows. In every state that the
  main loop of a started agent can reach, every stored event is observable under the loaded
  settings: it does not go to the backend's address or an \<open>IGNORE_IPS\<close> entry, however it is
  spelled and whether or not the address came from the resolver, nor to a loopback or
  unspecified address, uses no ignored port, and is let through by the CIDR lists; and the next
  event is stored if and only if it is observable. The resolver is assumed to return 4- or
  16-byte addresses.
\<close>

theorem agent_observes_exactly:
  assumes "\<forall>host ips. wd_lookup W host = Some ips \<longrightarrow> list_all ip_wf ips"
    and "agent_start W = Some (Running r gs h)" and "agent_reachable (rn_config r) s"
  shows "list_all (observable W (rn_settings r)) (admitted s)
    \<and> admitted (on_event (rn_config r) e s) = admitted s @ (if observable W (rn_settings r) e then [e] else [])"
  using agent_inv_reachable [OF assms(3)] running_admits [OF assms(1,2)]
  by (auto simp: agent_inv_def list_all_iff on_event_def admits_def)

theorem agent_observes_exactly_witness:
  "\<exists>r gs h. agent_start demo_world = Some (Running r gs h)
     \<and> admitted (on_event (rn_config r) (flow_metric_zero\<lparr>fm_DstIP := ''10.0.0.1'', fm_DstPort := 443\<rparr>) agent_init) = []"
proof -
  let ?e = "flow_metric_zero\<lparr>fm_DstIP := ''10.0.0.1'', fm_DstPort := 443\<rparr>"
  obtain r gs h where st: "agent_start demo_world = Some (Running r gs h)"
    using demo_world_starts by blast
  let ?ip = "replicate 10 0 @ [255, 255, 10, 0, 0, 1] :: net_ip"
  have ip: "ParseIP ''10.0.0.1'' = Some ?ip" "To16 ?ip = ?ip" by code_simp+
  have "wd_hostname demo_world = (\<lambda>_. Some ''10.0.0.1'')" by (simp add: demo_world_def)
  then have "?ip \<in> endpoint_ips (wd_hostname demo_world) (wd_lookup demo_world) (cf_BackendURL (rn_settings r)) (cf_IgnoreIPs (rn_settings r))"
    using ip(1) by (simp add: endpoint_ips_def)
  then have "?ip \<in> To16 ` endpoint_ips (wd_hostname demo_world) (wd_lookup demo_world) (cf_BackendURL (rn_settings r)) (cf_IgnoreIPs (rn_settings r))"
    using ip(2) by (metis image_eqI)
  then have "\<not> observable demo_world (rn_settings r) ?e" using ip(1) by (simp add: observable_def)
  moreover have "\<forall>host ips. wd_lookup demo_world host = Some ips \<longrightarrow> list_all ip_wf ips" by (simp add: demo_world_def)
  ultimately show ?thesis
    using st agent_observes_exactly [OF _ st agent_reachable.Init, of ?e] by (auto simp: agent_init_def)
qed

text \<open>
  An accepted configuration can still end the agent: with a flow interval that is not positive,
  which \<open>Load\<close> accepts, the agent registers, starts its goroutines and opens its collectors, and
  then the ticker of the main loop panics.
\<close>

lemma nonpositive_interval_panics:
  assumes "agent_Load (wd_version W) (wd_getenv W) = Inr cfg" and "cf_FlowInterval cfg \<le> 0"
    and "newFlowFilter (cf_AllowCIDRs cfg) (cf_DenyCIDRs cfg) = Inr ff"
    and "registerUntilReady (wd_register W reg) (wd_cancelled W) = Some (Inr result, ws)"
    and "reg = identity_Collect (wd_hash W) (wd_machine W) cfg"
    and "open_source (wd_lower W) (wd_show W) (wd_ebpf W) (wd_icmp W) cfg reg = (Inr src, h)"
  shows "\<exists>gs. agent_start W = Some (Stopped TickerPanic gs nothing_held) \<and> LifecycleLoop reg (cf_HeartbeatInterval cfg) \<in> set gs"
proof -
  have "source_ok cfg (wd_lower W) src h" using open_source_ok [OF assms(6)] by simp
  then show ?thesis
    using assms close_source_ok by (auto simp: agent_start_def start_capture_def Let_def)
qed

section \<open>The background loops\<close>

text \<open>A failed heartbeat is followed at once by a registration, and there is one heartbeat per tick.\<close>

lemma lifecycle_calls:
  assumes "LifecycleDone \<notin> set evs"
  shows "lifecycle_Run reg evs = concat (map (\<lambda>ev. case ev of LifecycleTick now ok \<Rightarrow>
      SendHeartbeat \<lparr>hp_AgentID = rg_AgentID reg, hp_Status = ''online'', hp_Timestamp = now\<rparr>
      # (if ok then [] else [SendRegister reg]) | LifecycleDone \<Rightarrow> []) evs)"
  using assms by (induction reg evs rule: lifecycle_Run.induct) auto

lemma lifecycle_done: "lifecycle_Run reg (evs @ LifecycleDone # later) = lifecycle_Run reg evs"
  by (induction reg evs rule: lifecycle_Run.induct) auto

text \<open>The probe listener closes every connection it takes, and returns only when it may.\<close>

lemma serve_loop_closes: "serve_loop accepts taken taken = (t, c, r) \<Longrightarrow> c = t \<and> (r \<longrightarrow> AcceptError True \<in> set accepts)"
  by (induction accepts taken taken rule: serve_loop.induct) (auto split: if_splits)

lemma serveTCP_closes: "serveTCP listening accepts = (t, c, r) \<Longrightarrow> c = t \<and> (r \<longrightarrow> \<not> listening \<or> AcceptError True \<in> set accepts)"
  by (auto simp: serveTCP_def split: if_splits dest: serve_loop_closes)

text \<open>
  No probe is sent to the agent's own address or to an empty one, and every reported event is
  marked as not being user traffic.
\<close>

lemma runTargetLoop_events:
  assumes "e \<in> set (runTargetLoop (probeTarget (tcpConnect dial) elapsed now timeout agent) evs)"
  shows "pe_DestIP e \<noteq> [] \<and> pe_DestIP e \<noteq> pe_SourceIP e \<and> pe_AgentID e = agent \<and> 0 < pe_DestPort e
    \<and> \<not> pe_CountedAsRequest e \<and> \<not> pe_CountedAsUserTraffic e \<and> (pe_Success e \<longrightarrow> pe_Error e = [])"
  using assms
proof (induction "probeTarget (tcpConnect dial) elapsed now timeout agent" evs rule: runTargetLoop.induct)
  case (3 ts evs)
  then show ?case
    by (auto simp: probeTargets_def probeTarget_def tcpConnect_def Let_def split: option.splits if_splits)
qed auto

text \<open>
  Mock traffic looks like captured traffic: every event is an egress event of this agent over TCP
  or UDP between valid ports, ends at its tick after a positive duration, and carries positive
  counters. The random source is assumed to draw below its bound.
\<close>

lemma mock_Run_events:
  assumes "e \<in> set (mock_Run ul reg ticks)"
    and "\<forall>now intn. MockTick now intn \<in> set ticks \<longrightarrow> (\<forall>i n. 0 < n \<longrightarrow> 0 \<le> intn i n \<and> intn i n < n)"
  shows "fm_AgentID e = rg_AgentID reg \<and> fm_Protocol e \<in> {ProtocolTCP, ProtocolUDP} \<and> fm_Direction e = Egress
    \<and> fm_SrcPort e \<in> {32000..<57000} \<and> fm_DstPort e \<in> {1..65535} \<and> fm_FirstSeen e < fm_LastSeen e
    \<and> 27000 \<le> fm_ByteCount e \<and> 0 < fm_PacketCount e \<and> fm_ConnectionCount e \<in> {1..3}"
  using assms
proof (induction ul reg ticks rule: mock_Run.induct)
  case (3 ul reg now intn ticks)
  show ?case
  proof (cases "e = mock_event ul intn reg now")
    case True
    let ?ds = "mock_destinations ul reg"
    have draw: "0 \<le> intn i n \<and> intn i n < n" if "0 < n" for i n using 3(3) that by auto
    have len: "0 < length ?ds" by (simp add: mock_destinations_def Let_def)
    then have "nat (intn 0 (int (length ?ds))) < length ?ds" using draw [of "int (length ?ds)" 0] by linarith
    then have "?ds ! nat (intn 0 (int (length ?ds))) \<in> set ?ds" by (rule nth_mem)
    moreover have "\<forall>x\<in>set ?ds. md_port x \<in> {1..65535} \<and> md_protocol x \<in> {ProtocolTCP, ProtocolUDP}"
      by (simp add: mock_destinations_def Let_def)
    ultimately show ?thesis
      using True draw [of 2500000 1] draw [of 350000 2] draw [of 3 3] draw [of 25000 4] draw [of 900 5]
      by (auto simp: mock_event_def Let_def duration_defs)
  next
    case False
    then show ?thesis using 3 by auto
  qed
qed auto

end
