(* ===== verification/Fan_In.thy ===== *)
theory Fan_In
  imports Collectors
begin

text \<open>
  The goroutines of the agent's collectors: the read loops of the eBPF and the ICMP collector
  (\<open>features/traffic/packet/ebpf_collector.go\<close>, \<open>features/protocols/network/icmp/collector.go\<close>) as
  functions of what the kernel delivers, and \<open>MultiCollector.Run\<close>
  (\<open>features/traffic/packet/multi_collector.go\<close>) as a step relation over its forwarding goroutines
  and channels. The properties are that merging neither loses, reorders nor invents an event of a
  source, never sends on a closed channel, and finishes once its sources do.
\<close>

section \<open>Read loops\<close>

text \<open>What \<open>ringbuf.Reader.Read\<close> returns, with the time at which it does.\<close>

datatype 'x ring_read = RingSample gotime "u8 list" | RingClosed | RingError 'x

datatype 'x emission = Event flow_metric | ReadFailed 'x | DecodeFailed decode_error

text \<open>
  The loop of \<open>EBPFCollector.Run\<close>: the emissions on the two channels in order, and whether the
  loop has ended, which closes both.
\<close>

fun ebpf_Run :: "ebpf_collector \<Rightarrow> 'x ring_read list \<Rightarrow> 'x emission list \<times> bool" where
  "ebpf_Run c [] = ([], False)"
| "ebpf_Run c (RingClosed # reads) = ([], True)"
| "ebpf_Run c (RingError x # reads) = ([ReadFailed x], True)"
| "ebpf_Run c (RingSample now sample # reads) =
     (let rest = ebpf_Run c reads in
      case decodeRawFlowEvent sample of
        Inl e \<Rightarrow> (DecodeFailed e # fst rest, snd rest)
      | Inr raw \<Rightarrow> (Event (ebpf_convert now c raw) # fst rest, snd rest))"

text \<open>
  What \<open>unix.Recvfrom\<close> returns: a frame with its packet type, or an error together with the
  facts the loop tests: whether the context is done, and whether the socket is gone
  (\<open>EBADF\<close>, \<open>EINVAL\<close>). A frame may also arrive after the context is done; \<open>sent\<close> is the branch the
  \<open>select\<close> takes.
\<close>

datatype 'x packet_read =
    Frame (fr_now: gotime) (fr_bytes: "u8 list") (fr_type: "u8 option") (fr_sent: bool)
  | RecvError (re_done: bool) (re_gone: bool) (re_error: 'x)

fun icmp_Run :: "registration \<Rightarrow> string \<Rightarrow> 'x packet_read list \<Rightarrow> 'x emission list \<times> bool" where
  "icmp_Run reg iface [] = ([], False)"
| "icmp_Run reg iface (RecvError cancelled gone x # reads) =
     (if cancelled then ([], True)
      else if gone then ([], True)
      else let rest = icmp_Run reg iface reads in (ReadFailed x # fst rest, snd rest))"
| "icmp_Run reg iface (Frame now bytes ty sent # reads) =
     (case icmp_parse now reg iface bytes ty of
        None \<Rightarrow> icmp_Run reg iface reads
      | Some e \<Rightarrow>
          if sent then (let rest = icmp_Run reg iface reads in (Event e # fst rest, snd rest))
          else ([], True))"

section \<open>Forwarding goroutines\<close>

datatype 'e forwarder = Waiting | Holding 'e | Stopped

text \<open>
  A source with its forwarder: what the source has put into its channel so far, what is still in
  the channel, and whether it closed it.
\<close>

record 'e lane =
  ln_sent :: "'e list"
  ln_queue :: "'e list"
  ln_closed :: bool
  ln_fwd :: "'e forwarder"

text \<open>The merged channel, each element with its source, and what its reader has received.\<close>

record 'e fan =
  lanes :: "nat \<Rightarrow> 'e lane"
  merged :: "(nat \<times> 'e) list"
  received :: "(nat \<times> 'e) list"

definition set_lane :: "nat \<Rightarrow> 'e lane \<Rightarrow> 'e fan \<Rightarrow> 'e fan" where
  "set_lane i l f = f\<lparr>lanes := (lanes f)(i := l)\<rparr>"

text \<open>
  The steps with \<open>n\<close> sources and a merged channel of capacity \<open>cap\<close>; a forwarder gives up an
  element it holds only after the context is done.
\<close>

inductive fan_step :: "nat \<Rightarrow> nat \<Rightarrow> bool \<Rightarrow> 'e fan \<Rightarrow> 'e fan \<Rightarrow> bool" for n cap cancelled where
  put: "i < n \<Longrightarrow> \<not> ln_closed (lanes f i) \<Longrightarrow>
    fan_step n cap cancelled f
      (set_lane i ((lanes f i)\<lparr>ln_sent := ln_sent (lanes f i) @ [e], ln_queue := ln_queue (lanes f i) @ [e]\<rparr>) f)"
| shut: "i < n \<Longrightarrow> fan_step n cap cancelled f (set_lane i ((lanes f i)\<lparr>ln_closed := True\<rparr>) f)"
| pick: "i < n \<Longrightarrow> ln_fwd (lanes f i) = Waiting \<Longrightarrow> ln_queue (lanes f i) = e # q \<Longrightarrow>
    fan_step n cap cancelled f (set_lane i ((lanes f i)\<lparr>ln_queue := q, ln_fwd := Holding e\<rparr>) f)"
| finish: "i < n \<Longrightarrow> ln_fwd (lanes f i) = Waiting \<Longrightarrow> ln_queue (lanes f i) = [] \<Longrightarrow> ln_closed (lanes f i) \<Longrightarrow>
    fan_step n cap cancelled f (set_lane i ((lanes f i)\<lparr>ln_fwd := Stopped\<rparr>) f)"
| forward: "i < n \<Longrightarrow> ln_fwd (lanes f i) = Holding e \<Longrightarrow> length (merged f) < cap \<Longrightarrow>
    fan_step n cap cancelled f ((set_lane i ((lanes f i)\<lparr>ln_fwd := Waiting\<rparr>) f)\<lparr>merged := merged f @ [(i, e)]\<rparr>)"
| abandon: "i < n \<Longrightarrow> ln_fwd (lanes f i) = Holding e \<Longrightarrow> cancelled \<Longrightarrow>
    fan_step n cap cancelled f (set_lane i ((lanes f i)\<lparr>ln_fwd := Stopped\<rparr>) f)"
| receive: "merged f = x # xs \<Longrightarrow> fan_step n cap cancelled f (f\<lparr>merged := xs, received := received f @ [x]\<rparr>)"

text \<open>The collector: events and errors are merged alike, with capacities 1024 and the number of sources.\<close>

record ('e, 'x) multi =
  mc_events :: "'e fan"
  mc_errors :: "'x fan"
  mc_done :: bool
  mc_closed :: bool

definition all_stopped :: "nat \<Rightarrow> 'e fan \<Rightarrow> bool" where
  "all_stopped n f \<longleftrightarrow> (\<forall>i<n. ln_fwd (lanes f i) = Stopped)"

inductive multi_step :: "nat \<Rightarrow> ('e, 'x) multi \<Rightarrow> ('e, 'x) multi \<Rightarrow> bool" for n where
  event_step: "fan_step n 1024 (mc_done m) (mc_events m) f \<Longrightarrow> multi_step n m (m\<lparr>mc_events := f\<rparr>)"
| error_step: "fan_step n n (mc_done m) (mc_errors m) f \<Longrightarrow> multi_step n m (m\<lparr>mc_errors := f\<rparr>)"
| cancel: "multi_step n m (m\<lparr>mc_done := True\<rparr>)"
| close_channels: "all_stopped n (mc_events m) \<Longrightarrow> all_stopped n (mc_errors m) \<Longrightarrow> multi_step n m (m\<lparr>mc_closed := True\<rparr>)"

definition fan_init :: "'e fan" where
  "fan_init = \<lparr>lanes = (\<lambda>_. \<lparr>ln_sent = [], ln_queue = [], ln_closed = False, ln_fwd = Waiting\<rparr>), merged = [], received = []\<rparr>"

definition multi_init :: "('e, 'x) multi" where
  "multi_init = \<lparr>mc_events = fan_init, mc_errors = fan_init, mc_done = False, mc_closed = False\<rparr>"

inductive multi_reachable :: "nat \<Rightarrow> ('e, 'x) multi \<Rightarrow> bool" for n where
  start: "multi_reachable n multi_init"
| step: "multi_reachable n m \<Longrightarrow> multi_step n m m' \<Longrightarrow> multi_reachable n m'"

section \<open>The invariant\<close>

definition of_source :: "nat \<Rightarrow> (nat \<times> 'e) list \<Rightarrow> 'e list" where
  "of_source i xs = map snd (filter (\<lambda>x. fst x = i) xs)"

definition held :: "'e forwarder \<Rightarrow> 'e list" where
  "held w = (case w of Holding e \<Rightarrow> [e] | _ \<Rightarrow> [])"

lemma of_source_simps [simp]:
  "of_source i [] = []" "of_source i (xs @ ys) = of_source i xs @ of_source i ys"
  "of_source i [(j, e)] = (if j = i then [e] else [])"
  by (simp_all add: of_source_def)

lemma held_simps [simp]: "held Waiting = []" "held (Holding e) = [e]" "held Stopped = []"
  by (simp_all add: held_def)

text \<open>
  Everything a source sent is, in this order, received, merged, held by the forwarder or still in
  the source's channel; after the context is done a prefix of it is received or merged.
\<close>

definition lane_ok :: "bool \<Rightarrow> 'e fan \<Rightarrow> nat \<Rightarrow> bool" where
  "lane_ok cancelled f i \<longleftrightarrow>
     (let l = lanes f i; seen = of_source i (received f @ merged f) in
      (\<exists>dropped. ln_sent l = seen @ held (ln_fwd l) @ dropped @ ln_queue l
         \<and> (dropped \<noteq> [] \<longrightarrow> cancelled \<and> ln_fwd l = Stopped))
      \<and> (ln_fwd l = Stopped \<longrightarrow> cancelled \<or> ln_queue l = [] \<and> ln_closed l))"

definition fan_inv :: "nat \<Rightarrow> nat \<Rightarrow> bool \<Rightarrow> 'e fan \<Rightarrow> bool" where
  "fan_inv n cap cancelled f \<longleftrightarrow>
     (\<forall>i<n. lane_ok cancelled f i) \<and> length (merged f) \<le> cap \<and> fst ` set (received f @ merged f) \<subseteq> {..<n}"

lemma set_lane_simps [simp]:
  "lanes (set_lane i l f) j = (if j = i then l else lanes f j)" "merged (set_lane i l f) = merged f" "received (set_lane i l f) = received f"
  by (simp_all add: set_lane_def)

lemma fan_inv_init: "fan_inv n cap cancelled fan_init"
  by (simp add: fan_inv_def fan_init_def lane_ok_def Let_def)

lemma fan_inv_cancel: "fan_inv n cap cancelled f \<Longrightarrow> fan_inv n cap True f"
  by (fastforce simp: fan_inv_def lane_ok_def Let_def)

lemma fan_inv_step:
  assumes "fan_step n cap cancelled f f'" "fan_inv n cap cancelled f"
  shows "fan_inv n cap cancelled f'"
  using assms
proof (induction rule: fan_step.induct)
  case (put i f e)
  then show ?case by (fastforce simp: fan_inv_def lane_ok_def Let_def)
next
  case (shut i f)
  then show ?case by (fastforce simp: fan_inv_def lane_ok_def Let_def)
next
  case (pick i f e q)
  then show ?case by (fastforce simp: fan_inv_def lane_ok_def Let_def)
next
  case (finish i f)
  then show ?case by (fastforce simp: fan_inv_def lane_ok_def Let_def)
next
  case (forward i f e)
  then show ?case by (fastforce simp: fan_inv_def lane_ok_def Let_def)
next
  case (abandon i f e)
  then show ?case by (fastforce simp: fan_inv_def lane_ok_def Let_def)
next
  case (receive f x xs)
  then show ?case by (fastforce simp: fan_inv_def lane_ok_def Let_def)
qed

definition multi_inv :: "nat \<Rightarrow> ('e, 'x) multi \<Rightarrow> bool" where
  "multi_inv n m \<longleftrightarrow>
     fan_inv n 1024 (mc_done m) (mc_events m) \<and> fan_inv n n (mc_done m) (mc_errors m)
     \<and> (mc_closed m \<longrightarrow> all_stopped n (mc_events m) \<and> all_stopped n (mc_errors m))"

lemma all_stopped_step: "fan_step n cap cancelled f f' \<Longrightarrow> all_stopped n f \<Longrightarrow> all_stopped n f'"
  by (induction rule: fan_step.induct) (auto simp: all_stopped_def)

lemma multi_inv_step: "multi_step n m m' \<Longrightarrow> multi_inv n m \<Longrightarrow> multi_inv n m'"
  by (induction rule: multi_step.induct) (auto simp: multi_inv_def intro: fan_inv_step fan_inv_cancel all_stopped_step)

lemma multi_reachable_inv: "multi_reachable n m \<Longrightarrow> multi_inv n m"
proof (induction rule: multi_reachable.induct)
  case start
  show ?case by (simp add: multi_inv_def multi_init_def fan_inv_init)
qed (rule multi_inv_step)

lemma lane_prefix:
  assumes "fan_inv n cap cancelled f" "i < n"
  shows "\<exists>rest. ln_sent (lanes f i) = of_source i (received f @ merged f) @ rest"
  using assms by (auto simp: fan_inv_def lane_ok_def Let_def)

lemma stopped_complete:
  assumes "fan_inv n cap False f" "i < n" "all_stopped n f"
  shows "of_source i (received f @ merged f) = ln_sent (lanes f i)"
  using assms by (fastforce simp: fan_inv_def lane_ok_def Let_def all_stopped_def)

text \<open>
  C20. Merging the collectors loses, reorders and invents nothing. In every reachable state of
  \<open>MultiCollector.Run\<close>, whatever the interleaving of sources, forwarders and reader, the events
  that left a source are at any time, in its order, a prefix of those it sent; every merged
  event is one of a source and the merged channel holds at most 1024. Once the channels are
  closed, no forwarder is left that could send on them; and unless the agent was stopped,
  everything each source sent, events and errors, has then been merged.
\<close>

theorem fan_in_exact:
  assumes "multi_reachable n m"
  shows "(\<forall>i<n. \<exists>rest. ln_sent (lanes (mc_events m) i) = of_source i (received (mc_events m) @ merged (mc_events m)) @ rest)
    \<and> fst ` set (received (mc_events m) @ merged (mc_events m)) \<subseteq> {..<n} \<and> length (merged (mc_events m)) \<le> 1024
    \<and> (mc_closed m \<longrightarrow> all_stopped n (mc_events m) \<and> all_stopped n (mc_errors m)
         \<and> (\<not> mc_done m \<longrightarrow> (\<forall>i<n.
              of_source i (received (mc_events m) @ merged (mc_events m)) = ln_sent (lanes (mc_events m) i)
              \<and> of_source i (received (mc_errors m) @ merged (mc_errors m)) = ln_sent (lanes (mc_errors m) i))))"
proof -
  have inv: "fan_inv n 1024 (mc_done m) (mc_events m)" "fan_inv n n (mc_done m) (mc_errors m)"
    "mc_closed m \<longrightarrow> all_stopped n (mc_events m) \<and> all_stopped n (mc_errors m)"
    using multi_reachable_inv [OF assms] by (simp_all add: multi_inv_def)
  have "of_source i (received (mc_events m) @ merged (mc_events m)) = ln_sent (lanes (mc_events m) i)
      \<and> of_source i (received (mc_errors m) @ merged (mc_errors m)) = ln_sent (lanes (mc_errors m) i)"
    if "mc_closed m" "\<not> mc_done m" "i < n" for i
    using inv that stopped_complete [of n _ _ i] by (metis (full_types))
  moreover have "fst ` set (received (mc_events m) @ merged (mc_events m)) \<subseteq> {..<n} \<and> length (merged (mc_events m)) \<le> 1024"
    using inv(1) by (simp add: fan_inv_def)
  ultimately show ?thesis using inv lane_prefix [OF inv(1)] by blast
qed

section \<open>Progress\<close>

definition weight :: "'e lane \<Rightarrow> nat" where
  "weight l =
     (case ln_fwd l of Stopped \<Rightarrow> 0 | Waiting \<Rightarrow> 1 + 3 * length (ln_queue l) | Holding _ \<Rightarrow> 3 + 3 * length (ln_queue l))"

definition pending :: "nat \<Rightarrow> 'e fan \<Rightarrow> nat" where
  "pending n f = (\<Sum>i<n. weight (lanes f i)) + length (merged f)"

definition sources_closed :: "nat \<Rightarrow> 'e fan \<Rightarrow> bool" where
  "sources_closed n f \<longleftrightarrow> (\<forall>i<n. ln_closed (lanes f i))"

lemma pending_set_lane:
  assumes "i < n"
  shows "pending n (set_lane i l f) + weight (lanes f i) = pending n f + weight l"
proof -
  have "(\<Sum>j<n. weight (lanes (set_lane i l f) j)) = weight l + (\<Sum>j\<in>{..<n} - {i}. weight (lanes f j))"
    using assms by (subst sum.remove [of _ i]) (auto intro!: sum.cong)
  moreover have "(\<Sum>j<n. weight (lanes f j)) = weight (lanes f i) + (\<Sum>j\<in>{..<n} - {i}. weight (lanes f j))"
    using assms by (subst sum.remove [of _ i]) auto
  ultimately show ?thesis by (simp add: pending_def)
qed

text \<open>While something is pending and the sources have closed, a forwarder or the reader can move.\<close>

lemma fan_progress:
  assumes "sources_closed n f" "0 < pending n f" "0 < n \<longrightarrow> 0 < cap"
  obtains f' where "fan_step n cap cancelled f f'" "pending n f' < pending n f" "sources_closed n f'"
    "\<forall>i. ln_sent (lanes f' i) = ln_sent (lanes f i)"
proof (cases "merged f")
  case (Cons x xs)
  show ?thesis
    by (rule that [OF fan_step.receive [OF Cons]]) (use assms(1) Cons in \<open>simp_all add: pending_def sources_closed_def\<close>)
next
  case Nil
  have "\<exists>i<n. 0 < weight (lanes f i)" using assms(2) Nil by (intro ccontr [of "\<exists>i<n. 0 < weight (lanes f i)"]) (simp add: pending_def)
  then obtain i where i: "i < n" "0 < weight (lanes f i)" by blast
  then have cap: "length (merged f) < cap" using assms(3) Nil by auto
  have closed: "ln_closed (lanes f i)" using assms(1) i by (simp add: sources_closed_def)
  note moved = pending_set_lane [OF i(1), of _ f]
  show ?thesis
  proof (cases "ln_fwd (lanes f i)")
    case Waiting
    show ?thesis
    proof (cases "ln_queue (lanes f i)")
      case empty: Nil
      show ?thesis
        by (rule that [OF fan_step.finish [OF i(1) Waiting empty closed]])
          (use assms(1) moved [of "(lanes f i)\<lparr>ln_fwd := Stopped\<rparr>"] Waiting in \<open>auto simp: weight_def sources_closed_def\<close>)
    next
      case (Cons e q)
      show ?thesis
        by (rule that [OF fan_step.pick [OF i(1) Waiting Cons]])
          (use assms(1) moved [of "(lanes f i)\<lparr>ln_queue := q, ln_fwd := Holding e\<rparr>"] Waiting Cons in \<open>auto simp: weight_def sources_closed_def\<close>)
    qed
  next
    case (Holding e)
    let ?f = "(set_lane i ((lanes f i)\<lparr>ln_fwd := Waiting\<rparr>) f)\<lparr>merged := merged f @ [(i, e)]\<rparr>"
    have "pending n ?f = pending n (set_lane i ((lanes f i)\<lparr>ln_fwd := Waiting\<rparr>) f) + 1" by (simp add: pending_def)
    then have "pending n ?f < pending n f"
      using moved [of "(lanes f i)\<lparr>ln_fwd := Waiting\<rparr>"] Holding by (simp add: weight_def)
    then show ?thesis
      by (rule that [OF fan_step.forward [OF i(1) Holding cap]]) (use assms(1) in \<open>auto simp: sources_closed_def\<close>)
  next
    case Stopped
    then show ?thesis using i by (simp add: weight_def)
  qed
qed

lemma nothing_pending: "pending n f = 0 \<Longrightarrow> all_stopped n f \<and> merged f = []"
  by (auto simp: pending_def all_stopped_def weight_def split: forwarder.splits) (metis forwarder.exhaust lessThan_iff)

definition same_sent :: "('e, 'x) multi \<Rightarrow> ('e, 'x) multi \<Rightarrow> bool" where
  "same_sent m m' \<longleftrightarrow>
     (\<forall>i. ln_sent (lanes (mc_events m') i) = ln_sent (lanes (mc_events m) i) \<and> ln_sent (lanes (mc_errors m') i) = ln_sent (lanes (mc_errors m) i))
     \<and> mc_done m' = mc_done m"

lemma multi_drain:
  assumes "sources_closed n (mc_events m)" "sources_closed n (mc_errors m)"
  shows "\<exists>m'. (multi_step n)\<^sup>*\<^sup>* m m' \<and> pending n (mc_events m') = 0 \<and> pending n (mc_errors m') = 0 \<and> same_sent m m'"
  using assms
proof (induction "pending n (mc_events m) + pending n (mc_errors m)" arbitrary: m rule: less_induct)
  case less
  consider "pending n (mc_events m) = 0" "pending n (mc_errors m) = 0" | "0 < pending n (mc_events m)" | "0 < pending n (mc_errors m)" by auto
  then show ?case
  proof cases
    case 1
    then show ?thesis by (intro exI [of _ m]) (simp add: same_sent_def)
  next
    case 2
    then obtain f where f: "fan_step n 1024 (mc_done m) (mc_events m) f" "pending n f < pending n (mc_events m)" "sources_closed n f"
      "\<forall>i. ln_sent (lanes f i) = ln_sent (lanes (mc_events m) i)"
      using fan_progress [OF less.prems(1), of 1024 "mc_done m"] by auto
    then obtain m' where "(multi_step n)\<^sup>*\<^sup>* (m\<lparr>mc_events := f\<rparr>) m'" "pending n (mc_events m') = 0" "pending n (mc_errors m') = 0"
      "same_sent (m\<lparr>mc_events := f\<rparr>) m'"
      using less.hyps [of "m\<lparr>mc_events := f\<rparr>"] less.prems by auto
    with f(4) show ?thesis
      by (intro exI [of _ m']) (auto simp: same_sent_def intro: converse_rtranclp_into_rtranclp event_step [OF f(1)])
  next
    case 3
    then obtain f where f: "fan_step n n (mc_done m) (mc_errors m) f" "pending n f < pending n (mc_errors m)" "sources_closed n f"
      "\<forall>i. ln_sent (lanes f i) = ln_sent (lanes (mc_errors m) i)"
      using fan_progress [OF less.prems(2), of n "mc_done m"] by auto
    then obtain m' where "(multi_step n)\<^sup>*\<^sup>* (m\<lparr>mc_errors := f\<rparr>) m'" "pending n (mc_events m') = 0" "pending n (mc_errors m') = 0"
      "same_sent (m\<lparr>mc_errors := f\<rparr>) m'"
      using less.hyps [of "m\<lparr>mc_errors := f\<rparr>"] less.prems by auto
    with f(4) show ?thesis
      by (intro exI [of _ m']) (auto simp: same_sent_def intro: converse_rtranclp_into_rtranclp error_step [OF f(1)])
  qed
qed

lemma multi_reachable_steps: "(multi_step n)\<^sup>*\<^sup>* m m' \<Longrightarrow> multi_reachable n m \<Longrightarrow> multi_reachable n m'"
  by (induction rule: rtranclp_induct) (auto intro: multi_reachable.step)

text \<open>
  C21. The merged stream ends when its sources do. From every reachable state in which all sources
  have closed their channels and the agent was not stopped, the forwarders and a reader that
  keeps reading can move on until both merged channels are closed, and then the reader has
  received everything each source sent, in its order.
\<close>

theorem fan_in_finishes:
  assumes "multi_reachable n m" "\<not> mc_done m" "sources_closed n (mc_events m)" "sources_closed n (mc_errors m)"
  shows "\<exists>m'. (multi_step n)\<^sup>*\<^sup>* m m' \<and> mc_closed m'
    \<and> (\<forall>i<n. of_source i (received (mc_events m')) = ln_sent (lanes (mc_events m) i)
         \<and> of_source i (received (mc_errors m')) = ln_sent (lanes (mc_errors m) i))"
proof -
  obtain m' where m': "(multi_step n)\<^sup>*\<^sup>* m m'" "pending n (mc_events m') = 0" "pending n (mc_errors m') = 0" "same_sent m m'"
    using multi_drain [OF assms(3,4)] by blast
  have idle: "all_stopped n (mc_events m')" "merged (mc_events m') = []" "all_stopped n (mc_errors m')" "merged (mc_errors m') = []"
    using nothing_pending m'(2,3) by blast+
  have inv: "fan_inv n 1024 False (mc_events m')" "fan_inv n n False (mc_errors m')"
    using multi_reachable_inv [OF multi_reachable_steps [OF m'(1) assms(1)]] m'(4) assms(2) by (simp_all add: multi_inv_def same_sent_def)
  have "(multi_step n)\<^sup>*\<^sup>* m (m'\<lparr>mc_closed := True\<rparr>)"
    using m'(1) close_channels [OF idle(1,3)] by (rule rtranclp.rtrancl_into_rtrancl)
  moreover have "of_source i (received (mc_events m')) = ln_sent (lanes (mc_events m) i)
      \<and> of_source i (received (mc_errors m')) = ln_sent (lanes (mc_errors m) i)" if "i < n" for i
    using stopped_complete [OF inv(1) that idle(1)] stopped_complete [OF inv(2) that idle(3)] idle m'(4) by (simp add: same_sent_def)
  ultimately show ?thesis by (intro exI [of _ "m'\<lparr>mc_closed := True\<rparr>"]) simp
qed

text \<open>A source that sent one event and closed, seen before anything is forwarded.\<close>

definition demo_lane :: "nat list \<Rightarrow> nat lane" where
  "demo_lane es = \<lparr>ln_sent = es, ln_queue = es, ln_closed = True, ln_fwd = Waiting\<rparr>"

definition demo_multi :: "(nat, nat) multi" where
  "demo_multi =
     \<lparr>mc_events = set_lane 0 (demo_lane [7]) fan_init, mc_errors = set_lane 0 (demo_lane []) fan_init, mc_done = False, mc_closed = False\<rparr>"

lemma demo_multi_reachable: "multi_reachable 1 demo_multi"
proof -
  let ?open = "\<lparr>ln_sent = [7], ln_queue = [7], ln_closed = False, ln_fwd = Waiting\<rparr> :: nat lane"
  let ?f = "fan_init :: nat fan"
  have "fan_step 1 1024 False ?f (set_lane 0 ?open ?f)"
    using fan_step.put [of 0 1 ?f 1024 False 7] by (simp add: fan_init_def)
  then have "multi_reachable 1 (multi_init\<lparr>mc_events := set_lane 0 ?open ?f\<rparr> :: (nat, nat) multi)"
    using multi_step.event_step [of 1 multi_init] by (intro multi_reachable.step [OF multi_reachable.start]) (simp add: multi_init_def)
  moreover have "fan_step 1 1024 False (set_lane 0 ?open ?f) (set_lane 0 (demo_lane [7]) ?f)"
    using fan_step.shut [of 0 1 1024 False "set_lane 0 ?open ?f"] by (simp add: demo_lane_def set_lane_def)
  then have "multi_step 1 (multi_init\<lparr>mc_events := set_lane 0 ?open ?f\<rparr> :: (nat, nat) multi) (multi_init\<lparr>mc_events := set_lane 0 (demo_lane [7]) ?f\<rparr>)"
    using multi_step.event_step [of 1 "multi_init\<lparr>mc_events := set_lane 0 ?open ?f\<rparr> :: (nat, nat) multi"] by (simp add: multi_init_def)
  moreover have "fan_step 1 1 False ?f (set_lane 0 (demo_lane []) ?f)"
    using fan_step.shut [of 0 1 1 False ?f] by (simp add: demo_lane_def fan_init_def)
  then have "multi_step 1 (multi_init\<lparr>mc_events := set_lane 0 (demo_lane [7]) ?f\<rparr> :: (nat, nat) multi) demo_multi"
    using multi_step.error_step [of 1 "multi_init\<lparr>mc_events := set_lane 0 (demo_lane [7]) ?f\<rparr> :: (nat, nat) multi"]
    by (simp add: multi_init_def demo_multi_def)
  ultimately show ?thesis by (blast intro: multi_reachable.step)
qed

theorem fan_in_exact_witness: "length (merged (mc_events demo_multi)) \<le> 1024
    \<and> (\<exists>rest. [7] = of_source 0 (received (mc_events demo_multi) @ merged (mc_events demo_multi)) @ rest)"
  using fan_in_exact [OF demo_multi_reachable] by (simp add: demo_multi_def demo_lane_def)

theorem fan_in_finishes_witness:
  "\<exists>m'. (multi_step 1)\<^sup>*\<^sup>* demo_multi m' \<and> mc_closed m' \<and> of_source 0 (received (mc_events m')) = [7]"
proof -
  have "\<not> mc_done demo_multi" "sources_closed 1 (mc_events demo_multi)" "sources_closed 1 (mc_errors demo_multi)"
    by (simp_all add: demo_multi_def sources_closed_def demo_lane_def)
  from fan_in_finishes [OF demo_multi_reachable this] show ?thesis by (auto simp: demo_multi_def demo_lane_def)
qed

end
