(* ===== verification/Metrics.thy ===== *)
theory Metrics
  imports Exporter Netip
begin

text \<open>
  The backend's telemetry metrics (\<open>src/backend/internal/telemetry/metrics\<close>): validation and
  normalisation of ingested flow events, request inference, rates and severities. The
  backend's \<open>model.FlowEvent\<close> has the fields of the agent's payload, so the record
  \<open>flow_event\<close> is shared. The properties give the exact acceptance condition, field by field,
  the meaning of an error, what an accepted event satisfies, and that validation is idempotent.
\<close>

section \<open>Definitions\<close>

definition SeverityNormal :: string where [go_const]: "SeverityNormal = ''normal''"
definition SeverityWarning :: string where [go_const]: "SeverityWarning = ''warning''"
definition SeverityError :: string where [go_const]: "SeverityError = ''error''"

definition TotalBytes :: "flow_event \<Rightarrow> i64" where
  "TotalBytes e = wrap64 (fe_BytesSent e + fe_BytesReceived e)"

definition LastErrorAtPtr :: "i64 \<Rightarrow> gotime \<Rightarrow> gotime option" where
  "LastErrorAtPtr errorCount observedAt = (if errorCount \<le> 0 then None else Some observedAt)"

definition LastErrorAtArg :: "i64 \<Rightarrow> gotime \<Rightarrow> gotime option" where
  "LastErrorAtArg errorCount observedAt = (if errorCount \<le> 0 then None else Some observedAt)"

definition metrics_NormalizePorts :: "string \<Rightarrow> int \<Rightarrow> int \<Rightarrow> int \<times> int" where
  "metrics_NormalizePorts protocol srcPort dstPort =
     (if protocol = ProtocolICMP then (0, 0) else (srcPort, dstPort))"

definition ValidatePortRange :: "int \<Rightarrow> int \<Rightarrow> bool" where
  "ValidatePortRange srcPort dstPort =
     (\<not> (srcPort < 0 \<or> srcPort > 65535 \<or> dstPort < 0 \<or> dstPort > 65535))"

definition RatePerSecond :: "i64 \<Rightarrow> gotime \<Rightarrow> gotime \<Rightarrow> f64" where
  "RatePerSecond n firstSeen lastSeen =
     (if n \<le> 0 then 0
      else let seconds = duration_Seconds (time_Sub lastSeen firstSeen);
               seconds' = (if seconds < 1 then 1 else seconds)
           in f64_div (f64_of_int n) seconds')"

definition metrics_InferRequestCount :: "flow_event \<Rightarrow> i64" where
  "metrics_InferRequestCount e =
     (if fe_ErrorCount e > 0 then 0
      else if fe_ConnectionCount e > 0 then fe_ConnectionCount e
      else if fe_Protocol e = ProtocolUDP \<or> fe_Protocol e = ProtocolICMP then
        (if fe_Direction e = Egress then (if fe_BytesSent e > 0 then 1 else 0)
         else if fe_Direction e = Ingress then (if fe_BytesReceived e > 0 then 1 else 0)
         else 0)
      else 0)"

definition ConnectionSeverity :: "bool \<Rightarrow> f64 \<Rightarrow> i64 \<Rightarrow> f64 \<Rightarrow> string" where
  "ConnectionSeverity success rttMs errorCount slowRTTThresholdMs =
     (if \<not> success \<or> errorCount > 0 then SeverityError
      else if slowRTTThresholdMs > 0 \<and> rttMs \<ge> slowRTTThresholdMs then SeverityWarning
      else SeverityNormal)"

datatype flow_error =
    AgentIDRequired | BadProtocol | BadDirection | InvalidSrcIP | InvalidDstIP | BadPorts
  | NegativeCounters | NegativeLatency | NegativeHTTPCounters | BadHTTPStatus | LastBeforeFirst

text \<open>The tests of \<open>ValidateFlowEvent\<close>, in the order of the source.\<close>

definition bad_protocol :: "string \<Rightarrow> bool" where
  "bad_protocol p \<longleftrightarrow> p \<noteq> ProtocolTCP \<and> p \<noteq> ProtocolUDP \<and> p \<noteq> ProtocolICMP"

definition bad_direction :: "string \<Rightarrow> bool" where
  "bad_direction d \<longleftrightarrow> d \<noteq> Ingress \<and> d \<noteq> Egress"

definition negative_counters :: "flow_event \<Rightarrow> bool" where
  "negative_counters e \<longleftrightarrow>
     fe_BytesSent e < 0 \<or> fe_BytesReceived e < 0 \<or> fe_Packets e < 0 \<or> fe_ConnectionCount e < 0
     \<or> fe_RequestCount e < 0 \<or> fe_ErrorCount e < 0 \<or> fe_Retransmissions e < 0"

definition negative_latency :: "flow_event \<Rightarrow> bool" where
  "negative_latency e \<longleftrightarrow> fe_AvgRTTMs e < 0 \<or> fe_AvgAppDelayMs e < 0"

definition negative_http :: "flow_event \<Rightarrow> bool" where
  "negative_http e \<longleftrightarrow>
     fe_HTTP1xx e < 0 \<or> fe_HTTP2xx e < 0 \<or> fe_HTTP3xx e < 0 \<or> fe_HTTP4xx e < 0 \<or> fe_HTTP5xx e < 0"

definition bad_http_status :: "flow_event \<Rightarrow> bool" where
  "bad_http_status e \<longleftrightarrow> fe_LastHTTPStatus e \<noteq> 0 \<and> (fe_LastHTTPStatus e < 100 \<or> fe_LastHTTPStatus e > 599)"

definition norm_word :: "(string \<Rightarrow> string) \<Rightarrow> string \<Rightarrow> string" where
  "norm_word ul s = ToLower ul (TrimSpace s)"

text \<open>
  \<open>ValidateFlowEvent\<close> rewrites the event it is given in four places, between the tests: words,
  ports and direction, times, and the request count. On an error the caller drops the event.
  \<open>now\<close> is the clock reading.
\<close>

definition fix_words :: "(string \<Rightarrow> string) \<Rightarrow> flow_event \<Rightarrow> flow_event" where
  "fix_words ul e = e\<lparr>fe_AgentID := TrimSpace (fe_AgentID e),
     fe_Protocol := norm_word ul (fe_Protocol e), fe_Direction := norm_word ul (fe_Direction e)\<rparr>"

definition fix_ports_direction :: "flow_event \<Rightarrow> flow_event" where
  "fix_ports_direction e =
     (let (sp, dp) = metrics_NormalizePorts (fe_Protocol e) (fe_SrcPort e) (fe_DstPort e);
          e' = e\<lparr>fe_SrcPort := sp, fe_DstPort := dp\<rparr>
      in if fe_Direction e' = [] then e'\<lparr>fe_Direction := Egress\<rparr> else e')"

definition fix_times :: "gotime \<Rightarrow> flow_event \<Rightarrow> flow_event" where
  "fix_times now e =
     (let e' = (if IsZero (fe_FirstSeen e) then e\<lparr>fe_FirstSeen := now\<rparr> else e)
      in if IsZero (fe_LastSeen e') then e'\<lparr>fe_LastSeen := fe_FirstSeen e'\<rparr> else e')"

definition fix_requests :: "flow_event \<Rightarrow> flow_event" where
  "fix_requests e =
     (if fe_RequestCount e = 0 then e\<lparr>fe_RequestCount := metrics_InferRequestCount e\<rparr> else e)"

definition ValidateFlowEvent ::
    "(string \<Rightarrow> string) \<Rightarrow> gotime \<Rightarrow> flow_event \<Rightarrow> flow_error + flow_event" where
  "ValidateFlowEvent ul now event =
     (let e1 = fix_words ul event in
      if fe_AgentID e1 = [] then Inl AgentIDRequired
      else if bad_protocol (fe_Protocol e1) then Inl BadProtocol
      else let e2 = fix_ports_direction e1 in
      if bad_direction (fe_Direction e2) then Inl BadDirection
      else if ParseAddr (fe_SrcIP e2) = None then Inl InvalidSrcIP
      else if ParseAddr (fe_DstIP e2) = None then Inl InvalidDstIP
      else if \<not> ValidatePortRange (fe_SrcPort e2) (fe_DstPort e2) then Inl BadPorts
      else if negative_counters e2 then Inl NegativeCounters
      else if negative_latency e2 then Inl NegativeLatency
      else if negative_http e2 then Inl NegativeHTTPCounters
      else if bad_http_status e2 then Inl BadHTTPStatus
      else let e3 = fix_times now e2 in
      if fe_LastSeen e3 < fe_FirstSeen e3 then Inl LastBeforeFirst
      else Inr (fix_requests e3))"

section \<open>What validation guarantees\<close>

text \<open>
  The specification is written on the fields of the event, without the tests of the code: the
  values a field may have, and for every error what it says is wrong with the event.
\<close>

definition counters_ok :: "flow_event \<Rightarrow> bool" where
  "counters_ok e \<longleftrightarrow>
     0 \<le> fe_BytesSent e \<and> 0 \<le> fe_BytesReceived e \<and> 0 \<le> fe_Packets e \<and> 0 \<le> fe_ConnectionCount e
     \<and> 0 \<le> fe_RequestCount e \<and> 0 \<le> fe_ErrorCount e \<and> 0 \<le> fe_Retransmissions e
     \<and> 0 \<le> fe_AvgRTTMs e \<and> 0 \<le> fe_AvgAppDelayMs e
     \<and> 0 \<le> fe_HTTP1xx e \<and> 0 \<le> fe_HTTP2xx e \<and> 0 \<le> fe_HTTP3xx e \<and> 0 \<le> fe_HTTP4xx e \<and> 0 \<le> fe_HTTP5xx e
     \<and> (fe_LastHTTPStatus e = 0 \<or> fe_LastHTTPStatus e \<in> {100..599})"

definition addresses_ok :: "flow_event \<Rightarrow> bool" where
  "addresses_ok e \<longleftrightarrow> ParseAddr (fe_SrcIP e) \<noteq> None \<and> ParseAddr (fe_DstIP e) \<noteq> None"

definition ports_ok :: "flow_event \<Rightarrow> bool" where
  "ports_ok e \<longleftrightarrow> fe_SrcPort e \<in> {0..65535} \<and> fe_DstPort e \<in> {0..65535}"

text \<open>The normal form of an accepted event.\<close>

definition accepted :: "flow_event \<Rightarrow> bool" where
  "accepted e \<longleftrightarrow>
     fe_AgentID e \<noteq> [] \<and> TrimSpace (fe_AgentID e) = fe_AgentID e
     \<and> fe_Protocol e \<in> {ProtocolTCP, ProtocolUDP, ProtocolICMP}
     \<and> fe_Direction e \<in> {Ingress, Egress}
     \<and> addresses_ok e \<and> counters_ok e \<and> ports_ok e
     \<and> (fe_Protocol e = ProtocolICMP \<longrightarrow> fe_SrcPort e = 0 \<and> fe_DstPort e = 0)
     \<and> fe_FirstSeen e \<noteq> 0 \<and> fe_LastSeen e \<noteq> 0 \<and> fe_FirstSeen e \<le> fe_LastSeen e
     \<and> (fe_RequestCount e = 0 \<longrightarrow> metrics_InferRequestCount e = 0)"

text \<open>What an event must be to be accepted; \<open>now\<close> stands for a missing start.\<close>

definition acceptable :: "(string \<Rightarrow> string) \<Rightarrow> gotime \<Rightarrow> flow_event \<Rightarrow> bool" where
  "acceptable ul now e \<longleftrightarrow>
     TrimSpace (fe_AgentID e) \<noteq> []
     \<and> ToLower ul (TrimSpace (fe_Protocol e)) \<in> {''tcp'', ''udp'', ''icmp''}
     \<and> ToLower ul (TrimSpace (fe_Direction e)) \<in> {''ingress'', ''egress'', []}
     \<and> addresses_ok e \<and> counters_ok e
     \<and> (ToLower ul (TrimSpace (fe_Protocol e)) = ''icmp'' \<or> ports_ok e)
     \<and> (let first = (if fe_FirstSeen e = 0 then now else fe_FirstSeen e)
        in fe_LastSeen e = 0 \<or> first \<le> fe_LastSeen e)"

text \<open>What each error message says of the event.\<close>

fun violated :: "(string \<Rightarrow> string) \<Rightarrow> gotime \<Rightarrow> flow_event \<Rightarrow> flow_error \<Rightarrow> bool" where
  "violated ul now e AgentIDRequired = (TrimSpace (fe_AgentID e) = [])"
| "violated ul now e BadProtocol = (ToLower ul (TrimSpace (fe_Protocol e)) \<notin> {''tcp'', ''udp'', ''icmp''})"
| "violated ul now e BadDirection = (ToLower ul (TrimSpace (fe_Direction e)) \<notin> {''ingress'', ''egress'', []})"
| "violated ul now e InvalidSrcIP = (ParseAddr (fe_SrcIP e) = None)"
| "violated ul now e InvalidDstIP = (ParseAddr (fe_DstIP e) = None)"
| "violated ul now e BadPorts =
     (ToLower ul (TrimSpace (fe_Protocol e)) \<in> {''tcp'', ''udp''} \<and> (fe_SrcPort e \<notin> {0..65535} \<or> fe_DstPort e \<notin> {0..65535}))"
| "violated ul now e NegativeCounters =
     (\<exists>n \<in> {fe_BytesSent e, fe_BytesReceived e, fe_Packets e, fe_ConnectionCount e, fe_RequestCount e, fe_ErrorCount e,
        fe_Retransmissions e}. n < 0)"
| "violated ul now e NegativeLatency = (fe_AvgRTTMs e < 0 \<or> fe_AvgAppDelayMs e < 0)"
| "violated ul now e NegativeHTTPCounters =
     (\<exists>n \<in> {fe_HTTP1xx e, fe_HTTP2xx e, fe_HTTP3xx e, fe_HTTP4xx e, fe_HTTP5xx e}. n < 0)"
| "violated ul now e BadHTTPStatus = (fe_LastHTTPStatus e \<noteq> 0 \<and> fe_LastHTTPStatus e \<notin> {100..599})"
| "violated ul now e LastBeforeFirst =
     (fe_LastSeen e \<noteq> 0 \<and> fe_LastSeen e < (if fe_FirstSeen e = 0 then now else fe_FirstSeen e))"

lemma port_range_zero [simp]: "ValidatePortRange 0 0"
  by (simp add: ValidatePortRange_def)

text \<open>The normal form, without the checks.\<close>

definition norm_event :: "(string \<Rightarrow> string) \<Rightarrow> gotime \<Rightarrow> flow_event \<Rightarrow> flow_event" where
  "norm_event ul now e = fix_requests (fix_times now (fix_ports_direction (fix_words ul e)))"

lemmas flow_checks = negative_counters_def negative_latency_def negative_http_def bad_http_status_def

lemma checks_fix [simp]:
  "negative_counters (fix_words ul e) = negative_counters e"
  "negative_latency (fix_words ul e) = negative_latency e"
  "negative_http (fix_words ul e) = negative_http e"
  "bad_http_status (fix_words ul e) = bad_http_status e"
  "negative_counters (fix_ports_direction e) = negative_counters e"
  "negative_latency (fix_ports_direction e) = negative_latency e"
  "negative_http (fix_ports_direction e) = negative_http e"
  "bad_http_status (fix_ports_direction e) = bad_http_status e"
  "negative_counters (fix_times now e) = negative_counters e"
  "negative_latency (fix_times now e) = negative_latency e"
  "negative_http (fix_times now e) = negative_http e"
  "bad_http_status (fix_times now e) = bad_http_status e"
  "negative_latency (fix_requests e) = negative_latency e"
  "negative_http (fix_requests e) = negative_http e"
  "bad_http_status (fix_requests e) = bad_http_status e"
  by (simp_all add: flow_checks fix_words_def fix_ports_direction_def fix_times_def fix_requests_def
      Let_def split: prod.splits)

lemma fix_words_fields [simp]:
  "fe_AgentID (fix_words ul e) = TrimSpace (fe_AgentID e)"
  "fe_Protocol (fix_words ul e) = norm_word ul (fe_Protocol e)"
  "fe_Direction (fix_words ul e) = norm_word ul (fe_Direction e)"
  "fe_SrcIP (fix_words ul e) = fe_SrcIP e" "fe_DstIP (fix_words ul e) = fe_DstIP e"
  "fe_SrcPort (fix_words ul e) = fe_SrcPort e" "fe_DstPort (fix_words ul e) = fe_DstPort e"
  "fe_FirstSeen (fix_words ul e) = fe_FirstSeen e" "fe_LastSeen (fix_words ul e) = fe_LastSeen e"
  by (simp_all add: fix_words_def)

lemma fix_ports_fields [simp]:
  "fe_AgentID (fix_ports_direction e) = fe_AgentID e" "fe_Protocol (fix_ports_direction e) = fe_Protocol e"
  "fe_Direction (fix_ports_direction e) = (if fe_Direction e = [] then Egress else fe_Direction e)"
  "fe_SrcIP (fix_ports_direction e) = fe_SrcIP e" "fe_DstIP (fix_ports_direction e) = fe_DstIP e"
  "fe_SrcPort (fix_ports_direction e) = (if fe_Protocol e = ProtocolICMP then 0 else fe_SrcPort e)"
  "fe_DstPort (fix_ports_direction e) = (if fe_Protocol e = ProtocolICMP then 0 else fe_DstPort e)"
  "fe_FirstSeen (fix_ports_direction e) = fe_FirstSeen e" "fe_LastSeen (fix_ports_direction e) = fe_LastSeen e"
  by (simp_all add: fix_ports_direction_def metrics_NormalizePorts_def Let_def)

lemma fix_times_fields [simp]:
  "fe_AgentID (fix_times now e) = fe_AgentID e" "fe_Protocol (fix_times now e) = fe_Protocol e"
  "fe_Direction (fix_times now e) = fe_Direction e"
  "fe_SrcIP (fix_times now e) = fe_SrcIP e" "fe_DstIP (fix_times now e) = fe_DstIP e"
  "fe_SrcPort (fix_times now e) = fe_SrcPort e" "fe_DstPort (fix_times now e) = fe_DstPort e"
  "fe_FirstSeen (fix_times now e) = (if fe_FirstSeen e = 0 then now else fe_FirstSeen e)"
  "fe_LastSeen (fix_times now e) =
     (if fe_LastSeen e = 0 then if fe_FirstSeen e = 0 then now else fe_FirstSeen e else fe_LastSeen e)"
  by (simp_all add: fix_times_def IsZero_def Let_def)

lemma fix_requests_fields [simp]:
  "fe_AgentID (fix_requests e) = fe_AgentID e" "fe_Protocol (fix_requests e) = fe_Protocol e"
  "fe_Direction (fix_requests e) = fe_Direction e"
  "fe_SrcIP (fix_requests e) = fe_SrcIP e" "fe_DstIP (fix_requests e) = fe_DstIP e"
  "fe_SrcPort (fix_requests e) = fe_SrcPort e" "fe_DstPort (fix_requests e) = fe_DstPort e"
  "fe_FirstSeen (fix_requests e) = fe_FirstSeen e" "fe_LastSeen (fix_requests e) = fe_LastSeen e"
  by (simp_all add: fix_requests_def)

lemma if_Inl_Inr: "((if c then Inl a else r) = Inr y) \<longleftrightarrow> \<not> c \<and> r = Inr y"
  by simp

lemma port_range_norm:
  "ValidatePortRange (if c then 0 else i) (if c then 0 else j) \<longleftrightarrow> c \<or> ValidatePortRange i j"
  by simp

lemma times_norm:
  fixes f l now :: gotime
  shows "(if l = 0 then if f = 0 then now else f else l) < (if f = 0 then now else f) \<longleftrightarrow>
    \<not> (l = 0 \<or> (if f = 0 then now else f) \<le> l)"
  by auto

text \<open>The tests of the code and the conditions of the specification.\<close>

lemma tests_meaning:
  "\<not> negative_counters e \<and> \<not> negative_latency e \<and> \<not> negative_http e \<and> \<not> bad_http_status e \<longleftrightarrow> counters_ok e"
  "ValidatePortRange (fe_SrcPort e) (fe_DstPort e) \<longleftrightarrow> ports_ok e"
  "\<not> bad_protocol (norm_word ul p) \<longleftrightarrow> ToLower ul (TrimSpace p) \<in> {''tcp'', ''udp'', ''icmp''}"
  "\<not> bad_direction (if norm_word ul d = [] then Egress else norm_word ul d)
     \<longleftrightarrow> ToLower ul (TrimSpace d) \<in> {''ingress'', ''egress'', []}"
  by (auto simp: flow_checks counters_ok_def ValidatePortRange_def ports_ok_def bad_protocol_def bad_direction_def
      norm_word_def go_const)

lemma validate_norm_iff:
  "ValidateFlowEvent ul now e = Inr e' \<longleftrightarrow> acceptable ul now e \<and> norm_event ul now e = e'"
proof -
  have "ValidateFlowEvent ul now e = Inr e' \<longleftrightarrow>
      TrimSpace (fe_AgentID e) \<noteq> [] \<and> \<not> bad_protocol (norm_word ul (fe_Protocol e))
      \<and> \<not> bad_direction (if norm_word ul (fe_Direction e) = [] then Egress else norm_word ul (fe_Direction e))
      \<and> addresses_ok e
      \<and> (norm_word ul (fe_Protocol e) = ProtocolICMP \<or> ValidatePortRange (fe_SrcPort e) (fe_DstPort e))
      \<and> (\<not> negative_counters e \<and> \<not> negative_latency e \<and> \<not> negative_http e \<and> \<not> bad_http_status e)
      \<and> (fe_LastSeen e = 0 \<or> (if fe_FirstSeen e = 0 then now else fe_FirstSeen e) \<le> fe_LastSeen e)
      \<and> norm_event ul now e = e'"
    unfolding ValidateFlowEvent_def Let_def if_Inl_Inr sum.inject fix_words_fields fix_ports_fields
      fix_times_fields checks_fix norm_event_def [symmetric] times_norm port_range_norm addresses_ok_def not_not
      conj_assoc ..
  also have "\<dots> \<longleftrightarrow> acceptable ul now e \<and> norm_event ul now e = e'"
    unfolding tests_meaning unfolding acceptable_def Let_def norm_word_def by (simp only: go_const conj_ac)
  finally show ?thesis .
qed

lemma acceptable_iff: "(\<exists>e'. ValidateFlowEvent ul now e = Inr e') \<longleftrightarrow> acceptable ul now e"
  by (simp add: validate_norm_iff)

lemma if_Inl_Inl: "((if c then Inl a else r) = Inl b) \<longleftrightarrow> c \<and> a = b \<or> \<not> c \<and> r = Inl b"
  by auto

lemma tests_violated:
  "TrimSpace (fe_AgentID e) = [] \<longleftrightarrow> violated ul now e AgentIDRequired"
  "ParseAddr (fe_SrcIP e) = None \<longleftrightarrow> violated ul now e InvalidSrcIP"
  "ParseAddr (fe_DstIP e) = None \<longleftrightarrow> violated ul now e InvalidDstIP"
  "bad_protocol (norm_word ul (fe_Protocol e)) \<longleftrightarrow> violated ul now e BadProtocol"
  "bad_direction (if norm_word ul (fe_Direction e) = [] then Egress else norm_word ul (fe_Direction e))
     \<longleftrightarrow> violated ul now e BadDirection"
  "negative_counters e \<longleftrightarrow> violated ul now e NegativeCounters"
  "negative_latency e \<longleftrightarrow> violated ul now e NegativeLatency"
  "negative_http e \<longleftrightarrow> violated ul now e NegativeHTTPCounters"
  "bad_http_status e \<longleftrightarrow> violated ul now e BadHTTPStatus"
  "\<not> (fe_LastSeen e = 0 \<or> (if fe_FirstSeen e = 0 then now else fe_FirstSeen e) \<le> fe_LastSeen e)
     \<longleftrightarrow> violated ul now e LastBeforeFirst"
  by (auto simp: flow_checks ValidatePortRange_def bad_protocol_def bad_direction_def norm_word_def go_const)

lemma ports_violated:
  "norm_word ul (fe_Protocol e) = ProtocolICMP \<or> ValidatePortRange (fe_SrcPort e) (fe_DstPort e)
   \<or> violated ul now e BadProtocol \<or> violated ul now e BadPorts"
  by (auto simp: ValidatePortRange_def norm_word_def go_const)

lemma validate_error:
  assumes "ValidateFlowEvent ul now e = Inl err"
  shows "violated ul now e err"
proof -
  define V where "V = violated ul now e"
  note tests = tests_violated [where e = e and ul = ul and now = now, folded V_def]
  have "V err"
    using assms ports_violated [of ul e now, folded V_def]
    unfolding ValidateFlowEvent_def Let_def fix_words_fields fix_ports_fields fix_times_fields checks_fix times_norm
      port_range_norm if_Inl_Inl
    unfolding tests by auto
  then show ?thesis by (simp add: V_def)
qed

text \<open>
  C36. The ingest validation accepts exactly the well-formed events, and its errors are true.
  An event is accepted if and only if its agent id is not blank, its protocol is tcp, udp or
  icmp and its direction ingress, egress or empty (up to case and surrounding blanks), both
  addresses parse, each of its seven counters, five HTTP counters and two latencies is at least
  0, its last HTTP status is 0 or from 100 to 599, the ports of a TCP or UDP flow are from 0 to
  65535, and, with the clock standing for a missing start, it does not end before it starts.
  When it is refused, the error names a condition that the event violates.
\<close>

theorem validation_accepts_iff:
  "((\<exists>e'. ValidateFlowEvent ul now e = Inr e') \<longleftrightarrow> acceptable ul now e)
   \<and> (case ValidateFlowEvent ul now e of Inl err \<Rightarrow> violated ul now e err | Inr e' \<Rightarrow> acceptable ul now e)"
  using validate_norm_iff [of ul now e] validate_error [of ul now e] by (auto split: sum.split)

lemma infer_nonneg: "0 \<le> metrics_InferRequestCount e"
  by (simp add: metrics_InferRequestCount_def)

lemma infer_cong:
  "metrics_InferRequestCount (e\<lparr>fe_RequestCount := n\<rparr>) = metrics_InferRequestCount e"
  by (simp add: metrics_InferRequestCount_def)

lemma validate_norm: "ValidateFlowEvent ul now e = Inr e' \<Longrightarrow> e' = norm_event ul now e"
  by (simp add: validate_norm_iff)

lemma norm_words:
  "TrimSpace ''tcp'' = ''tcp''" "TrimSpace ''udp'' = ''udp''" "TrimSpace ''icmp'' = ''icmp''"
  "TrimSpace ''ingress'' = ''ingress''" "TrimSpace ''egress'' = ''egress''"
  "ToLower ul ''tcp'' = ''tcp''" "ToLower ul ''udp'' = ''udp''" "ToLower ul ''icmp'' = ''icmp''"
  "ToLower ul ''ingress'' = ''ingress''" "ToLower ul ''egress'' = ''egress''"
  by (simp_all add: TrimSpace_def space1_def space2_def space3_def ToLower_def is_ascii_def ascii_lower_def)

lemma fix_requests_counters: "\<not> negative_counters e \<Longrightarrow> \<not> negative_counters (fix_requests e)"
  using infer_nonneg [of e] by (auto simp: negative_counters_def fix_requests_def)

lemma fix_requests_infer: "fe_RequestCount (fix_requests e) = 0 \<longrightarrow> metrics_InferRequestCount (fix_requests e) = 0"
  by (simp add: fix_requests_def infer_cong)

lemma norm_event_accepted:
  assumes "acceptable ul now e" "now \<noteq> 0"
  shows "accepted (norm_event ul now e)"
  using assms unfolding accepted_def norm_event_def addresses_ok_def tests_meaning(1) [symmetric] acceptable_def ports_ok_def
  by (auto simp: fix_requests_counters fix_requests_infer norm_word_def go_const Let_def)

lemma accepted_acceptable: "accepted e \<Longrightarrow> acceptable ul now e"
  by (auto simp: accepted_def acceptable_def norm_words go_const)

lemma accepted_norm:
  assumes "accepted e"
  shows "norm_event ul now e = e"
proof -
  have "norm_word ul (fe_Protocol e) = fe_Protocol e" "norm_word ul (fe_Direction e) = fe_Direction e"
    "fe_Direction e \<noteq> []"
    using assms by (auto simp: accepted_def norm_word_def norm_words go_const)
  then have "fix_words ul e = e" using assms by (simp add: fix_words_def accepted_def)
  moreover have "fix_ports_direction e = e"
    using assms \<open>fe_Direction e \<noteq> []\<close>
    by (simp add: fix_ports_direction_def metrics_NormalizePorts_def accepted_def)
  moreover have "fix_times now e = e"
    using assms by (simp add: fix_times_def IsZero_def accepted_def)
  moreover have "fix_requests e = e"
    using assms by (auto simp: fix_requests_def accepted_def)
  ultimately show ?thesis by (simp add: norm_event_def)
qed

text \<open>
  C37. Accepted events are in normal form, and validating again changes nothing. An event that
  passes validation has a non-empty trimmed agent id, a lower-case protocol and direction,
  parsing addresses, ports in range (0 for ICMP), no negative counter, times that are set and
  in order, and a request count that is either given or inferred; validating it once more,
  at any later time, accepts it unchanged.
\<close>

theorem validation_normal_form:
  assumes "ValidateFlowEvent ul now e = Inr e'" and "now \<noteq> 0"
  shows "accepted e' \<and> ValidateFlowEvent ul later e' = Inr e'"
proof -
  have "acceptable ul now e" using assms(1) acceptable_iff by blast
  then have acc: "accepted e'" using norm_event_accepted assms(2) validate_norm [OF assms(1)] by blast
  then obtain e'' where e'': "ValidateFlowEvent ul later e' = Inr e''"
    using accepted_acceptable acceptable_iff by blast
  then show ?thesis using acc validate_norm [OF e''] accepted_norm by simp
qed

definition demo_payload :: flow_event where
  "demo_payload = (FromFlowState (State_new (KeyFromMetric flow_metric_zero)))
     \<lparr>fe_AgentID := ''a'', fe_Protocol := ''tcp'', fe_SrcIP := ''10.0.0.1'', fe_DstIP := ''10.0.0.2'',
      fe_ConnectionCount := 2\<rparr>"

lemma demo_payload_acceptable: "acceptable id 9 demo_payload"
proof -
  have addr: "ParseAddr ''10.0.0.1'' \<noteq> None" "ParseAddr ''10.0.0.2'' \<noteq> None" by code_simp+
  have words: "TrimSpace ''a'' = ''a''" "TrimSpace ''tcp'' = ''tcp''" "TrimSpace [] = []" "ToLower id ''tcp'' = ''tcp''"
    "ToLower id [] = []"
    by code_simp+
  have "counters_ok demo_payload"
    by (simp add: counters_ok_def demo_payload_def FromFlowState_def State_new_def
        u64_to_i64_def bytes_zero_def conn_zero_def rtt_zero_def status_zero_def)
  then show ?thesis
    using addr words
    by (simp add: acceptable_def addresses_ok_def demo_payload_def FromFlowState_def State_new_def KeyFromMetric_def
        flow_metric_zero_def ports_ok_def go_const Let_def)
qed

theorem validation_normal_form_witness:
  "accepted (norm_event id 9 demo_payload)"
proof -
  obtain e' where e': "ValidateFlowEvent id 9 demo_payload = Inr e'"
    using demo_payload_acceptable acceptable_iff by blast
  have "(9 :: gotime) \<noteq> 0" by simp
  from validation_normal_form [OF e' this] show ?thesis using validate_norm [OF e'] by simp
qed

text \<open>
  Rates never exceed counts. The requests or connections per second computed from a count
  and an observation window are between 0 and the (float64) count, however short, long or
  reversed the window is.
\<close>

theorem rate_bounds:
  "0 \<le> RatePerSecond n first_seen last_seen \<and> RatePerSecond n first_seen last_seen \<le> f64_of_int (max 0 n)"
proof (cases "n \<le> 0")
  case True
  then show ?thesis by (simp add: RatePerSecond_def f64_of_int_def f64_round_def)
next
  case False
  define s where "s = duration_Seconds (time_Sub last_seen first_seen)"
  define s' where "s' = (if s < 1 then 1 else s)"
  define c where "c = f64_of_int n"
  have c: "0 \<le> c" "f64_round c = c"
    using False f64_round_mono [of 0 "of_int n"] by (simp_all add: c_def f64_of_int_def f64_round_idem)
  have "1 \<le> s'" by (simp add: s'_def)
  then have "0 \<le> c / s'" "c / s' \<le> c"
    using c mult_left_mono [of 1 s' c] by (simp_all add: divide_le_eq)
  then have "f64_round 0 \<le> f64_round (c / s') \<and> f64_round (c / s') \<le> f64_round c"
    by (blast intro: f64_round_mono)
  with False c show ?thesis by (simp add: RatePerSecond_def Let_def f64_div_def s_def [symmetric] s'_def [symmetric] c_def [symmetric])
qed

end
