(* ===== verification/Classify.thy ===== *)
theory Classify
  imports Netip
begin

text \<open>
  How the backend names what it sees: the scope of a flow (\<open>service/classifier.go\<close>), its
  service and service port (\<open>service/service_classifier.go\<close>), and what the graph hides
  (\<open>service/visibility.go\<close>), with the two helpers of \<open>service/resolver.go\<close> that decide what is
  stored as NULL. The properties give the scope of every address exactly, and show that the
  service of a connection does not depend on the side that observed it.
\<close>

section \<open>Scopes\<close>

definition ScopeInternalSameTenant :: string where [go_const]: "ScopeInternalSameTenant = ''internal_same_tenant''"
definition ScopeInternalCrossTenant :: string where [go_const]: "ScopeInternalCrossTenant = ''internal_cross_tenant''"
definition ScopeUnknownInternal :: string where [go_const]: "ScopeUnknownInternal = ''unknown_internal''"
definition ScopeExternalPublic :: string where [go_const]: "ScopeExternalPublic = ''external_public''"
definition ScopeExternalPrivate :: string where [go_const]: "ScopeExternalPrivate = ''external_private''"
definition ScopeUnknown :: string where [go_const]: "ScopeUnknown = ''unknown''"

record classifier =
  cidr_prefixes :: "prefix list"
  unregisteredInternalScope :: string

datatype classifier_error = UnsupportedScope string | BadInternalCIDR string

fun add_prefixes :: "classifier \<Rightarrow> string list \<Rightarrow> classifier_error + classifier" where
  "add_prefixes c [] = Inr c"
| "add_prefixes c (cidr # cidrs) =
     (case ParsePrefix cidr of
        None \<Rightarrow> Inl (BadInternalCIDR cidr)
      | Some p \<Rightarrow> add_prefixes (c\<lparr>cidr_prefixes := cidr_prefixes c @ [Masked p]\<rparr>) cidrs)"

definition NewClassifier :: "string list \<Rightarrow> string \<Rightarrow> classifier_error + classifier" where
  "NewClassifier cidrs scope =
     (let u = (if scope = [] then ScopeExternalPrivate else scope) in
      if u \<noteq> ScopeExternalPrivate \<and> u \<noteq> ScopeUnknownInternal then Inl (UnsupportedScope u)
      else add_prefixes \<lparr>cidr_prefixes = [], unregisteredInternalScope = u\<rparr> cidrs)"

definition IsConfiguredInternal :: "classifier \<Rightarrow> string \<Rightarrow> bool" where
  "IsConfiguredInternal c ip =
     (case ParseAddr ip of None \<Rightarrow> False | Some addr \<Rightarrow> list_ex (\<lambda>p. Contains p addr) (cidr_prefixes c))"

definition IsInternal :: "classifier \<Rightarrow> string \<Rightarrow> bool" where
  "IsInternal c ip = IsConfiguredInternal c ip"

text \<open>A parsed address is always valid, so \<open>addr.IsValid\<close> adds nothing to the error test.\<close>

definition Scope :: "classifier \<Rightarrow> string \<Rightarrow> string \<Rightarrow> bool \<Rightarrow> string \<Rightarrow> string" where
  "Scope c sourceTenant destinationTenant destinationRegistered dstIP =
     (if destinationRegistered then
        (if sourceTenant = destinationTenant then ScopeInternalSameTenant else ScopeInternalCrossTenant)
      else case ParseAddr dstIP of
        None \<Rightarrow> ScopeUnknown
      | Some addr \<Rightarrow>
          if IsConfiguredInternal c dstIP then unregisteredInternalScope c
          else if Addr_IsPrivate addr \<or> Addr_IsLoopback addr \<or> Addr_IsLinkLocalUnicast addr
          then ScopeExternalPrivate
          else ScopeExternalPublic)"

section \<open>Services\<close>

definition tcpServices :: "(int \<times> string) list" where
  "tcpServices =
     [(20, ''ftp-data''), (21, ''ftp''), (22, ''ssh''), (25, ''smtp''), (53, ''dns''), (80, ''http''),
      (110, ''pop3''), (143, ''imap''), (443, ''https''), (445, ''smb''), (465, ''smtps''), (587, ''smtp''),
      (636, ''ldaps''), (873, ''rsync''), (1883, ''mqtt''), (2379, ''etcd''), (2380, ''etcd-peer''),
      (3000, ''development-http''), (3306, ''mysql''), (4222, ''nats''), (5432, ''postgresql''),
      (5671, ''rabbitmq-tls''), (5672, ''rabbitmq''), (6379, ''redis''), (6443, ''kubernetes-api''),
      (8080, ''http-alt''), (8081, ''http-alt''), (8443, ''https-alt''), (9090, ''prometheus''),
      (9092, ''kafka''), (9100, ''node-exporter''), (9200, ''elasticsearch''), (9418, ''git''),
      (10250, ''kubelet''), (15672, ''rabbitmq-management''), (27017, ''mongodb'')]"

definition udpServices :: "(int \<times> string) list" where
  "udpServices =
     [(53, ''dns''), (67, ''dhcp-server''), (68, ''dhcp-client''), (123, ''ntp''), (161, ''snmp''),
      (443, ''quic''), (514, ''syslog''), (8125, ''statsd'')]"

definition isEphemeralPort :: "int \<Rightarrow> bool" where
  "isEphemeralPort port \<longleftrightarrow> port \<ge> 32768"

definition port_name :: "string \<Rightarrow> int \<Rightarrow> string" where
  "port_name protocol port = protocol @ ''/'' @ itoa port"

definition classifyService :: "string \<Rightarrow> string \<Rightarrow> int \<Rightarrow> int \<Rightarrow> string \<times> int" where
  "classifyService protocol direction srcPort dstPort =
     (if protocol = ''icmp'' then (''icmp'', 0)
      else let services = (if protocol = ''udp'' then udpServices else tcpServices) in
        case alist_get services dstPort of
          Some name \<Rightarrow> (name, dstPort)
        | None \<Rightarrow>
            (case alist_get services srcPort of
               Some name \<Rightarrow> (name, srcPort)
             | None \<Rightarrow>
                 if protocol = ''tcp'' \<and> dstPort \<ge> 30000 \<and> dstPort \<le> 32767 then (''kubernetes-nodeport'', dstPort)
                 else if srcPort > 0 \<and> dstPort > 0 \<and> \<not> isEphemeralPort srcPort \<and> isEphemeralPort dstPort
                 then (port_name protocol srcPort, srcPort)
                 else if srcPort > 0 \<and> dstPort > 0 \<and> isEphemeralPort srcPort \<and> \<not> isEphemeralPort dstPort
                 then (port_name protocol dstPort, dstPort)
                 else if direction = ''ingress'' then (port_name protocol srcPort, srcPort)
                 else (port_name protocol dstPort, dstPort)))"

section \<open>Visibility\<close>

record graph_visibility =
  ExcludedPorts :: "int list"
  AllowedPorts :: "int list"
  ExcludedIPs :: "string list"
  IncludeIdle :: bool

definition intIn :: "int \<Rightarrow> int list \<Rightarrow> bool" where
  "intIn v xs = list_ex (\<lambda>item. v = item) xs"

definition portMatchesAny :: "int list \<Rightarrow> int list \<Rightarrow> bool" where
  "portMatchesAny xs ports = list_ex (\<lambda>port. intIn port xs) ports"

definition shouldFlipServiceResponse :: "int \<Rightarrow> int \<Rightarrow> bool" where
  "shouldFlipServiceResponse srcPort dstPort \<longleftrightarrow>
     srcPort > 0 \<and> dstPort > 0 \<and> \<not> isEphemeralPort srcPort \<and> isEphemeralPort dstPort"

definition isGraphNoiseIP :: "string \<Rightarrow> bool" where
  "isGraphNoiseIP ip =
     (case ParseAddr (TrimSpace ip) of
        None \<Rightarrow> False
      | Some addr \<Rightarrow> Addr_IsLoopback addr \<or> Addr_IsMulticast addr \<or> Addr_IsLinkLocalUnicast addr
                      \<or> Addr_IsUnspecified addr)"

definition hiddenByGraphIPs :: "graph_visibility \<Rightarrow> string \<Rightarrow> string \<Rightarrow> bool" where
  "hiddenByGraphIPs vis srcIP dstIP =
     (if isGraphNoiseIP srcIP \<or> isGraphNoiseIP dstIP then True
      else list_ex (\<lambda>ip. ip \<noteq> [] \<and> (srcIP = ip \<or> dstIP = ip)) (ExcludedIPs vis))"

definition hiddenByGraphVisibility :: "graph_visibility \<Rightarrow> int \<Rightarrow> int \<Rightarrow> string \<Rightarrow> string \<Rightarrow> bool" where
  "hiddenByGraphVisibility vis srcPort dstPort srcIP dstIP =
     (if AllowedPorts vis \<noteq> [] \<and> \<not> portMatchesAny (AllowedPorts vis) [srcPort, dstPort] then True
      else if portMatchesAny (ExcludedPorts vis) [srcPort, dstPort] then True
      else hiddenByGraphIPs vis srcIP dstIP)"

definition hiddenByServicePort :: "graph_visibility \<Rightarrow> int \<Rightarrow> bool" where
  "hiddenByServicePort vis servicePort =
     (if servicePort \<le> 0 then False
      else if AllowedPorts vis \<noteq> [] \<and> \<not> intIn servicePort (AllowedPorts vis) then True
      else intIn servicePort (ExcludedPorts vis))"

section \<open>Stored NULLs\<close>

text \<open>An \<open>any\<close> argument of a statement is an option: \<open>None\<close> is SQL's NULL.\<close>

definition nullIfEmpty :: "string \<Rightarrow> string option" where
  "nullIfEmpty s = (if s = [] then None else Some s)"

definition nullIfZeroStatus :: "int \<Rightarrow> int option" where
  "nullIfZeroStatus status = (if status < 100 \<or> status > 599 then None else Some status)"

definition valueOr :: "string \<Rightarrow> string \<Rightarrow> string" where
  "valueOr s fallback = (if s = [] then fallback else s)"

section \<open>The classifier\<close>

definition bad_prefix :: "string \<Rightarrow> bool" where
  "bad_prefix cidr \<longleftrightarrow> ParsePrefix cidr = None"

lemma add_prefixes_eq:
  "add_prefixes c cidrs =
     (case find bad_prefix cidrs of
        Some cidr \<Rightarrow> Inl (BadInternalCIDR cidr)
      | None \<Rightarrow> Inr (c\<lparr>cidr_prefixes := cidr_prefixes c @ map (\<lambda>s. Masked (the (ParsePrefix s))) cidrs\<rparr>))"
  by (induction c cidrs rule: add_prefixes.induct) (auto simp: bad_prefix_def split: option.splits)

text \<open>
  The meaning of a configured network: an address belongs to a CIDR when both are of the same
  family and agree on the leading bits of the CIDR.
\<close>

definition in_cidr :: "string \<Rightarrow> netip_addr \<Rightarrow> bool" where
  "in_cidr cidr a \<longleftrightarrow> (\<exists>p. ParsePrefix cidr = Some p \<and> addr_zone a = [] \<and> BitLen a = BitLen (px_addr p)
     \<and> take (px_bits p) (addr_bits (addr_bytes a)) = take (px_bits p) (addr_bits (addr_bytes (px_addr p))))"

lemma addr_wf_withoutZone [simp]: "addr_wf (withoutZone a) = addr_wf a"
  by (cases a) simp_all

lemma ParsePrefix_wf: "ParsePrefix s = Some p \<Longrightarrow> addr_wf (px_addr p)"
  by (auto simp: ParsePrefix_def PrefixFrom_def Let_def ParseAddr_wf split: option.splits if_splits)

lemma Contains_in_cidr:
  "ParseAddr ip = Some a \<Longrightarrow> ParsePrefix cidr = Some p \<Longrightarrow> Contains (Masked p) a \<longleftrightarrow> in_cidr cidr a"
  using Contains_iff [OF ParseAddr_wf ParsePrefix_wf, of ip a cidr p] by (simp add: in_cidr_def)

definition spec_scope :: "string list \<Rightarrow> string \<Rightarrow> string \<Rightarrow> string" where
  "spec_scope cidrs u dstIP =
     (case ParseAddr dstIP of
        None \<Rightarrow> ScopeUnknown
      | Some a \<Rightarrow>
          if \<exists>cidr\<in>set cidrs. in_cidr cidr a then (if u = [] then ScopeExternalPrivate else u)
          else if Addr_IsPrivate a \<or> Addr_IsLoopback a \<or> Addr_IsLinkLocalUnicast a then ScopeExternalPrivate
          else ScopeExternalPublic)"

text \<open>
  C33. Scope of a flow. A classifier is built exactly when the scope for unregistered internal
  hosts is one of the two supported ones (or empty, meaning external private) and every CIDR
  parses; the error names the unsupported scope or the first malformed CIDR. The scope of a
  flow to a registered VM depends on the tenants only. To any other address it is unknown when
  the address does not parse, the configured scope when the address shares the leading bits of
  some configured CIDR of its family, external private for private, loopback and link-local
  addresses, and external public otherwise.
\<close>

theorem classifier_scope_exact:
  "case NewClassifier cidrs u of
     Inl (UnsupportedScope v) \<Rightarrow> v = u \<and> u \<notin> {[], ScopeExternalPrivate, ScopeUnknownInternal}
   | Inl (BadInternalCIDR cidr) \<Rightarrow>
       u \<in> {[], ScopeExternalPrivate, ScopeUnknownInternal} \<and> find (\<lambda>s. ParsePrefix s = None) cidrs = Some cidr
   | Inr c \<Rightarrow>
       u \<in> {[], ScopeExternalPrivate, ScopeUnknownInternal} \<and> find (\<lambda>s. ParsePrefix s = None) cidrs = None
       \<and> Scope c st dt reg ip =
           (if reg then if st = dt then ScopeInternalSameTenant else ScopeInternalCrossTenant
            else spec_scope cidrs u ip)"
proof (cases "u \<in> {[], ScopeExternalPrivate, ScopeUnknownInternal}")
  case False
  then show ?thesis by (auto simp: NewClassifier_def Let_def)
next
  case True
  define c where "c = \<lparr>cidr_prefixes = map (\<lambda>s. Masked (the (ParsePrefix s))) cidrs,
      unregisteredInternalScope = (if u = [] then ScopeExternalPrivate else u)\<rparr>"
  have bad: "bad_prefix = (\<lambda>s. ParsePrefix s = None)" by (auto simp: bad_prefix_def)
  have new: "NewClassifier cidrs u = (case find (\<lambda>s. ParsePrefix s = None) cidrs of
      Some cidr \<Rightarrow> Inl (BadInternalCIDR cidr) | None \<Rightarrow> Inr c)"
    using True by (auto simp: NewClassifier_def add_prefixes_eq bad c_def Let_def split: option.splits)
  have "IsConfiguredInternal c ip \<longleftrightarrow> (\<exists>cidr\<in>set cidrs. in_cidr cidr a)"
    if "find (\<lambda>s. ParsePrefix s = None) cidrs = None" "ParseAddr ip = Some a" for a
  proof -
    have "\<exists>p. ParsePrefix s = Some p" if "s \<in> set cidrs" for s
      using that \<open>find _ cidrs = None\<close> by (auto simp: find_None_iff)
    then show ?thesis using that(2) Contains_in_cidr
      by (force simp: IsConfiguredInternal_def c_def list_ex_iff)
  qed
  moreover have "unregisteredInternalScope c = (if u = [] then ScopeExternalPrivate else u)"
    by (simp add: c_def)
  ultimately show ?thesis
    using True by (auto simp: new Scope_def spec_scope_def split: option.splits)
qed

section \<open>Services\<close>

lemma known_ports: "alist_get tcpServices p = Some n \<or> alist_get udpServices p = Some n \<Longrightarrow> 0 < p \<and> p < 32768"
  by (auto simp: tcpServices_def udpServices_def split: if_splits)

lemma ephemeral_unknown: "isEphemeralPort p \<Longrightarrow> alist_get tcpServices p = None \<and> alist_get udpServices p = None"
  using known_ports [of p] by (cases "alist_get tcpServices p"; cases "alist_get udpServices p") (auto simp: isEphemeralPort_def)

text \<open>
  Both ends agree on the service. A connection between a client on an ephemeral port and a
  server on a lower port is filed under the server's port whichever side reports it and in
  whichever direction, and never under the ephemeral port. The two sides also give it the same
  name, unless it is TCP to a port of the Kubernetes node port range, which is recognised only
  as a destination.
\<close>

theorem service_side_independent:
  assumes "isEphemeralPort client" "0 < server" "\<not> isEphemeralPort server"
  shows "snd (classifyService proto dir client server) = (if proto = ''icmp'' then 0 else server)
    \<and> snd (classifyService proto dir' server client) = (if proto = ''icmp'' then 0 else server)
    \<and> (fst (classifyService proto dir client server) = fst (classifyService proto dir' server client)
       \<or> proto = ''tcp'' \<and> 30000 \<le> server \<and> server \<le> 32767)"
  using assms ephemeral_unknown [OF assms(1)]
  by (auto simp: classifyService_def Let_def isEphemeralPort_def split: option.splits)

theorem service_side_independent_witness:
  "snd (classifyService ''tcp'' ''egress'' 51000 5432) = 5432 \<and> snd (classifyService ''tcp'' ''ingress'' 5432 51000) = 5432"
  using service_side_independent [of 51000 5432 "''tcp''" "''egress''" "''ingress''"]
  by (simp add: isEphemeralPort_def)

end
