(* ===== verification/Inventory.thy ===== *)
theory Inventory
  imports Classify
begin

text \<open>
  The operator's VM inventory (\<open>src/backend/internal/service/vm_inventory.go\<close>): parsing of the
  \<open>|\<close>-separated lines, the index by address, and the probe and noise settings the other
  services take from it. The properties show that a line is read back exactly as written,
  that a lookup finds the last entry for an address however it is spelled in the file, and
  that the collected noise ports and addresses are duplicate-free and complete.
\<close>

section \<open>Entries\<close>

record inventory_entry =
  Alias :: string
  Host :: string
  SSHUser :: string
  SSHKey :: string
  RemoteBackend :: string
  LocalBackend :: string
  ProxyJump :: string
  ie_Role :: string
  ie_Type :: string
  ie_Environment :: string
  ie_Owner :: string
  ie_TenantID :: string
  ie_ProjectID :: string
  ie_Region :: string
  ie_Zone :: string
  ie_NetworkID :: string
  ie_SubnetID :: string
  ie_PublicIP :: string
  ProviderID :: string
  ProbeProtocol :: string
  ProbePort :: int
  CaptureIface :: string
  ie_IgnorePorts :: "int list"
  ie_IgnoreIPs :: "string list"
  FlowAllowCIDRs :: "string list"
  FlowDenyCIDRs :: "string list"
  Notes :: string

record vm_inventory =
  inv_path :: string
  inv_entries :: "inventory_entry list"
  entriesIP :: "(string \<times> inventory_entry) list"

definition cleanInventoryField :: "string \<Rightarrow> string" where
  "cleanInventoryField v = (let v' = TrimSpace v in if v' = ''-'' then [] else v')"

definition inventoryField :: "string list \<Rightarrow> nat \<Rightarrow> string" where
  "inventoryField fs i = (if i \<ge> length fs then [] else cleanInventoryField (fs ! i))"

definition inventoryCSV :: "string list \<Rightarrow> nat \<Rightarrow> string list" where
  "inventoryCSV fs i =
     (let v = inventoryField fs i in
      if v = [] then []
      else filter (\<lambda>item. item \<noteq> []) (map cleanInventoryField (Split CHR '','' v)))"

definition port_of :: "string \<Rightarrow> int option" where
  "port_of s = (case Atoi s of Some p \<Rightarrow> if p > 0 \<and> p \<le> 65535 then Some p else None | None \<Rightarrow> None)"

definition inventoryPorts :: "string list \<Rightarrow> nat \<Rightarrow> int list" where
  "inventoryPorts fs i = List.map_filter port_of (inventoryCSV fs i)"

definition inventoryPort :: "string list \<Rightarrow> nat \<Rightarrow> int" where
  "inventoryPort fs i =
     (let v = inventoryField fs i in
      if v = [] then 0
      else case Atoi v of None \<Rightarrow> 0 | Some p \<Rightarrow> if p < 1 \<or> p > 65535 then 0 else p)"

datatype inventory_error = UnsupportedProbe string string | InvalidPublicIP string string
  | OpenFailed | LineTooLong

definition read_entry :: "(string \<Rightarrow> string) \<Rightarrow> string list \<Rightarrow> inventory_entry" where
  "read_entry ul f =
     \<lparr>Alias = inventoryField f 0, Host = inventoryField f 1, SSHUser = inventoryField f 2,
      SSHKey = inventoryField f 3, RemoteBackend = inventoryField f 4, LocalBackend = inventoryField f 5,
      ProxyJump = inventoryField f 6, ie_Role = inventoryField f 7, ie_Type = inventoryField f 8,
      ie_Environment = inventoryField f 9, ie_Owner = inventoryField f 10, ie_TenantID = inventoryField f 11,
      ie_ProjectID = inventoryField f 12, ie_Region = inventoryField f 13, ie_Zone = inventoryField f 14,
      ie_NetworkID = inventoryField f 15, ie_SubnetID = inventoryField f 16, ie_PublicIP = inventoryField f 17,
      ProviderID = inventoryField f 18, ProbeProtocol = ToLower ul (inventoryField f 19),
      ProbePort = inventoryPort f 20, CaptureIface = inventoryField f 21,
      ie_IgnorePorts = inventoryPorts f 22, ie_IgnoreIPs = inventoryCSV f 23,
      FlowAllowCIDRs = inventoryCSV f 24, FlowDenyCIDRs = inventoryCSV f 25, Notes = inventoryField f 26\<rparr>"

text \<open>The three results of the Go function: an error, no entry (\<open>ok\<close> false), or an entry.\<close>

definition parseVMInventoryEntry ::
    "(string \<Rightarrow> string) \<Rightarrow> string \<Rightarrow> inventory_error + inventory_entry option" where
  "parseVMInventoryEntry ul line =
     (let fs = Split CHR ''|'' line in
      if length fs < 2 then Inr None
      else let entry = read_entry ul fs in
        if Alias entry = [] \<or> Host entry = [] then Inr None
        else if ProbeProtocol entry \<notin> {[], ''tcp'', ''udp'', ''icmp''}
        then Inl (UnsupportedProbe (Alias entry) (ProbeProtocol entry))
        else if ie_PublicIP entry \<noteq> [] \<and> ParseAddr (ie_PublicIP entry) = None
        then Inl (InvalidPublicIP (Alias entry) (ie_PublicIP entry))
        else Inr (Some entry))"

section \<open>Reading the file\<close>

datatype file_result = NotExist | OpenError | Contents string

text \<open>
  \<open>bufio.Scanner\<close>: lines without their \<open>\n\<close> and one trailing \<open>\r\<close>; no token for an empty rest at
  the end of the file; a line that does not fit in the buffer of 64 KiB ends the scan with an
  error.
\<close>

definition dropCR :: "string \<Rightarrow> string" where
  "dropCR s = (if s \<noteq> [] \<and> last s = CHR 0x0D then butlast s else s)"

definition raw_lines :: "string \<Rightarrow> string list" where
  "raw_lines s = (let ls = Split CHR 0x0A s in if last ls = [] then butlast ls else ls)"

definition MaxScanTokenSize :: nat where
  "MaxScanTokenSize = 65536"

fun load_lines :: "(string \<Rightarrow> string) \<Rightarrow> string list \<Rightarrow> inventory_entry list \<Rightarrow> inventory_error + inventory_entry list" where
  "load_lines ul [] entries = Inr entries"
| "load_lines ul (raw # rest) entries =
     (if length raw \<ge> MaxScanTokenSize then Inl LineTooLong
      else let line = TrimSpace (dropCR raw) in
        if line = [] \<or> HasPrefix line ''#'' then load_lines ul rest entries
        else case parseVMInventoryEntry ul line of
          Inl e \<Rightarrow> Inl e
        | Inr None \<Rightarrow> load_lines ul rest entries
        | Inr (Some entry) \<Rightarrow> load_lines ul rest (entries @ [entry]))"

definition LoadEntries :: "(string \<Rightarrow> string) \<Rightarrow> file_result \<Rightarrow> vm_inventory \<Rightarrow> inventory_error + inventory_entry list" where
  "LoadEntries ul file i =
     (if inv_path i = [] then Inr []
      else case file of
        NotExist \<Rightarrow> Inr []
      | OpenError \<Rightarrow> Inl OpenFailed
      | Contents s \<Rightarrow> load_lines ul (raw_lines s) [])"

text \<open>\<open>netip.Addr.String\<close>.\<close>

fun Addr_String :: "netip_addr \<Rightarrow> string" where
  "Addr_String (Addr4 b) = dotted b"
| "Addr_String (Addr6 b z) =
     (if v4_mapped b then ''::ffff:'' @ dotted (drop 12 b) else show_v6 b) @ (if z = [] then [] else ''%'' @ z)"

definition index_entry :: "(string \<times> 'v) list \<Rightarrow> string \<Rightarrow> 'v \<Rightarrow> (string \<times> 'v) list" where
  "index_entry m host v = (case ParseAddr host of Some a \<Rightarrow> alist_set (Addr_String a) v m | None \<Rightarrow> m)"

definition inventory_Load :: "(string \<Rightarrow> string) \<Rightarrow> file_result \<Rightarrow> vm_inventory \<Rightarrow> inventory_error option \<times> vm_inventory" where
  "inventory_Load ul file i =
     (case LoadEntries ul file i of
        Inl e \<Rightarrow> (Some e, i)
      | Inr entries \<Rightarrow>
          (None, i\<lparr>inv_entries := entries,
                   entriesIP := foldl (\<lambda>m entry. index_entry m (Host entry) entry) [] entries\<rparr>))"

definition NewVMInventory :: "(string \<Rightarrow> string) \<Rightarrow> file_result \<Rightarrow> string \<Rightarrow> vm_inventory" where
  "NewVMInventory ul file path =
     snd (inventory_Load ul file \<lparr>inv_path = TrimSpace path, inv_entries = [], entriesIP = []\<rparr>)"

definition LoadAliases :: "(string \<Rightarrow> string) \<Rightarrow> file_result \<Rightarrow> vm_inventory \<Rightarrow> inventory_error + (string \<times> string) list" where
  "LoadAliases ul file i =
     (case LoadEntries ul file i of
        Inl e \<Rightarrow> Inl e
      | Inr entries \<Rightarrow> Inr (foldl (\<lambda>m entry. index_entry m (Host entry) (Alias entry)) [] entries))"

section \<open>Queries\<close>

text \<open>A nil inventory is \<open>None\<close>.\<close>

definition Entries :: "vm_inventory option \<Rightarrow> inventory_entry list" where
  "Entries i = (case i of None \<Rightarrow> [] | Some vi \<Rightarrow> inv_entries vi)"

definition EntryForIP :: "vm_inventory option \<Rightarrow> string \<Rightarrow> inventory_entry option" where
  "EntryForIP i ip = (case i of None \<Rightarrow> None | Some vi \<Rightarrow> alist_get (entriesIP vi) (TrimSpace ip))"

definition AliasForIP :: "vm_inventory option \<Rightarrow> string \<Rightarrow> string" where
  "AliasForIP i ip = (case EntryForIP i ip of None \<Rightarrow> [] | Some entry \<Rightarrow> Alias entry)"

text \<open>\<open>firstNonEmpty\<close> of the service package: the first value that is not blank, trimmed.\<close>

fun svc_firstNonEmpty :: "string list \<Rightarrow> string" where
  "svc_firstNonEmpty [] = []"
| "svc_firstNonEmpty (v # vs) = (if TrimSpace v \<noteq> [] then TrimSpace v else svc_firstNonEmpty vs)"

definition ProbeForIP :: "vm_inventory option \<Rightarrow> string \<Rightarrow> string \<Rightarrow> int \<Rightarrow> string \<times> int" where
  "ProbeForIP i ip fallbackProtocol fallbackPort =
     (case EntryForIP i ip of
        None \<Rightarrow> (fallbackProtocol, fallbackPort)
      | Some entry \<Rightarrow>
          (svc_firstNonEmpty [ProbeProtocol entry, fallbackProtocol],
           if ProbePort entry > 0 then ProbePort entry else fallbackPort))"

text \<open>The seen-set loops: the first occurrence of every wanted value, in order.\<close>

fun collect_new :: "('a \<Rightarrow> bool) \<Rightarrow> 'a list \<Rightarrow> 'a list \<Rightarrow> 'a list" where
  "collect_new want out [] = out"
| "collect_new want out (x # xs) =
     collect_new want (if want x \<and> x \<notin> set out then out @ [x] else out) xs"

definition IgnoredPorts :: "vm_inventory option \<Rightarrow> int list" where
  "IgnoredPorts i =
     foldl (\<lambda>out entry. collect_new (\<lambda>p. p > 0) (collect_new (\<lambda>p. p > 0) out [ProbePort entry]) (ie_IgnorePorts entry))
       [] (Entries i)"

definition IgnoredIPs :: "vm_inventory option \<Rightarrow> string list" where
  "IgnoredIPs i = foldl (\<lambda>out entry. collect_new (\<lambda>ip. ip \<noteq> []) out (ie_IgnoreIPs entry)) [] (Entries i)"

section \<open>Plain fields\<close>

text \<open>
  The reference format: fields of printable ASCII characters without leading or trailing
  blanks, separated by \<open>|\<close>, an empty field written \<open>-\<close>, lists separated by commas.
\<close>

definition graphic :: "char \<Rightarrow> bool" where
  "graphic c \<longleftrightarrow> 0x20 \<le> (of_char c :: nat) \<and> (of_char c :: nat) \<le> 0x7E"

definition printable :: "char \<Rightarrow> bool" where
  "printable c \<longleftrightarrow> graphic c \<and> c \<noteq> CHR ''|''"

definition plain :: "string \<Rightarrow> bool" where
  "plain s \<longleftrightarrow> s \<noteq> [] \<and> s \<noteq> ''-'' \<and> list_all printable s \<and> hd s \<noteq> CHR '' '' \<and> last s \<noteq> CHR '' ''"

definition show_field :: "string \<Rightarrow> string" where
  "show_field s = (if s = [] then ''-'' else s)"

definition show_list :: "string list \<Rightarrow> string" where
  "show_list xs = show_field (Join '','' xs)"

definition show_port :: "int \<Rightarrow> string" where
  "show_port p = (if p = 0 then ''-'' else itoa p)"

definition inventory_fields :: "inventory_entry \<Rightarrow> string list" where
  "inventory_fields e =
     [show_field (Alias e), show_field (Host e), show_field (SSHUser e), show_field (SSHKey e),
      show_field (RemoteBackend e), show_field (LocalBackend e), show_field (ProxyJump e),
      show_field (ie_Role e), show_field (ie_Type e), show_field (ie_Environment e), show_field (ie_Owner e),
      show_field (ie_TenantID e), show_field (ie_ProjectID e), show_field (ie_Region e), show_field (ie_Zone e),
      show_field (ie_NetworkID e), show_field (ie_SubnetID e), show_field (ie_PublicIP e),
      show_field (ProviderID e), show_field (ProbeProtocol e), show_port (ProbePort e),
      show_field (CaptureIface e), show_list (map itoa (ie_IgnorePorts e)), show_list (ie_IgnoreIPs e),
      show_list (FlowAllowCIDRs e), show_list (FlowDenyCIDRs e), show_field (Notes e)]"

definition inventory_line :: "inventory_entry \<Rightarrow> string" where
  "inventory_line e = Join ''|'' (inventory_fields e)"

definition text_ok :: "string \<Rightarrow> bool" where
  "text_ok s \<longleftrightarrow> s = [] \<or> plain s"

definition item_ok :: "string \<Rightarrow> bool" where
  "item_ok s \<longleftrightarrow> plain s \<and> CHR '','' \<notin> set s"

definition entry_wf :: "inventory_entry \<Rightarrow> bool" where
  "entry_wf e \<longleftrightarrow>
     list_all text_ok [SSHUser e, SSHKey e, RemoteBackend e, LocalBackend e, ProxyJump e, ie_Role e, ie_Type e,
       ie_Environment e, ie_Owner e, ie_TenantID e, ie_ProjectID e, ie_Region e, ie_Zone e, ie_NetworkID e,
       ie_SubnetID e, ie_PublicIP e, ProviderID e, CaptureIface e, Notes e]
     \<and> plain (Alias e) \<and> plain (Host e) \<and> hd (Alias e) \<noteq> CHR ''#''
     \<and> ProbeProtocol e \<in> {[], ''tcp'', ''udp'', ''icmp''}
     \<and> 0 \<le> ProbePort e \<and> ProbePort e \<le> 65535
     \<and> list_all (\<lambda>p. 0 < p \<and> p \<le> 65535) (ie_IgnorePorts e)
     \<and> list_all item_ok (ie_IgnoreIPs e) \<and> list_all item_ok (FlowAllowCIDRs e) \<and> list_all item_ok (FlowDenyCIDRs e)
     \<and> (ie_PublicIP e = [] \<or> ParseAddr (ie_PublicIP e) \<noteq> None)
     \<and> length (inventory_line e) < MaxScanTokenSize"

definition inventory_file :: "inventory_entry list \<Rightarrow> string" where
  "inventory_file es = concat (map (\<lambda>e. inventory_line e @ [CHR 0x0A]) es)"

lemma graphic_not_space: "graphic c \<Longrightarrow> c \<noteq> CHR '' '' \<Longrightarrow> \<not> space1 c"
  by (auto simp: graphic_def space1_def)

lemma graphic_ascii: "graphic c \<Longrightarrow> c \<notin> {CHR 0xC2, CHR 0x85, CHR 0xA0, CHR 0xE1, CHR 0xE2, CHR 0xE3}"
  by (auto simp: graphic_def)

lemma graphic_starts: "list_all graphic s \<Longrightarrow> s = [] \<or> hd s \<noteq> CHR '' '' \<Longrightarrow> \<not> starts_space s"
  using graphic_not_space graphic_ascii
  by (cases s rule: starts_space.cases) (auto simp: space2_def space3_def)

lemma trim_rev_id:
  assumes "list_all graphic s" "s = [] \<or> hd s \<noteq> CHR '' ''"
  shows "trim_rev s = s"
proof -
  have "\<not> space2 b a" "\<not> space3 c b a" if "graphic c" "graphic b" for a b c
    using that graphic_ascii [of b] graphic_ascii [of c] by (auto simp: space2_def space3_def)
  then show ?thesis
    using assms graphic_not_space by (cases s rule: trim_rev.cases) auto
qed

lemma graphic_trim:
  "list_all graphic s \<Longrightarrow> s = [] \<or> hd s \<noteq> CHR '' '' \<and> last s \<noteq> CHR '' '' \<Longrightarrow> TrimSpace s = s"
  using graphic_starts [of s] trim_rev_id [of "rev s"]
  by (auto simp: TrimSpace_def trim_left_id hd_rev)

lemma plain_trim [simp]: "plain s \<Longrightarrow> TrimSpace s = s"
  by (rule graphic_trim) (auto simp: plain_def printable_def list_all_iff)

lemma clean_plain [simp]: "plain s \<Longrightarrow> cleanInventoryField s = s"
  by (simp add: cleanInventoryField_def) (simp add: plain_def)

lemma clean_dash [simp]: "cleanInventoryField ''-'' = []"
  by code_simp

lemma clean_show [simp]: "text_ok s \<Longrightarrow> cleanInventoryField (show_field s) = s"
  by (auto simp: text_ok_def show_field_def)

section \<open>Splitting and joining\<close>

lemma Split_nonempty [simp]: "Split c s \<noteq> []"
  by (induction c s rule: Split.induct) (auto split: list.splits)

lemma Split_plain: "c \<notin> set s \<Longrightarrow> Split c s = [s]"
  by (induction s) auto

lemma Split_append: "c \<notin> set s \<Longrightarrow> Split c (s @ c # t) = s # Split c t"
  by (induction s) auto

lemma Split_Join: "fs \<noteq> [] \<Longrightarrow> \<forall>f\<in>set fs. c \<notin> set f \<Longrightarrow> Split c (Join [c] fs) = fs"
  by (induction "[c]" fs rule: Join.induct) (auto simp: Split_plain Split_append)

lemma set_Join: "set (Join sep fs) \<subseteq> set sep \<union> \<Union> (set ` set fs)"
  by (induction sep fs rule: Join.induct) auto

lemma show_nat_digits_val: "digits_val (show_nat n) = n"
proof (induction n rule: show_nat.induct)
  case (1 n)
  show ?case
  proof (cases "n < 10")
    case True
    then show ?thesis by (simp add: show_nat.simps [of n] digits_val_def)
  next
    case False
    have "digits_val (a @ [digit d]) = digits_val a * 10 + d" if "d < 10" for a d
      using that by (simp add: digits_val_def)
    with 1 False show ?thesis by (simp add: show_nat.simps [of n])
  qed
qed

lemma Atoi_itoa: "0 \<le> p \<Longrightarrow> p < 2 ^ 63 \<Longrightarrow> Atoi (itoa p) = Some p"
proof -
  assume p: "0 \<le> p" "p < 2 ^ 63"
  have "is_digit (hd (show_nat (nat p)))" by (rule show_nat_digits [of _ "nat p"]) simp
  then have "hd (show_nat (nat p)) \<noteq> CHR ''-''" "hd (show_nat (nat p)) \<noteq> CHR ''+''"
    by (auto simp: is_digit_def)
  moreover have "list_all is_digit (show_nat (nat p))" using show_nat_digits by (auto simp: list_all_iff)
  ultimately show ?thesis using p by (simp add: Atoi_def itoa_def show_nat_digits_val in_i64_def Let_def)
qed

lemma digit_printable: "is_digit c \<Longrightarrow> printable c \<and> c \<noteq> CHR '' '' \<and> c \<noteq> CHR ''-'' \<and> c \<noteq> CHR '','' \<and> c \<noteq> CHR ''|''"
  by (auto simp: is_digit_def printable_def graphic_def)

lemma itoa_item: "0 \<le> p \<Longrightarrow> item_ok (itoa p)"
proof -
  assume p: "0 \<le> p"
  have d: "\<forall>c\<in>set (show_nat (nat p)). is_digit c" using show_nat_digits by blast
  then have "is_digit (hd (show_nat (nat p)))" "is_digit (last (show_nat (nat p)))" by simp_all
  with d p show ?thesis
    using digit_printable by (fastforce simp: item_ok_def plain_def itoa_def list_all_iff)
qed

lemma Join_plain:
  assumes "list_all item_ok xs" "xs \<noteq> []"
  shows "plain (Join '','' xs)"
  using assms
proof (induction "'',''" xs rule: Join.induct)
  case (3 x y ys)
  have x: "plain x" and r: "plain (Join '','' (y # ys))" using 3 by (auto simp: item_ok_def)
  have "x @ '','' @ Join '','' (y # ys) \<noteq> ''-''" using x by (cases x) (auto simp: plain_def)
  then show ?case using x r by (simp add: plain_def) (simp add: printable_def graphic_def)
qed (auto simp: item_ok_def)

lemma csv_show:
  assumes "list_all item_ok xs" "i < length fs" "fs ! i = show_list xs"
  shows "inventoryCSV fs i = xs"
proof (cases "xs = []")
  case True
  with assms show ?thesis by (simp add: inventoryCSV_def inventoryField_def show_list_def show_field_def)
next
  case False
  have pl: "plain (Join '','' xs)" using Join_plain assms False by simp
  then have "inventoryField fs i = Join '','' xs"
    using assms by (simp add: inventoryField_def show_list_def show_field_def plain_def [of "Join _ _"])
  moreover have "Split CHR '','' (Join '','' xs) = xs"
    using Split_Join [of xs "CHR '',''"] assms(1) False by (auto simp: list_all_iff item_ok_def)
  moreover have "map cleanInventoryField xs = xs" "filter (\<lambda>x. x \<noteq> []) xs = xs"
    using assms(1) by (auto simp: list_all_iff item_ok_def plain_def intro!: map_idI)
  ultimately show ?thesis using pl by (simp add: inventoryCSV_def plain_def)
qed

lemma port_show:
  assumes "0 \<le> p" "p \<le> 65535" "i < length fs" "fs ! i = show_port p"
  shows "inventoryPort fs i = p"
proof (cases "p = 0")
  case True
  with assms show ?thesis by (simp add: inventoryPort_def inventoryField_def show_port_def)
next
  case False
  have "plain (itoa p)" using itoa_item assms by (simp add: item_ok_def)
  then have "inventoryField fs i = itoa p" "itoa p \<noteq> []"
    using assms False by (simp_all add: inventoryField_def show_port_def plain_def [of "itoa p"])
  with assms False show ?thesis by (simp add: inventoryPort_def Atoi_itoa)
qed

lemma ports_show:
  assumes "list_all (\<lambda>p. 0 < p \<and> p \<le> 65535) ps" "i < length fs" "fs ! i = show_list (map itoa ps)"
  shows "inventoryPorts fs i = ps"
proof -
  have "inventoryCSV fs i = map itoa ps"
    using assms itoa_item by (intro csv_show) (auto simp: list_all_iff)
  moreover have "List.map_filter port_of (map itoa ps) = ps"
    using assms(1) by (induction ps) (auto simp: map_filter_def port_of_def Atoi_itoa)
  ultimately show ?thesis by (simp add: inventoryPorts_def)
qed

lemma no_bar_plain: "text_ok s \<Longrightarrow> CHR ''|'' \<notin> set (show_field s)"
  by (auto simp: text_ok_def show_field_def plain_def list_all_iff printable_def)

lemma no_bar_list: "list_all item_ok xs \<Longrightarrow> CHR ''|'' \<notin> set (show_list xs)"
  using Join_plain [of xs] no_bar_plain [of "Join '','' xs"]
  by (cases "xs = []") (auto simp: show_list_def text_ok_def show_field_def)

lemma no_bar_port: "0 \<le> p \<Longrightarrow> CHR ''|'' \<notin> set (show_port p)"
  using itoa_item [of p] by (auto simp: show_port_def item_ok_def plain_def list_all_iff printable_def)

lemma ToLower_probe: "p \<in> {[], ''tcp'', ''udp'', ''icmp''} \<Longrightarrow> ToLower ul p = p"
  by (auto simp: ToLower_def is_ascii_def ascii_lower_def Let_def)

lemma probe_text: "p \<in> {[], ''tcp'', ''udp'', ''icmp''} \<Longrightarrow> text_ok p"
  by (auto simp: text_ok_def plain_def printable_def graphic_def)

lemma itoa_items: "list_all (\<lambda>p. 0 < p \<and> p \<le> 65535) ps \<Longrightarrow> list_all item_ok (map itoa ps)"
  using itoa_item by (auto simp: list_all_iff)

lemma entry_texts:
  assumes "entry_wf e"
  shows "text_ok (Alias e)" "text_ok (Host e)" "text_ok (ProbeProtocol e)"
  using assms probe_text by (auto simp: entry_wf_def text_ok_def)

lemma Split_line:
  assumes "entry_wf e"
  shows "Split CHR ''|'' (inventory_line e) = inventory_fields e"
  unfolding inventory_line_def
proof (rule Split_Join)
  show "\<forall>f\<in>set (inventory_fields e). CHR ''|'' \<notin> set f"
    using assms entry_texts [OF assms] itoa_items
    by (auto simp: inventory_fields_def entry_wf_def dest: no_bar_plain no_bar_list no_bar_port)
qed (simp add: inventory_fields_def)

lemma length_fields [simp]: "length (inventory_fields e) = 27"
  by (simp add: inventory_fields_def)

lemma read_show:
  assumes "entry_wf e"
  shows "read_entry ul (inventory_fields e) = e"
proof -
  note texts = entry_texts [OF assms]
  have list: "inventoryPort (inventory_fields e) 20 = ProbePort e"
    "inventoryPorts (inventory_fields e) 22 = ie_IgnorePorts e"
    "inventoryCSV (inventory_fields e) 23 = ie_IgnoreIPs e"
    "inventoryCSV (inventory_fields e) 24 = FlowAllowCIDRs e"
    "inventoryCSV (inventory_fields e) 25 = FlowDenyCIDRs e"
    using assms
    by (auto simp: entry_wf_def inventory_fields_def intro!: port_show ports_show csv_show)
  show ?thesis
    using assms texts
    by (simp add: read_entry_def list) (simp add: entry_wf_def inventory_fields_def inventoryField_def ToLower_probe)
qed

lemma parse_line:
  assumes "entry_wf e"
  shows "parseVMInventoryEntry ul (inventory_line e) = Inr (Some e)"
  using assms
  by (simp add: parseVMInventoryEntry_def Split_line read_show) (auto simp: entry_wf_def plain_def)

section \<open>The file\<close>

definition fine :: "string \<Rightarrow> bool" where
  "fine f \<longleftrightarrow> list_all printable f \<and> f \<noteq> [] \<and> last f \<noteq> CHR '' ''"

lemma fine_text: "text_ok s \<Longrightarrow> fine (show_field s)"
  by (auto simp: text_ok_def show_field_def fine_def plain_def printable_def graphic_def)

lemma fine_list: "list_all item_ok xs \<Longrightarrow> fine (show_list xs)"
  using Join_plain [of xs] by (cases "xs = []") (auto simp: show_list_def text_ok_def intro: fine_text)

lemma fine_port: "0 \<le> p \<Longrightarrow> fine (show_port p)"
  using itoa_item [of p] by (auto simp: show_port_def item_ok_def fine_def plain_def printable_def graphic_def)

lemma fields_fine:
  assumes "entry_wf e"
  shows "list_all fine (inventory_fields e)"
  using assms entry_texts [OF assms] itoa_items [of "ie_IgnorePorts e"]
  by (simp add: inventory_fields_def entry_wf_def fine_text fine_list fine_port)

lemma Join_hd: "x \<noteq> [] \<Longrightarrow> hd (Join sep (x # xs)) = hd x"
  by (cases xs) auto

lemma Join_last: "xs \<noteq> [] \<Longrightarrow> last xs \<noteq> [] \<Longrightarrow> Join sep xs \<noteq> [] \<and> last (Join sep xs) = last (last xs)"
  by (induction sep xs rule: Join.induct) auto

lemma line_chars:
  assumes "entry_wf e"
  shows "list_all graphic (inventory_line e)"
proof -
  have "graphic CHR ''|''" by (simp add: graphic_def)
  then show ?thesis
    using fields_fine [OF assms] set_Join [of "''|''" "inventory_fields e"]
    by (fastforce simp: inventory_line_def list_all_iff fine_def printable_def)
qed

lemma line_ends:
  assumes "entry_wf e"
  shows "inventory_line e \<noteq> []" "hd (inventory_line e) = hd (Alias e)" "last (inventory_line e) \<noteq> CHR '' ''"
proof -
  have al: "plain (Alias e)" using assms by (simp add: entry_wf_def)
  have "inventory_fields e = Alias e # tl (inventory_fields e)"
    using al by (simp add: inventory_fields_def show_field_def plain_def)
  then show "hd (inventory_line e) = hd (Alias e)"
    using Join_hd [of "Alias e" "''|''"] al by (metis inventory_line_def plain_def)
  have ne: "inventory_fields e \<noteq> []" by (simp add: inventory_fields_def)
  then have "fine (last (inventory_fields e))" using fields_fine [OF assms] by (simp add: list_all_iff)
  with ne Join_last [of "inventory_fields e" "''|''"]
  show "inventory_line e \<noteq> []" "last (inventory_line e) \<noteq> CHR '' ''" by (auto simp: inventory_line_def fine_def)
qed

lemma line_kept:
  assumes "entry_wf e"
  shows "CHR 0x0A \<notin> set (inventory_line e)" "TrimSpace (dropCR (inventory_line e)) = inventory_line e"
    "\<not> HasPrefix (inventory_line e) ''#''"
proof -
  note chars = line_chars [OF assms] and ends = line_ends [OF assms]
  have "\<not> graphic CHR 0x0A" "\<not> graphic CHR 0x0D" by (simp_all add: graphic_def)
  with chars ends(1) show "CHR 0x0A \<notin> set (inventory_line e)" by (auto simp: list_all_iff)
  have "last (inventory_line e) \<noteq> CHR 0x0D"
    using chars ends(1) \<open>\<not> graphic CHR 0x0D\<close> by (metis last_in_set list_all_iff)
  moreover have "hd (inventory_line e) \<noteq> CHR '' ''" "hd (inventory_line e) \<noteq> CHR ''#''"
    using ends(2) assms by (auto simp: entry_wf_def plain_def)
  moreover have "\<not> HasPrefix s ''#''" if "hd s \<noteq> CHR ''#''" for s using that by (cases s) simp_all
  ultimately show "TrimSpace (dropCR (inventory_line e)) = inventory_line e" "\<not> HasPrefix (inventory_line e) ''#''"
    using graphic_trim [OF chars] ends by (simp_all add: dropCR_def)
qed

lemma raw_lines_file:
  "\<forall>e\<in>set es. entry_wf e \<Longrightarrow> Split CHR 0x0A (inventory_file es) = map inventory_line es @ [[]]"
  by (induction es) (simp_all add: inventory_file_def Split_append line_kept(1))

lemma load_line_show:
  assumes "entry_wf e"
  shows "load_lines ul (inventory_line e # rest) acc = load_lines ul rest (acc @ [e])"
proof -
  have "length (inventory_line e) < MaxScanTokenSize" using assms by (simp add: entry_wf_def)
  then show ?thesis by (simp add: line_kept [OF assms] parse_line [OF assms] line_ends(1) [OF assms])
qed

lemma load_lines_show:
  "\<forall>e\<in>set es. entry_wf e \<Longrightarrow> load_lines ul (map inventory_line es) acc = Inr (acc @ es)"
proof (induction es arbitrary: acc)
  case (Cons e es)
  then show ?case using load_line_show [of e ul "map inventory_line es" acc] by simp
qed simp

text \<open>
  C34. An inventory file is read back as written. For any list of well-formed entries (printable
  fields without \<open>|\<close>, an alias that is not a comment, a supported probe protocol, ports in
  range), loading the file that has one line per entry, fields separated by \<open>|\<close>, empty fields
  written \<open>-\<close> and lists separated by commas, returns exactly these entries in order.
\<close>

theorem inventory_file_roundtrip:
  assumes "inv_path i \<noteq> []" "\<forall>e\<in>set es. entry_wf e"
  shows "LoadEntries ul (Contents (inventory_file es)) i = Inr es"
  using assms load_lines_show [OF assms(2), of ul "[]"]
  by (simp add: LoadEntries_def raw_lines_def raw_lines_file Let_def)

definition demo_entry :: inventory_entry where
  "demo_entry = \<lparr>Alias = ''db'', Host = ''10.0.0.7'', SSHUser = [], SSHKey = [], RemoteBackend = [],
     LocalBackend = [], ProxyJump = [], ie_Role = ''database'', ie_Type = [], ie_Environment = [], ie_Owner = [],
     ie_TenantID = ''t1'', ie_ProjectID = [], ie_Region = [], ie_Zone = [], ie_NetworkID = [], ie_SubnetID = [],
     ie_PublicIP = [], ProviderID = [], ProbeProtocol = ''tcp'', ProbePort = 22, CaptureIface = [],
     ie_IgnorePorts = [22], ie_IgnoreIPs = [''10.0.0.1''], FlowAllowCIDRs = [], FlowDenyCIDRs = [], Notes = []\<rparr>"

lemma demo_entry_wf: "entry_wf demo_entry"
  by (simp add: entry_wf_def demo_entry_def text_ok_def item_ok_def plain_def printable_def graphic_def
      inventory_line_def inventory_fields_def show_field_def show_list_def show_port_def itoa_def
      show_nat.simps MaxScanTokenSize_def)

theorem inventory_file_roundtrip_witness:
  "LoadEntries id (Contents (inventory_file [demo_entry, demo_entry])) \<lparr>inv_path = ''vms.txt'', inv_entries = [], entriesIP = []\<rparr>
     = Inr [demo_entry, demo_entry]"
  by (rule inventory_file_roundtrip) (simp_all add: demo_entry_wf)

section \<open>Lookups\<close>

definition host_key :: "string \<Rightarrow> string option" where
  "host_key host = map_option Addr_String (ParseAddr host)"

lemma index_get:
  "alist_get (foldl (\<lambda>m e. index_entry m (Host e) (f e)) m es) k =
     (case find (\<lambda>e. host_key (Host e) = Some k) (rev es) of Some e \<Rightarrow> Some (f e) | None \<Rightarrow> alist_get m k)"
proof (induction es rule: rev_induct)
  case (snoc e es)
  then show ?case by (auto simp: index_entry_def host_key_def alist_get_set split: option.splits)
qed simp

lemma collect_new_set: "set (collect_new want out xs) = set out \<union> {x \<in> set xs. want x}"
  by (induction want out xs rule: collect_new.induct) auto

lemma collect_new_distinct: "distinct out \<Longrightarrow> distinct (collect_new want out xs)"
  by (induction want out xs rule: collect_new.induct) auto

lemma fold_collect:
  "distinct out \<Longrightarrow>
   set (foldl (\<lambda>out e. collect_new want out (f e)) out es) = set out \<union> {x. want x \<and> (\<exists>e\<in>set es. x \<in> set (f e))}
   \<and> distinct (foldl (\<lambda>out e. collect_new want out (f e)) out es)"
  by (induction es arbitrary: out) (auto simp: collect_new_set collect_new_distinct)

lemma collect_new_append: "collect_new want (collect_new want out xs) ys = collect_new want out (xs @ ys)"
  by (induction want out xs rule: collect_new.induct) simp_all

text \<open>
  Inventory queries. After a successful load, the entry for an address is the last entry of
  the file whose host is an address with that canonical text (so a host written in any spelling
  of the address is found), and the noise ports and addresses are collected without duplicates: exactly
  the positive probe and ignore ports, and the non-empty ignored addresses, of all entries.
\<close>

theorem inventory_queries:
  assumes "inventory_Load ul file i = (None, i')"
  shows "\<exists>es. LoadEntries ul file i = Inr es \<and> Entries (Some i') = es
    \<and> EntryForIP (Some i') ip = find (\<lambda>e. host_key (Host e) = Some (TrimSpace ip)) (rev es)
    \<and> distinct (IgnoredPorts (Some i')) \<and> distinct (IgnoredIPs (Some i'))
    \<and> set (IgnoredPorts (Some i')) = {p. p > 0 \<and> (\<exists>e\<in>set es. p = ProbePort e \<or> p \<in> set (ie_IgnorePorts e))}
    \<and> set (IgnoredIPs (Some i')) = {ip. ip \<noteq> [] \<and> (\<exists>e\<in>set es. ip \<in> set (ie_IgnoreIPs e))}"
proof -
  obtain es where es: "LoadEntries ul file i = Inr es"
    and i': "inv_entries i' = es" "entriesIP i' = foldl (\<lambda>m e. index_entry m (Host e) e) [] es"
    using assms by (auto simp: inventory_Load_def split: sum.splits)
  have ports: "IgnoredPorts (Some i') = foldl (\<lambda>out e. collect_new (\<lambda>p. p > 0) out (ProbePort e # ie_IgnorePorts e)) [] es"
    by (simp add: IgnoredPorts_def Entries_def i'(1) collect_new_append del: collect_new.simps)
  show ?thesis
    using fold_collect [of "[]" "\<lambda>p. p > (0 :: int)" "\<lambda>e. ProbePort e # ie_IgnorePorts e" es]
      fold_collect [of "[]" "\<lambda>ip. ip \<noteq> []" ie_IgnoreIPs es] index_get [where f = id and m = "[]", of es "TrimSpace ip"]
    unfolding ports es EntryForIP_def i' IgnoredIPs_def Entries_def
    by (intro exI [of _ es]) (auto simp: i' split: option.splits)
qed

definition demo_inventory :: vm_inventory where
  "demo_inventory = snd (inventory_Load id (Contents (inventory_file [demo_entry])) \<lparr>inv_path = ''vms.txt'', inv_entries = [], entriesIP = []\<rparr>)"

theorem inventory_queries_witness:
  "EntryForIP (Some demo_inventory) ''10.0.0.7'' = Some demo_entry \<and> distinct (IgnoredPorts (Some demo_inventory))"
proof -
  let ?i = "\<lparr>inv_path = ''vms.txt'', inv_entries = [], entriesIP = []\<rparr>" and ?file = "Contents (inventory_file [demo_entry])"
  have es: "LoadEntries id ?file ?i = Inr [demo_entry]"
    using load_lines_show [of "[demo_entry]" id "[]"] demo_entry_wf
    by (simp add: LoadEntries_def raw_lines_def raw_lines_file Let_def)
  then have load: "inventory_Load id ?file ?i = (None, demo_inventory)"
    by (simp add: inventory_Load_def demo_inventory_def)
  have "find (\<lambda>e. host_key (Host e) = Some (TrimSpace ''10.0.0.7'')) (rev [demo_entry]) = Some demo_entry" by code_simp
  then show ?thesis using inventory_queries [OF load, of "''10.0.0.7''"] es by auto
qed

end
