(* ===== verification/Database.thy ===== *)
theory Database
  imports Metrics Inventory
begin

text \<open>
  The backend's database as its services see it (\<open>src/backend/internal/db/migrations\<close>): one
  list of rows per table, nullable columns as options, and the statements the services send
  as functions on the tables. What PostgreSQL computes and the program only relies on (the
  cast to \<open>inet\<close>, \<open>host()\<close>, fresh UUIDs, the precision of stored times, the number it takes a
  floating-point argument for whose type it infers from a comparison with an integer) is the
  parameter record \<open>pg\<close>. Every statement can fail: the session counts down to a failing statement, so a
  theorem over all sessions covers a failure at every point. A transaction that does not
  reach its commit leaves the tables as they were.
\<close>

section \<open>Rows and tables\<close>

record 'ip pg =
  inet :: "string \<Rightarrow> 'ip option"
  host :: "'ip \<Rightarrow> string"
  uuid :: "nat \<Rightarrow> string"
  stamp :: "gotime \<Rightarrow> gotime"
  number_arg :: "f64 \<Rightarrow> f64"

record agent_row =
  ag_id :: string
  ag_vm_id :: "string option"
  ag_hostname :: string
  ag_machine_id :: "string option"
  ag_os :: "string option"
  ag_kernel :: "string option"
  ag_agent_version :: "string option"
  ag_environment :: "string option"
  ag_project_id :: "string option"
  ag_status :: string
  ag_first_seen :: gotime
  ag_last_seen :: gotime

record 'ip vm_row =
  vm_id :: string
  vm_name :: string
  vm_tenant_id :: "string option"
  vm_project_id :: "string option"
  vm_private_ip :: "'ip option"
  vm_public_ip :: "'ip option"
  vm_mac_address :: "string option"
  vm_host_id :: "string option"
  vm_role :: "string option"
  vm_host_type :: "string option"
  vm_environment :: "string option"
  vm_owner :: "string option"
  vm_region :: "string option"
  vm_zone :: "string option"
  vm_network_id :: "string option"
  vm_subnet_id :: "string option"
  vm_discovered_by :: string
  vm_agent_id :: "string option"
  vm_machine_id :: "string option"
  vm_status :: string
  vm_first_seen :: gotime
  vm_last_seen :: gotime
  vm_created_at :: gotime

record 'ip iface_row =
  vi_vm_id :: string
  vi_name :: string
  vi_ip_address :: "'ip option"
  vi_mac_address :: "string option"
  vi_updated_at :: gotime

record 'ip flow_row =
  nf_id :: string
  nf_agent_id :: "string option"
  nf_src_vm_id :: "string option"
  nf_dst_vm_id :: "string option"
  nf_src_ip :: 'ip
  nf_dst_ip :: 'ip
  nf_src_port :: "int option"
  nf_dst_port :: "int option"
  nf_protocol :: string
  nf_direction :: string
  nf_scope :: string
  nf_bytes_sent :: i64
  nf_bytes_received :: i64
  nf_packets :: i64
  nf_connection_count :: i64
  nf_request_count :: i64
  nf_error_count :: i64
  nf_retransmission_count :: i64
  nf_avg_rtt_ms :: f64
  nf_avg_app_delay_ms :: f64
  nf_http_1xx :: i64
  nf_http_2xx :: i64
  nf_http_3xx :: i64
  nf_http_4xx :: i64
  nf_http_5xx :: i64
  nf_last_http_status :: "int option"
  nf_first_seen :: gotime
  nf_last_seen :: gotime
  nf_observed_at :: gotime
  nf_last_error_at :: "gotime option"
  nf_interface_name :: "string option"
  nf_created_at :: gotime

record 'ip observation_row =
  ob_flow_id :: string
  ob_agent_id :: "string option"
  ob_src_vm_id :: "string option"
  ob_dst_vm_id :: "string option"
  ob_src_ip :: 'ip
  ob_dst_ip :: 'ip
  ob_src_port :: "int option"
  ob_dst_port :: "int option"
  ob_protocol :: string
  ob_direction :: string
  ob_scope :: string
  ob_bytes_sent :: i64
  ob_bytes_received :: i64
  ob_packets :: i64
  ob_connection_count :: i64
  ob_request_count :: i64
  ob_error_count :: i64
  ob_retransmission_count :: i64
  ob_avg_rtt_ms :: f64
  ob_avg_app_delay_ms :: f64
  ob_http_1xx :: i64
  ob_http_2xx :: i64
  ob_http_3xx :: i64
  ob_http_4xx :: i64
  ob_http_5xx :: i64
  ob_last_http_status :: "int option"
  ob_first_seen :: gotime
  ob_last_seen :: gotime
  ob_observed_at :: gotime

record 'ip host_row =
  hr_ip :: 'ip
  hr_first_seen :: gotime
  hr_last_seen :: gotime
  hr_resolved_vm_id :: "string option"

record 'ip probe_row =
  pb_agent_id :: string
  pb_src_vm_id :: string
  pb_dst_vm_id :: "string option"
  pb_src_ip :: 'ip
  pb_dst_ip :: 'ip
  pb_protocol :: string
  pb_dst_port :: int
  pb_source :: string
  pb_probe_type :: string
  pb_success :: bool
  pb_rtt_ms :: f64
  pb_error :: "string option"
  pb_first_seen :: gotime
  pb_last_seen :: gotime
  pb_observed_at :: gotime

record 'ip tables =
  agents :: "agent_row list"
  vms :: "'ip vm_row list"
  vm_interfaces :: "'ip iface_row list"
  network_flows :: "'ip flow_row list"
  flow_observations :: "'ip observation_row list"
  external_hosts :: "'ip host_row list"
  unknown_internal_hosts :: "'ip host_row list"
  connection_probes :: "'ip probe_row list"
  uuids_used :: nat

section \<open>Statements and transactions\<close>

text \<open>
  A session is the tables and the number of statements that still succeed (\<open>None\<close>: all of
  them). A statement is a function on the tables, or \<open>None\<close> when the database rejects it.
\<close>

type_synonym ('t, 'e, 'a) tx = "'t \<times> nat option \<Rightarrow> 'e + 'a \<times> 't \<times> nat option"

definition stmt :: "'e \<Rightarrow> ('t \<Rightarrow> ('a \<times> 't) option) \<Rightarrow> ('t, 'e, 'a) tx" where
  "stmt err f s =
     (case s of (t, c) \<Rightarrow>
        if c = Some 0 then Inl err
        else case f t of
          None \<Rightarrow> Inl err
        | Some (a, t') \<Rightarrow> Inr (a, t', map_option (\<lambda>n. n - 1) c))"

definition query :: "'e \<Rightarrow> ('t \<Rightarrow> 'a) \<Rightarrow> ('t, 'e, 'a) tx" where
  "query err f = stmt err (\<lambda>t. Some (f t, t))"

definition exec :: "'e \<Rightarrow> ('t \<Rightarrow> 't option) \<Rightarrow> ('t, 'e, unit) tx" where
  "exec err f = stmt err (\<lambda>t. map_option (Pair ()) (f t))"

definition tx_return :: "'a \<Rightarrow> ('t, 'e, 'a) tx" where
  "tx_return a s = (case s of (t, c) \<Rightarrow> Inr (a, t, c))"

definition tx_fail :: "'e \<Rightarrow> ('t, 'e, 'a) tx" where
  "tx_fail e s = Inl e"

definition tx_bind :: "('t, 'e, 'a) tx \<Rightarrow> ('a \<Rightarrow> ('t, 'e, 'b) tx) \<Rightarrow> ('t, 'e, 'b) tx" where
  "tx_bind m k s = (case m s of Inl e \<Rightarrow> Inl e | Inr (a, s') \<Rightarrow> k a s')"

definition tx_then :: "('t, 'e, 'a) tx \<Rightarrow> ('t, 'e, 'b) tx \<Rightarrow> ('t, 'e, 'b) tx" where
  "tx_then m k = tx_bind m (\<lambda>_. k)"

text \<open>\<open>Begin\<close>, the body, \<open>Commit\<close>; on every other path the deferred \<open>Rollback\<close> restores the tables.\<close>

definition transaction :: "'e \<Rightarrow> ('t, 'e, 'a) tx \<Rightarrow> 't \<times> nat option \<Rightarrow> ('e + 'a) \<times> 't" where
  "transaction err body s =
     (case tx_bind (query err (\<lambda>_. ())) (\<lambda>_. tx_bind body (\<lambda>a. tx_bind (query err (\<lambda>_. ())) (\<lambda>_. tx_return a))) s of
        Inl e \<Rightarrow> (Inl e, fst s)
      | Inr (a, t, c) \<Rightarrow> (Inr a, t))"

definition limit :: "nat \<Rightarrow> 'a list \<Rightarrow> 'a list" where
  "limit n xs = take n xs"

definition order_desc :: "('a \<Rightarrow> int) \<Rightarrow> 'a list \<Rightarrow> 'a list" where
  "order_desc f xs = sort_key (\<lambda>x. - f x) xs"

lemma sorted_order_desc: "sorted_wrt (\<ge>) (map f (order_desc f xs))"
proof -
  have "sorted (map (\<lambda>x. - f x) (order_desc f xs))" by (simp add: order_desc_def)
  then show ?thesis by (simp add: sorted_wrt_map)
qed

text \<open>
  An interval argument: \<open>fmt.Sprintf("%f seconds", d.Seconds())\<close> is the number of seconds with six
  decimals, so the database sees the duration in whole microseconds.
\<close>

definition interval_of :: "duration \<Rightarrow> duration" where
  "interval_of d = 1000 * rhe (duration_Seconds d * 1000000)"

definition first_row :: "'a list \<Rightarrow> 'a option" where
  "first_row xs = (case xs of [] \<Rightarrow> None | x # _ \<Rightarrow> Some x)"

definition coalesce :: "'a option \<Rightarrow> 'a option \<Rightarrow> 'a option" where
  "coalesce a b = (case a of Some x \<Rightarrow> Some x | None \<Rightarrow> b)"

definition text_or_empty :: "string option \<Rightarrow> string" where
  "text_or_empty v = (case v of Some s \<Rightarrow> s | None \<Rightarrow> [])"

definition int_or_zero :: "int option \<Rightarrow> int" where
  "int_or_zero v = (case v of Some i \<Rightarrow> i | None \<Rightarrow> 0)"

text \<open>\<open>UPDATE ... WHERE\<close>: the rows that match are rewritten in place.\<close>

definition update_where :: "('r \<Rightarrow> bool) \<Rightarrow> ('r \<Rightarrow> 'r) \<Rightarrow> 'r list \<Rightarrow> 'r list" where
  "update_where p f = map (\<lambda>r. if p r then f r else r)"

text \<open>\<open>INSERT ... ON CONFLICT DO UPDATE\<close>: rewrite the conflicting rows, or append.\<close>

definition upsert :: "('r \<Rightarrow> bool) \<Rightarrow> ('r \<Rightarrow> 'r) \<Rightarrow> 'r \<Rightarrow> 'r list \<Rightarrow> 'r list" where
  "upsert conflict f new rows =
     (if list_ex conflict rows then update_where conflict f rows else rows @ [new])"

section \<open>Transaction laws\<close>

lemma stmt_simps [simp]:
  "stmt err f (t, None) = (case f t of None \<Rightarrow> Inl err | Some (a, t') \<Rightarrow> Inr (a, t', None))"
  "stmt err f (t, Some 0) = Inl err"
  "stmt err f (t, Some (Suc n)) = (case f t of None \<Rightarrow> Inl err | Some (a, t') \<Rightarrow> Inr (a, t', Some n))"
  by (auto simp: stmt_def split: option.splits)

lemma tx_bind_Inr:
  "tx_bind m k s = Inr r \<longleftrightarrow> (\<exists>a t c. m s = Inr (a, t, c) \<and> k a (t, c) = Inr r)"
  by (auto simp: tx_bind_def split: sum.splits prod.splits)

lemma stmt_Inr: "stmt err f (t, c) = Inr (a, t', c') \<Longrightarrow> f t = Some (a, t')"
  by (auto simp: stmt_def split: if_splits option.splits)

lemma query_Inr: "query err f (t, c) = Inr (a, t', c') \<Longrightarrow> a = f t \<and> t' = t"
  by (auto simp: query_def dest: stmt_Inr)

lemma exec_Inr: "exec err f (t, c) = Inr (a, t', c') \<Longrightarrow> f t = Some t'"
  by (auto simp: exec_def dest: stmt_Inr)

lemma tx_return_Inr [simp]: "tx_return a (t, c) = Inr r \<longleftrightarrow> r = (a, t, c)"
  by (auto simp: tx_return_def)

lemma tx_fail_Inr [simp]: "tx_fail e s \<noteq> Inr r"
  by (simp add: tx_fail_def)

lemma transaction_cases:
  obtains (rolled_back) e where "transaction err body (t, c) = (Inl e, t)"
  | (committed) a t' c1 c2 where "transaction err body (t, c) = (Inr a, t')" "body (t, c1) = Inr (a, t', c2)"
proof (cases "tx_bind (query err (\<lambda>_. ())) (\<lambda>_. tx_bind body (\<lambda>a. tx_bind (query err (\<lambda>_. ())) (\<lambda>_. tx_return a))) (t, c)")
  case (Inl e)
  then show ?thesis using rolled_back by (simp add: transaction_def)
next
  case (Inr r)
  obtain a t' c' where r: "r = (a, t', c')" by (cases r)
  from Inr r obtain c1 c2 where "body (t, c1) = Inr (a, t', c2)"
    by (auto simp: tx_bind_Inr dest!: query_Inr)
  moreover have "transaction err body (t, c) = (Inr a, t')" using Inr r by (simp add: transaction_def)
  ultimately show ?thesis using committed by blast
qed

text \<open>The interface the services' proofs use: a failed call changes nothing.\<close>

lemma transaction_atomic: "transaction err body (t, c) = (Inl e, t') \<Longrightarrow> t' = t"
  by (cases rule: transaction_cases [of err body t c]) auto

lemma transaction_ok:
  "transaction err body (t, c) = (Inr a, t') \<Longrightarrow> \<exists>c1 c2. body (t, c1) = Inr (a, t', c2)"
  by (cases rule: transaction_cases [of err body t c]) auto

lemma sum_update_where:
  fixes g :: "'r \<Rightarrow> int"
  assumes "\<And>r. r \<in> set rows \<Longrightarrow> p r \<Longrightarrow> g (f r) = g r + d r"
  shows "(\<Sum>r\<leftarrow>update_where p f rows. g r) = (\<Sum>r\<leftarrow>rows. g r) + (\<Sum>r\<leftarrow>filter p rows. d r)"
  using assms by (induction rows) (auto simp: update_where_def)

lemma order_desc_set [simp]: "set (order_desc f xs) = set xs"
  by (simp add: order_desc_def)

lemma first_row_Some: "first_row xs = Some x \<Longrightarrow> x \<in> set xs"
  by (cases xs) (auto simp: first_row_def)

end
