(* ===== verification/Hub.thy ===== *)
theory Hub
  imports Prelude "HOL-Library.Sublist"
begin

text \<open>
  The realtime hub (\<open>src/backend/internal/realtime/hub.go\<close>): broadcasting to browser clients
  with bounded buffers and throttled "latest value" events. The hub has two locks, and the
  goroutines that use it (services, timers, one loop per client) interleave between the critical
  sections, which the step relation \<open>hub_step\<close> describes. \<open>throttleMu\<close> protects the waiting
  events; \<open>flushLatest\<close> takes an event out under it and broadcasts after releasing it. \<open>mu\<close> is a
  read-write lock: a broadcast holds it for reading while it goes through the clients one by one
  in any order, so that several broadcasts may be under way at once, and a client is added or
  removed under the write lock, when no broadcast is under way. The properties: the latest update
  of every throttled event type waits for a timer, is on its way or has been broadcast; and what
  a client receives is never invented or duplicated, reordered only among broadcasts that
  overlap in time, lost only to a full buffer, and never sent to a closed channel.
\<close>

section \<open>Operations\<close>

text \<open>
  A client is a channel with room for 32 payloads; clients are numbered. A payload carries the
  number of its broadcast, which is the reading of \<open>ticks\<close> when the broadcast got the read lock.
  \<^item> \<open>clients\<close>: the registered channels with their contents;
  \<^item> \<open>throttled\<close>, \<open>timers\<close>: the waiting payloads, and the event types with a running
    \<open>time.AfterFunc\<close>;
  \<^item> \<open>called\<close>: payloads whose call of \<open>broadcastPayload\<close> has not got the read lock yet;
  \<^item> \<open>casting\<close>: broadcasts that hold the read lock: payload, clients still to be offered, and the
    clients registered when it got the lock;
  \<^item> \<open>leaving\<close>, \<open>shut\<close>: channels removed from the clients but not closed yet, and closed ones.

  The rest is history: \<open>finished\<close> lists the broadcasts that have released the lock, with their
  number, the ticks at their end, payload and clients; \<open>written\<close> what each client's loop has
  written to its response; \<open>dropped\<close> which client missed which broadcast, and how many payloads
  were in its buffer then.
\<close>

type_synonym 'p message = "nat \<times> 'p"

record 'p hub =
  clients :: "(nat \<times> 'p message list) list"
  throttled :: "(string \<times> 'p) list"
  timers :: "string list"
  called :: "'p list"
  casting :: "(nat \<times> 'p \<times> nat list \<times> nat list) list"
  leaving :: "nat list"
  shut :: "nat list"
  ticks :: nat
  finished :: "(nat \<times> nat \<times> 'p \<times> nat list) list"
  written :: "(nat \<times> 'p message list) list"
  dropped :: "(nat \<times> nat \<times> nat) list"

definition hub_New :: "'p hub" where
  "hub_New = \<lparr>clients = [], throttled = [], timers = [], called = [], casting = [], leaving = [], shut = [], ticks = 0,
     finished = [], written = [], dropped = []\<rparr>"

definition client_buffer :: nat where
  "client_buffer = 32"

definition alist_delete :: "'k \<Rightarrow> ('k \<times> 'v) list \<Rightarrow> ('k \<times> 'v) list" where
  "alist_delete k m = filter (\<lambda>(k', v). k' \<noteq> k) m"

text \<open>
  \<open>broadcastPayload\<close>: the call, \<open>RLock\<close>, one round of the loop over the clients with its send
  that has a \<open>default\<close> case (a full buffer drops the payload), and \<open>RUnlock\<close>.
\<close>

definition broadcastPayload :: "'p \<Rightarrow> 'p hub \<Rightarrow> 'p hub" where
  "broadcastPayload p h = h\<lparr>called := called h @ [p]\<rparr>"

definition broadcast_lock :: "'p \<Rightarrow> 'p hub \<Rightarrow> 'p hub" where
  "broadcast_lock p h =
     h\<lparr>called := remove1 p (called h),
       casting := alist_set (ticks h) (p, map fst (clients h), map fst (clients h)) (casting h), ticks := Suc (ticks h)\<rparr>"

definition offer :: "nat \<Rightarrow> 'p \<Rightarrow> nat \<Rightarrow> 'p hub \<Rightarrow> 'p hub" where
  "offer n p c h =
     (case alist_get (clients h) c of
        None \<Rightarrow> h
      | Some buf \<Rightarrow>
          if length buf < client_buffer then h\<lparr>clients := alist_set c (buf @ [(n, p)]) (clients h)\<rparr>
          else h\<lparr>dropped := (c, n, length buf) # dropped h\<rparr>)"

definition broadcast_offer :: "nat \<Rightarrow> nat \<Rightarrow> 'p hub \<Rightarrow> 'p hub" where
  "broadcast_offer n c h =
     (case alist_get (casting h) n of
        None \<Rightarrow> h
      | Some (p, todo, audience) \<Rightarrow> offer n p c (h\<lparr>casting := alist_set n (p, remove1 c todo, audience) (casting h)\<rparr>))"

definition broadcast_unlock :: "nat \<Rightarrow> 'p hub \<Rightarrow> 'p hub" where
  "broadcast_unlock n h =
     (case alist_get (casting h) n of
        None \<Rightarrow> h
      | Some (p, todo, audience) \<Rightarrow>
          h\<lparr>casting := alist_delete n (casting h), finished := (n, ticks h, p, audience) # finished h, ticks := Suc (ticks h)\<rparr>)"

text \<open>\<open>json.Marshal\<close> of the event, which may fail, is the argument \<open>payload\<close>.\<close>

definition hub_Broadcast :: "'p option \<Rightarrow> 'p hub \<Rightarrow> 'p hub" where
  "hub_Broadcast payload h = (case payload of None \<Rightarrow> h | Some p \<Rightarrow> broadcastPayload p h)"

definition hub_BroadcastLatest :: "string \<Rightarrow> duration \<Rightarrow> 'p option \<Rightarrow> 'p hub \<Rightarrow> 'p hub" where
  "hub_BroadcastLatest eventType interval payload h =
     (if interval \<le> 0 then hub_Broadcast payload h
      else case payload of
        None \<Rightarrow> h
      | Some p \<Rightarrow>
          if alist_get (throttled h) eventType \<noteq> None
          then h\<lparr>throttled := alist_set eventType p (throttled h)\<rparr>
          else h\<lparr>throttled := alist_set eventType p (throttled h), timers := timers h @ [eventType]\<rparr>)"

text \<open>\<open>flushLatest\<close> up to its call of \<open>broadcastPayload\<close>; \<open>throttleMu\<close> is released before.\<close>

definition flushLatest :: "string \<Rightarrow> 'p hub \<Rightarrow> 'p hub" where
  "flushLatest eventType h =
     (case alist_get (throttled h) eventType of
        None \<Rightarrow> h
      | Some p \<Rightarrow> broadcastPayload p (h\<lparr>throttled := alist_delete eventType (throttled h)\<rparr>))"

text \<open>
  \<open>ServeHTTP\<close>: the registration of a new client, one round of its loop on a payload, the
  deferred removal, and the closing of the channel after it.
\<close>

definition hub_connect :: "nat \<Rightarrow> 'p hub \<Rightarrow> 'p hub" where
  "hub_connect c h = h\<lparr>clients := alist_set c [] (clients h), written := alist_set c [] (written h)\<rparr>"

definition hub_serve :: "nat \<Rightarrow> 'p hub \<Rightarrow> 'p hub" where
  "hub_serve c h =
     (case (alist_get (clients h) c, alist_get (written h) c) of
        (Some (m # buf), Some out) \<Rightarrow>
          h\<lparr>clients := alist_set c buf (clients h), written := alist_set c (out @ [m]) (written h)\<rparr>
      | _ \<Rightarrow> h)"

definition hub_disconnect :: "nat \<Rightarrow> 'p hub \<Rightarrow> 'p hub" where
  "hub_disconnect c h = h\<lparr>clients := alist_delete c (clients h), leaving := c # leaving h\<rparr>"

definition hub_close :: "nat \<Rightarrow> 'p hub \<Rightarrow> 'p hub" where
  "hub_close c h = h\<lparr>leaving := remove1 c (leaving h), shut := c # shut h\<rparr>"

section \<open>Interleavings\<close>

text \<open>
  The steps of the goroutines, one per critical section or channel operation. First those that
  bring what was published to the clients: a timer runs \<open>flushLatest\<close> once, and a broadcast gets
  the read lock, offers its payload to one client after the other, and releases the lock.
\<close>

inductive flush_step :: "'p hub \<Rightarrow> 'p hub \<Rightarrow> bool" where
  timer: "ty \<in> set (timers h) \<Longrightarrow> flush_step h (flushLatest ty (h\<lparr>timers := remove1 ty (timers h)\<rparr>))"
| rlock: "p \<in> set (called h) \<Longrightarrow> flush_step h (broadcast_lock p h)"
| send: "alist_get (casting h) n = Some (p, todo, audience) \<Longrightarrow> c \<in> set todo \<Longrightarrow> flush_step h (broadcast_offer n c h)"
| runlock: "alist_get (casting h) n = Some (p, [], audience) \<Longrightarrow> flush_step h (broadcast_unlock n h)"

text \<open>
  Then those of the services and of the clients. A new client has a number never used before,
  and connecting and disconnecting wait for the write lock. The second component records the
  last payload given to \<open>BroadcastLatest\<close> per type, whatever the interval.
\<close>

inductive hub_step :: "'p hub \<times> (string \<rightharpoonup> 'p) \<Rightarrow> 'p hub \<times> (string \<rightharpoonup> 'p) \<Rightarrow> bool" where
  flush: "flush_step h h' \<Longrightarrow> hub_step (h, l) (h', l)"
| broadcast: "hub_step (h, l) (hub_Broadcast payload h, l)"
| latest: "hub_step (h, l) (hub_BroadcastLatest ty interval (Some p) h, l(ty \<mapsto> p))"
| latest_failed: "hub_step (h, l) (hub_BroadcastLatest ty interval None h, l)"
| connect: "casting h = [] \<Longrightarrow> c \<notin> fst ` set (written h) \<Longrightarrow> hub_step (h, l) (hub_connect c h, l)"
| serve: "hub_step (h, l) (hub_serve c h, l)"
| disconnect: "casting h = [] \<Longrightarrow> c \<in> fst ` set (clients h) \<Longrightarrow> hub_step (h, l) (hub_disconnect c h, l)"
| close: "c \<in> set (leaving h) \<Longrightarrow> hub_step (h, l) (hub_close c h, l)"

inductive hub_reachable :: "'p hub \<times> (string \<rightharpoonup> 'p) \<Rightarrow> bool" where
  init: "hub_reachable (hub_New, \<lambda>_. None)"
| step: "hub_reachable s \<Longrightarrow> hub_step s s' \<Longrightarrow> hub_reachable s'"

lemma alist_get_delete: "alist_get (alist_delete k m) k' = (if k' = k then None else alist_get m k')"
  by (induction m) (auto simp: alist_delete_def)

text \<open>The fields an operation leaves alone.\<close>

lemma hub_fields [simp]:
  "throttled (broadcastPayload p h) = throttled h" "timers (broadcastPayload p h) = timers h" "casting (broadcastPayload p h) = casting h"
  "finished (broadcastPayload p h) = finished h" "called (broadcastPayload p h) = called h @ [p]"
  "throttled (broadcast_lock p h) = throttled h" "timers (broadcast_lock p h) = timers h" "finished (broadcast_lock p h) = finished h"
  "clients (broadcast_lock p h) = clients h"
  "throttled (hub_connect c h) = throttled h" "timers (hub_connect c h) = timers h" "called (hub_connect c h) = called h"
  "casting (hub_connect c h) = casting h" "finished (hub_connect c h) = finished h"
  "throttled (hub_disconnect c h) = throttled h" "timers (hub_disconnect c h) = timers h" "called (hub_disconnect c h) = called h"
  "casting (hub_disconnect c h) = casting h" "finished (hub_disconnect c h) = finished h"
  "throttled (hub_close c h) = throttled h" "timers (hub_close c h) = timers h" "called (hub_close c h) = called h"
  "casting (hub_close c h) = casting h" "finished (hub_close c h) = finished h"
  by (simp_all add: broadcastPayload_def broadcast_lock_def hub_connect_def hub_disconnect_def hub_close_def)

lemma serve_fields [simp]:
  "throttled (hub_serve c h) = throttled h" "timers (hub_serve c h) = timers h" "called (hub_serve c h) = called h"
  "casting (hub_serve c h) = casting h" "finished (hub_serve c h) = finished h" "ticks (hub_serve c h) = ticks h"
  "leaving (hub_serve c h) = leaving h" "shut (hub_serve c h) = shut h" "dropped (hub_serve c h) = dropped h"
  by (auto simp: hub_serve_def split: option.splits list.splits)

lemma offer_fields [simp]:
  "throttled (offer n p c h) = throttled h" "timers (offer n p c h) = timers h" "called (offer n p c h) = called h"
  "casting (offer n p c h) = casting h" "finished (offer n p c h) = finished h" "ticks (offer n p c h) = ticks h"
  "leaving (offer n p c h) = leaving h" "shut (offer n p c h) = shut h" "written (offer n p c h) = written h"
  by (auto simp: offer_def split: option.splits)

lemma cast_fields [simp]:
  "throttled (broadcast_offer n c h) = throttled h" "timers (broadcast_offer n c h) = timers h" "called (broadcast_offer n c h) = called h"
  "finished (broadcast_offer n c h) = finished h"
  "throttled (broadcast_unlock n h) = throttled h" "timers (broadcast_unlock n h) = timers h" "called (broadcast_unlock n h) = called h"
  by (auto simp: broadcast_offer_def broadcast_unlock_def split: option.splits)

section \<open>Throttled events\<close>

text \<open>A payload that has been handed to \<open>broadcastPayload\<close>: called, under way or finished.\<close>

definition cast_payload :: "'p hub \<Rightarrow> nat \<Rightarrow> 'p option" where
  "cast_payload h n = map_option fst (alist_get (casting h) n)"

definition under_way :: "'p hub \<Rightarrow> 'p \<Rightarrow> bool" where
  "under_way h p \<longleftrightarrow> (\<exists>n. cast_payload h n = Some p)"

definition completed :: "'p hub \<Rightarrow> 'p \<Rightarrow> bool" where
  "completed h p \<longleftrightarrow> (\<exists>n e audience. (n, e, p, audience) \<in> set (finished h))"

definition handed :: "'p hub \<Rightarrow> 'p \<Rightarrow> bool" where
  "handed h p \<longleftrightarrow> p \<in> set (called h) \<or> under_way h p \<or> completed h p"

definition ticks_ok :: "'p hub \<Rightarrow> bool" where
  "ticks_ok h \<longleftrightarrow> (\<forall>n v. alist_get (casting h) n = Some v \<longrightarrow> n < ticks h)"

definition throttle_inv :: "'p hub \<times> (string \<rightharpoonup> 'p) \<Rightarrow> bool" where
  "throttle_inv s \<longleftrightarrow>
     (case s of (h, l) \<Rightarrow>
        distinct (timers h)
        \<and> (\<forall>ty. ty \<in> set (timers h) \<longleftrightarrow> alist_get (throttled h) ty \<noteq> None)
        \<and> (\<forall>ty p. l ty = Some p \<longrightarrow> alist_get (throttled h) ty = Some p \<or> handed h p)
        \<and> ticks_ok h)"

lemma cast_payload_ops:
  "cast_payload (broadcast_lock p h) = (cast_payload h)(ticks h \<mapsto> p)"
  "cast_payload (broadcast_offer n c h) = cast_payload h"
  "cast_payload (broadcast_unlock n h) = (cast_payload h)(n := None)"
  by (auto simp: fun_eq_iff cast_payload_def broadcast_lock_def broadcast_offer_def broadcast_unlock_def alist_get_set
      alist_get_delete split: option.split)

lemma handed_cong:
  "called h' = called h \<Longrightarrow> casting h' = casting h \<Longrightarrow> finished h' = finished h \<Longrightarrow> handed h' p = handed h p"
  by (simp add: handed_def under_way_def cast_payload_def completed_def)

lemma handed_broadcast: "handed (broadcastPayload q h) p \<longleftrightarrow> p = q \<or> handed h p"
  by (auto simp: handed_def under_way_def cast_payload_def completed_def)

lemma handed_lock:
  assumes "ticks_ok h" "handed h q"
  shows "handed (broadcast_lock p h) q"
proof -
  have "cast_payload h (ticks h) = None" using assms(1) by (cases "alist_get (casting h) (ticks h)") (auto simp: cast_payload_def ticks_ok_def)
  then have "under_way (broadcast_lock p h) q \<longleftrightarrow> q = p \<or> under_way h q"
    unfolding under_way_def cast_payload_ops fun_upd_apply by (metis option.distinct(1) option.inject)
  moreover have "completed (broadcast_lock p h) q = completed h q" by (simp add: completed_def)
  moreover have "q = p \<or> q \<in> set (called (broadcast_lock p h))" if "q \<in> set (called h)"
    using that by (cases "q = p") (simp_all add: broadcast_lock_def in_set_remove1)
  ultimately show ?thesis using assms(2) by (auto simp: handed_def)
qed

lemma handed_send: "handed (broadcast_offer n c h) q = handed h q"
  by (simp add: handed_def under_way_def cast_payload_ops completed_def)

lemma handed_unlock:
  assumes "handed h q"
  shows "handed (broadcast_unlock n h) q"
proof (cases "alist_get (casting h) n")
  case (Some v)
  obtain p todo audience where v: "v = (p, todo, audience)" by (cases v)
  have fin: "finished (broadcast_unlock n h) = (n, ticks h, p, audience) # finished h" and n: "cast_payload h n = Some p"
    using Some v by (simp_all add: broadcast_unlock_def cast_payload_def)
  have "completed (broadcast_unlock n h) q \<or> under_way (broadcast_unlock n h) q" if "under_way h q"
  proof (cases "q = p")
    case True
    then show ?thesis using fin by (auto simp: completed_def)
  next
    case False
    with that n show ?thesis unfolding under_way_def cast_payload_ops by (metis fun_upd_apply option.inject)
  qed
  moreover have "completed (broadcast_unlock n h) q" if "completed h q" using that fin by (auto simp: completed_def)
  ultimately show ?thesis using assms by (auto simp: handed_def)
qed (use assms in \<open>simp add: broadcast_unlock_def\<close>)

lemma ticks_ok_ops:
  assumes "ticks_ok h"
  shows "ticks_ok (broadcast_lock p h)" "ticks_ok (broadcast_offer n c h)" "ticks_ok (broadcast_unlock n h)"
  using assms unfolding ticks_ok_def
  by (auto simp: broadcast_lock_def broadcast_offer_def broadcast_unlock_def alist_get_set alist_get_delete less_Suc_eq
      split: option.split if_splits)

lemma ticks_fields [simp]:
  "ticks (broadcastPayload p h) = ticks h" "ticks (hub_connect c h) = ticks h" "ticks (hub_disconnect c h) = ticks h" "ticks (hub_close c h) = ticks h"
  by (simp_all add: broadcastPayload_def hub_connect_def hub_disconnect_def hub_close_def)

lemma ticks_ok_cong: "casting h' = casting h \<Longrightarrow> ticks h' = ticks h \<Longrightarrow> ticks_ok h' = ticks_ok h"
  by (simp add: ticks_ok_def)

lemma throttle_kept [simp]:
  "ticks_ok (broadcastPayload p h) = ticks_ok h"
  "ticks_ok (hub_connect c h) = ticks_ok h" "ticks_ok (hub_serve c h) = ticks_ok h"
  "ticks_ok (hub_disconnect c h) = ticks_ok h" "ticks_ok (hub_close c h) = ticks_ok h"
  "ticks_ok (h\<lparr>timers := ts\<rparr>) = ticks_ok h" "ticks_ok (h\<lparr>throttled := m\<rparr>) = ticks_ok h"
  "handed (h\<lparr>timers := ts\<rparr>) q = handed h q" "handed (h\<lparr>throttled := m\<rparr>) q = handed h q"
  "handed (hub_connect c h) q = handed h q" "handed (hub_serve c h) q = handed h q"
  "handed (hub_disconnect c h) q = handed h q" "handed (hub_close c h) q = handed h q"
  by (rule ticks_ok_cong handed_cong; simp)+

lemma throttle_invI:
  assumes "throttle_inv (h, l)" "throttled h' = throttled h" "timers h' = timers h"
    and "\<And>p. handed h p \<Longrightarrow> handed h' p" "ticks_ok h \<Longrightarrow> ticks_ok h'"
  shows "throttle_inv (h', l)"
proof -
  have "handed h' p" if "l ty = Some p" "alist_get (throttled h) ty \<noteq> Some p" for ty p
    using that assms(1,4) by (simp add: throttle_inv_def) blast
  then show ?thesis using assms by (auto simp: throttle_inv_def)
qed

lemma throttle_inv_flush:
  assumes "flush_step h h'" "throttle_inv (h, l)"
  shows "throttle_inv (h', l)"
  using assms
proof (induction rule: flush_step.induct)
  case (timer ty h)
  then have inv: "distinct (timers h)" "\<And>ty. ty \<in> set (timers h) \<longleftrightarrow> alist_get (throttled h) ty \<noteq> None" "ticks_ok h"
    "\<And>ty q. l ty = Some q \<Longrightarrow> alist_get (throttled h) ty = Some q \<or> handed h q"
    by (auto simp: throttle_inv_def)
  obtain p where p: "alist_get (throttled h) ty = Some p" using timer.hyps inv(2) by auto
  let ?h = "flushLatest ty (h\<lparr>timers := remove1 ty (timers h)\<rparr>)"
  have h: "?h = broadcastPayload p (h\<lparr>timers := remove1 ty (timers h), throttled := alist_delete ty (throttled h)\<rparr>)"
    using p by (simp add: flushLatest_def)
  have "alist_get (throttled ?h) ty' = Some q \<or> handed ?h q" if "l ty' = Some q" for ty' q
    using inv(4) [OF that] p by (cases "ty' = ty") (auto simp: h alist_get_delete handed_broadcast)
  moreover have "ty' \<in> set (timers ?h) \<longleftrightarrow> alist_get (throttled ?h) ty' \<noteq> None" for ty'
    using inv(1,2) by (simp add: h alist_get_delete)
  moreover have "distinct (timers ?h)" "ticks_ok ?h" using inv(1,3) by (simp_all add: h)
  ultimately show ?case by (simp add: throttle_inv_def)
next
  case (rlock p h)
  then have "ticks_ok h" by (simp add: throttle_inv_def)
  with rlock show ?case by - (rule throttle_invI [of h], simp_all add: handed_lock ticks_ok_ops)
next
  case (send h n p todo audience c)
  then show ?case by - (rule throttle_invI [of h], simp_all add: handed_send ticks_ok_ops)
next
  case (runlock h n p audience)
  then show ?case by - (rule throttle_invI [of h], simp_all add: handed_unlock ticks_ok_ops)
qed

lemma throttle_inv_step:
  assumes "hub_step s s'" "throttle_inv s"
  shows "throttle_inv s'"
  using assms
proof (induction rule: hub_step.induct)
  case (broadcast h l payload)
  then show ?case
    by (cases payload)
       (simp_all add: hub_Broadcast_def, rule throttle_invI [of h], simp_all add: handed_broadcast)
next
  case (latest h l ty interval p)
  show ?case
  proof (cases "interval \<le> 0")
    case True
    with latest show ?thesis
      by (auto simp: hub_BroadcastLatest_def hub_Broadcast_def throttle_inv_def handed_broadcast)
  next
    case False
    with latest show ?thesis
      by (cases "alist_get (throttled h) ty")
         (auto simp: throttle_inv_def hub_BroadcastLatest_def alist_get_set)
  qed
next
  case (connect h c l)
  then show ?case by - (rule throttle_invI [of h], simp_all)
next
  case (serve h l c)
  then show ?case by - (rule throttle_invI [of h], simp_all)
next
  case (disconnect h c l)
  then show ?case by - (rule throttle_invI [of h], simp_all)
next
  case (close c h l)
  then show ?case by - (rule throttle_invI [of h], simp_all)
qed (simp_all add: hub_BroadcastLatest_def hub_Broadcast_def throttle_inv_flush)

lemma throttle_inv_reachable: "hub_reachable s \<Longrightarrow> throttle_inv s"
  by (induction rule: hub_reachable.induct) (auto simp: throttle_inv_step, simp add: throttle_inv_def hub_New_def ticks_ok_def)

section \<open>Completion\<close>

text \<open>A broadcast under way, a called one and a waiting one can always be brought to their end.\<close>

lemma complete_under_way:
  assumes "alist_get (casting h) n = Some (p, todo, audience)"
  shows "\<exists>h'. flush_step\<^sup>*\<^sup>* h h' \<and> completed h' p"
  using assms
proof (induction todo arbitrary: h)
  case Nil
  then have "flush_step h (broadcast_unlock n h)" by (rule flush_step.runlock)
  moreover have "completed (broadcast_unlock n h) p" using Nil by (auto simp: completed_def broadcast_unlock_def)
  ultimately show ?case by blast
next
  case (Cons c todo)
  have "flush_step h (broadcast_offer n c h)" by (rule flush_step.send [OF Cons.prems]) simp
  moreover have "alist_get (casting (broadcast_offer n c h)) n = Some (p, todo, audience)"
    using Cons.prems by (simp add: broadcast_offer_def alist_get_set)
  ultimately show ?case using Cons.IH by (meson converse_rtranclp_into_rtranclp)
qed

lemma complete_called:
  assumes "p \<in> set (called h)"
  shows "\<exists>h'. flush_step\<^sup>*\<^sup>* h h' \<and> completed h' p"
proof -
  have "flush_step h (broadcast_lock p h)" using assms by (rule flush_step.rlock)
  moreover have "alist_get (casting (broadcast_lock p h)) (ticks h) = Some (p, map fst (clients h), map fst (clients h))"
    by (simp add: broadcast_lock_def alist_get_set)
  ultimately show ?thesis using complete_under_way by (meson converse_rtranclp_into_rtranclp)
qed

lemma complete_waiting:
  assumes "ty \<in> set (timers h)" "alist_get (throttled h) ty = Some p"
  shows "\<exists>h'. flush_step\<^sup>*\<^sup>* h h' \<and> completed h' p"
proof -
  let ?h = "flushLatest ty (h\<lparr>timers := remove1 ty (timers h)\<rparr>)"
  have "flush_step h ?h" using assms(1) by (rule flush_step.timer)
  moreover have "p \<in> set (called ?h)" using assms(2) by (simp add: flushLatest_def)
  ultimately show ?thesis using complete_called by (meson converse_rtranclp_into_rtranclp)
qed

text \<open>
  C31. The latest update is never lost. In every interleaving, the last payload given to
  \<open>BroadcastLatest\<close> for an event type (whatever the interval) waits with exactly one running
  timer for the type, or has been handed to a broadcast that has not got the lock yet, or is
  being offered to the clients, or has been broadcast completely; and from there steps of timers
  and broadcasts under way alone, without any new publication, lead to its complete broadcast.
\<close>

theorem hub_latest_not_lost:
  assumes "hub_reachable (h, l)" "l ty = Some p"
  shows "((alist_get (throttled h) ty = Some p \<and> count_list (timers h) ty = 1)
      \<or> p \<in> set (called h) \<or> (\<exists>n todo audience. alist_get (casting h) n = Some (p, todo, audience))
      \<or> (\<exists>n e audience. (n, e, p, audience) \<in> set (finished h)))
    \<and> (\<exists>h'. flush_step\<^sup>*\<^sup>* h h' \<and> (\<exists>n e audience. (n, e, p, audience) \<in> set (finished h')))"
proof -
  note inv = throttle_inv_reachable [OF assms(1)]
  have one: "count_list xs ty = 1" if "distinct xs" "ty \<in> set xs" for xs
    using that by (metis count_mset distinct_count_atmost_1)
  have timer: "ty \<in> set (timers h) \<and> count_list (timers h) ty = 1" if "alist_get (throttled h) ty = Some p"
    using inv that one [of "timers h"] by (simp add: throttle_inv_def)
  have cast: "under_way h p \<longleftrightarrow> (\<exists>n todo audience. alist_get (casting h) n = Some (p, todo, audience))"
    by (auto simp: under_way_def cast_payload_def)
  have place: "alist_get (throttled h) ty = Some p \<or> handed h p" using inv assms(2) by (auto simp: throttle_inv_def)
  have "\<exists>h'. flush_step\<^sup>*\<^sup>* h h' \<and> completed h' p"
    using place unfolding handed_def cast
  proof (elim disjE exE)
    assume "completed h p"
    then show ?thesis by blast
  next
    assume "alist_get (throttled h) ty = Some p"
    then show ?thesis using timer complete_waiting by metis
  next
    assume "p \<in> set (called h)"
    then show ?thesis by (rule complete_called)
  next
    fix n todo audience assume "alist_get (casting h) n = Some (p, todo, audience)"
    then show ?thesis by (rule complete_under_way)
  qed
  with place timer show ?thesis unfolding handed_def cast completed_def by blast
qed

theorem hub_latest_not_lost_witness:
  "\<exists>h' n e audience. (n, e, 1, audience) \<in> set (finished (h' :: nat hub))"
proof -
  have "hub_reachable (hub_BroadcastLatest ''flow.updated'' 5 (Some (1 :: nat)) hub_New, (\<lambda>_. None)(''flow.updated'' \<mapsto> 1))"
    by (rule hub_reachable.step [OF hub_reachable.init hub_step.latest])
  then show ?thesis using hub_latest_not_lost [of _ _ "''flow.updated''" 1] by fastforce
qed

section \<open>Clients\<close>

definition buffer_of :: "'p hub \<Rightarrow> nat \<Rightarrow> 'p message list" where
  "buffer_of h c = (case alist_get (clients h) c of None \<Rightarrow> [] | Some buf \<Rightarrow> buf)"

text \<open>What a client has been sent, followed by what waits in its channel.\<close>

definition stream :: "'p hub \<Rightarrow> nat \<Rightarrow> 'p message list" where
  "stream h c = (case alist_get (written h) c of None \<Rightarrow> [] | Some out \<Rightarrow> out) @ buffer_of h c"

text \<open>Broadcast \<open>m\<close> had released the lock when broadcast \<open>n\<close> got it.\<close>

definition ended_before :: "'p hub \<Rightarrow> nat \<Rightarrow> nat \<Rightarrow> bool" where
  "ended_before h m n \<longleftrightarrow> (\<exists>e p audience. (m, e, p, audience) \<in> set (finished h) \<and> e \<le> n)"

definition known :: "'p hub \<Rightarrow> 'p message \<Rightarrow> bool" where
  "known h m \<longleftrightarrow> cast_payload h (fst m) = Some (snd m) \<or> (\<exists>e audience. (fst m, e, snd m, audience) \<in> set (finished h))"

definition got :: "'p hub \<Rightarrow> nat \<Rightarrow> 'p message \<Rightarrow> bool" where
  "got h c m \<longleftrightarrow> m \<in> set (stream h c) \<or> (c, fst m, client_buffer) \<in> set (dropped h)"

text \<open>The registered channels, and the broadcasts under way and finished.\<close>

definition registry_inv :: "'p hub \<Rightarrow> bool" where
  "registry_inv h \<longleftrightarrow>
     distinct_keys (clients h) \<and> distinct (leaving h)
     \<and> fst ` set (clients h) \<union> set (leaving h) \<union> set (shut h) \<subseteq> fst ` set (written h)
     \<and> fst ` set (clients h) \<inter> (set (leaving h) \<union> set (shut h)) = {} \<and> set (leaving h) \<inter> set (shut h) = {}"

definition casts_inv :: "'p hub \<Rightarrow> bool" where
  "casts_inv h \<longleftrightarrow>
     (\<forall>n p todo audience. alist_get (casting h) n = Some (p, todo, audience) \<longrightarrow>
        n < ticks h \<and> distinct todo \<and> set todo \<subseteq> fst ` set (clients h) \<and> set audience \<subseteq> fst ` set (written h)
        \<and> (\<forall>e q audience'. (n, e, q, audience') \<notin> set (finished h)))
     \<and> (\<forall>n e p audience. (n, e, p, audience) \<in> set (finished h) \<longrightarrow> n < e \<and> e < ticks h \<and> set audience \<subseteq> fst ` set (written h))"

definition stream_inv :: "'p hub \<Rightarrow> nat \<Rightarrow> bool" where
  "stream_inv h c \<longleftrightarrow>
     length (buffer_of h c) \<le> client_buffer \<and> distinct (map fst (stream h c))
     \<and> (\<forall>m \<in> set (stream h c). fst m < ticks h \<and> known h m)
     \<and> sorted_wrt (\<lambda>m m'. \<not> ended_before h (fst m') (fst m)) (stream h c)"

definition delivery_inv :: "'p hub \<Rightarrow> nat \<Rightarrow> bool" where
  "delivery_inv h c \<longleftrightarrow>
     (\<forall>n p todo audience. alist_get (casting h) n = Some (p, todo, audience) \<longrightarrow>
        (c \<in> set todo \<longrightarrow> n \<notin> fst ` set (stream h c))
        \<and> (c \<in> fst ` set (clients h) \<longrightarrow> c \<in> set audience \<longrightarrow> c \<notin> set todo \<longrightarrow> got h c (n, p)))
     \<and> (\<forall>n e p audience. (n, e, p, audience) \<in> set (finished h) \<longrightarrow>
          c \<in> fst ` set (clients h) \<longrightarrow> c \<in> set audience \<longrightarrow> got h c (n, p))"

definition hub_inv :: "'p hub \<Rightarrow> bool" where
  "hub_inv h \<longleftrightarrow> registry_inv h \<and> casts_inv h \<and> (\<forall>c. stream_inv h c \<and> delivery_inv h c)"

lemmas hub_invs = registry_inv_def casts_inv_def stream_inv_def delivery_inv_def

lemma hub_inv_cong:
  assumes "hub_inv h" "clients h' = clients h" "casting h' = casting h" "leaving h' = leaving h" "shut h' = shut h"
    "ticks h' = ticks h" "finished h' = finished h" "written h' = written h" "dropped h' = dropped h"
  shows "hub_inv h'"
proof -
  have "stream h' = stream h" "buffer_of h' = buffer_of h" by (simp_all add: fun_eq_iff stream_def buffer_of_def assms)
  moreover have "known h' = known h" "ended_before h' = ended_before h"
    by (simp_all add: fun_eq_iff known_def cast_payload_def ended_before_def assms)
  moreover have "got h' = got h" using \<open>stream h' = stream h\<close> by (simp add: fun_eq_iff got_def assms)
  ultimately show ?thesis using assms(1) by (simp add: hub_inv_def hub_invs assms)
qed

lemma alist_get_key: "alist_get m k = Some v \<Longrightarrow> k \<in> fst ` set m"
  by (metis alist_get_None option.distinct(1))

lemma hub_inv_lock:
  assumes "hub_inv h"
  shows "hub_inv (broadcast_lock p h)"
proof -
  let ?h = "broadcast_lock p h"
  have reg: "registry_inv h" and casts: "casts_inv h" and st: "\<And>c. stream_inv h c" and del: "\<And>c. delivery_inv h c"
    using assms by (auto simp: hub_inv_def)
  have new: "alist_get (casting h) (ticks h) = None"
    using casts by (cases "alist_get (casting h) (ticks h)") (auto simp: casts_inv_def)
  have f: "written ?h = written h" "leaving ?h = leaving h" "shut ?h = shut h" "dropped ?h = dropped h" "ticks ?h = Suc (ticks h)"
    and cast: "alist_get (casting ?h) n =
      (if n = ticks h then Some (p, map fst (clients h), map fst (clients h)) else alist_get (casting h) n)" for n
    by (simp_all add: broadcast_lock_def alist_get_set)
  have stream: "stream ?h c = stream h c" "buffer_of ?h c = buffer_of h c" for c
    by (simp_all add: stream_def buffer_of_def f)
  have known: "known ?h m" if "known h m" for m
    using that new by (auto simp: known_def cast_payload_ops) (simp add: cast_payload_def)
  have ended: "ended_before ?h = ended_before h" and got: "got ?h = got h"
    by (simp_all add: fun_eq_iff ended_before_def got_def stream f)
  have "registry_inv ?h" using reg by (simp add: registry_inv_def f)
  moreover have "(ticks h, e, q, a) \<notin> set (finished h)" for e q a
    using casts unfolding casts_inv_def by (meson less_asym)
  then have "casts_inv ?h"
    using casts reg unfolding casts_inv_def cast f hub_fields
    by (auto simp: less_Suc_eq registry_inv_def distinct_keys_def dest: order.strict_trans)
  moreover have "stream_inv ?h c" for c
    using st [of c] known by (auto simp: stream_inv_def stream ended f less_Suc_eq)
  moreover have "delivery_inv ?h c" for c
    using del [of c] st [of c] unfolding delivery_inv_def cast got stream hub_fields
    by (auto simp: stream_inv_def split: if_splits)
  ultimately show ?thesis by (simp add: hub_inv_def)
qed

lemma hub_inv_offer:
  assumes "hub_inv h" and n: "alist_get (casting h) n = Some (p, todo, audience)" and c: "c \<in> set todo"
  shows "hub_inv (broadcast_offer n c h)"
proof -
  let ?h = "broadcast_offer n c h"
  have reg: "registry_inv h" and casts: "casts_inv h" and st: "\<And>c. stream_inv h c" and del: "\<And>c. delivery_inv h c"
    using assms(1) by (auto simp: hub_inv_def)
  have todo: "distinct todo" "set todo \<subseteq> fst ` set (clients h)" and fresh: "(n, e, q, a) \<notin> set (finished h)" and tick: "n < ticks h" for e q a
    using casts n unfolding casts_inv_def by blast+
  obtain buf where buf: "alist_get (clients h) c = Some buf" using todo(2) c by (metis alist_get_None not_None_eq subsetD)
  let ?room = "length buf < client_buffer"
  have h: "?h = (if ?room then h\<lparr>casting := alist_set n (p, remove1 c todo, audience) (casting h), clients := alist_set c (buf @ [(n, p)]) (clients h)\<rparr>
      else h\<lparr>casting := alist_set n (p, remove1 c todo, audience) (casting h), dropped := (c, n, length buf) # dropped h\<rparr>)"
    using n buf by (simp add: broadcast_offer_def offer_def)
  have f: "written ?h = written h" "leaving ?h = leaving h" "shut ?h = shut h" "ticks ?h = ticks h"
    "fst ` set (clients ?h) = fst ` set (clients h)" "distinct_keys (clients ?h) = distinct_keys (clients h)"
    and drop: "set (dropped ?h) = (if ?room then {} else {(c, n, length buf)}) \<union> set (dropped h)"
    and cast: "alist_get (casting ?h) m = (if m = n then Some (p, remove1 c todo, audience) else alist_get (casting h) m)" for m
    using alist_get_key [OF buf] reg by (auto simp: h keys_alist_set alist_get_set registry_inv_def)
  have buffer: "buffer_of ?h c' = (if c' = c \<and> ?room then buffer_of h c @ [(n, p)] else buffer_of h c')"
    and stream: "stream ?h c' = (if c' = c \<and> ?room then stream h c @ [(n, p)] else stream h c')" for c'
    using buf by (simp_all add: h buffer_of_def stream_def alist_get_set)
  have known: "known ?h = known h" and ended: "ended_before ?h = ended_before h"
    by (simp_all add: fun_eq_iff known_def cast_payload_ops ended_before_def)
  have full: "length buf \<le> client_buffer" using st [of c] buf by (simp add: stream_inv_def buffer_of_def)
  have absent: "n \<notin> fst ` set (stream h c)" using del [of c] n c unfolding delivery_inv_def by blast
  have "registry_inv ?h" using reg by (simp add: registry_inv_def f)
  moreover have "casts_inv ?h"
  proof -
    have "distinct (remove1 c todo)" "set (remove1 c todo) \<subseteq> fst ` set (clients h)"
      using todo notin_set_remove1 [of _ todo c] by auto
    then show ?thesis using casts n unfolding casts_inv_def cast f cast_fields by (auto split: if_splits)
  qed
  moreover have "stream_inv ?h c'" for c'
  proof (cases "c' = c \<and> ?room")
    case True
    then have buffer_room: "length (buffer_of h c) < client_buffer" using buf by (simp add: buffer_of_def)
    moreover have "known h (n, p)" using n by (simp add: known_def cast_payload_def)
    moreover have "\<not> ended_before h n m" for m using fresh by (simp add: ended_before_def)
    ultimately show ?thesis
      using True st [of c] absent tick
      by (auto simp: stream_inv_def stream buffer known ended f sorted_wrt_append)
  next
    case False
    then have "stream ?h c' = stream h c'" "buffer_of ?h c' = buffer_of h c'" by (auto simp: stream buffer)
    then show ?thesis using st [of c'] by (simp add: stream_inv_def known ended f)
  qed
  moreover have "delivery_inv ?h c'" for c'
  proof -
    have got: "got ?h c' m" if "got h c' m" for m
      using that by (auto simp: got_def stream drop)
    have got_c: "got ?h c (n, p)" using full by (auto simp: got_def stream drop)
    have old: "(c' \<in> set todo' \<longrightarrow> m \<notin> fst ` set (stream h c'))
        \<and> (c' \<in> fst ` set (clients h) \<longrightarrow> c' \<in> set a \<longrightarrow> c' \<notin> set todo' \<longrightarrow> got h c' (m, q))"
      if "alist_get (casting h) m = Some (q, todo', a)" for m q todo' a
      using del [of c'] that unfolding delivery_inv_def by blast
    have "(c' \<in> set todo' \<longrightarrow> m \<notin> fst ` set (stream ?h c'))
        \<and> (c' \<in> fst ` set (clients h) \<longrightarrow> c' \<in> set a \<longrightarrow> c' \<notin> set todo' \<longrightarrow> got ?h c' (m, q))"
      if m: "alist_get (casting ?h) m = Some (q, todo', a)" for m q todo' a
    proof (cases "m = n")
      case True
      then have "q = p" "todo' = remove1 c todo" "a = audience" using m by (simp_all add: cast)
      then show ?thesis using True old [OF n] got got_c todo(1) by (cases "c' = c") (auto simp: stream)
    next
      case False
      then show ?thesis using m old [of m q todo' a] got by (auto simp: cast stream)
    qed
    moreover have "got ?h c' (m, q)" if "(m, e, q, a) \<in> set (finished h)" "c' \<in> fst ` set (clients h)" "c' \<in> set a" for m e q a
      using del [of c'] that got unfolding delivery_inv_def by blast
    ultimately show ?thesis unfolding delivery_inv_def f cast_fields by blast
  qed
  ultimately show ?thesis by (simp add: hub_inv_def)
qed

lemma hub_inv_unlock:
  assumes "hub_inv h" and n: "alist_get (casting h) n = Some (p, [], audience)"
  shows "hub_inv (broadcast_unlock n h)"
proof -
  let ?h = "broadcast_unlock n h"
  have reg: "registry_inv h" and casts: "casts_inv h" and st: "\<And>c. stream_inv h c" and del: "\<And>c. delivery_inv h c"
    using assms(1) by (auto simp: hub_inv_def)
  have h: "?h = h\<lparr>casting := alist_delete n (casting h), finished := (n, ticks h, p, audience) # finished h, ticks := Suc (ticks h)\<rparr>"
    using n by (simp add: broadcast_unlock_def)
  have f: "written ?h = written h" "leaving ?h = leaving h" "shut ?h = shut h" "ticks ?h = Suc (ticks h)" "clients ?h = clients h"
    "finished ?h = (n, ticks h, p, audience) # finished h" "dropped ?h = dropped h"
    and cast: "alist_get (casting ?h) m = (if m = n then None else alist_get (casting h) m)" for m
    by (simp_all add: h alist_get_delete)
  have stream: "stream ?h c = stream h c" "buffer_of ?h c = buffer_of h c" for c
    by (simp_all add: stream_def buffer_of_def f)
  have known: "known ?h m" if "known h m" for m
    using that n by (auto simp: known_def cast_payload_ops f) (auto simp: cast_payload_def)
  have got: "got ?h = got h" by (simp add: fun_eq_iff got_def stream f)
  have ended: "ended_before ?h m i \<longleftrightarrow> ended_before h m i" if "i < ticks h" for m i
    using that by (auto simp: ended_before_def f)
  have "registry_inv ?h" using reg by (simp add: registry_inv_def f)
  moreover have "casts_inv ?h"
    using casts n unfolding casts_inv_def cast f by (auto simp: less_Suc_eq split: if_splits) 
  moreover have "stream_inv ?h c" for c
  proof -
    have "sorted_wrt (\<lambda>m m'. \<not> ended_before ?h (fst m') (fst m)) (stream h c)"
      by (rule sorted_wrt_mono_rel [of _ "\<lambda>m m'. \<not> ended_before h (fst m') (fst m)"])
         (use st [of c] ended in \<open>auto simp: stream_inv_def\<close>)
    with st [of c] known show ?thesis by (auto simp: stream_inv_def stream f less_Suc_eq)
  qed
  moreover have "delivery_inv ?h c" for c
    using del [of c] n unfolding delivery_inv_def cast got stream f by (auto split: if_splits)
  ultimately show ?thesis by (simp add: hub_inv_def)
qed

lemma hub_inv_connect:
  assumes "hub_inv h" "casting h = []" "c \<notin> fst ` set (written h)"
  shows "hub_inv (hub_connect c h)"
proof -
  let ?h = "hub_connect c h"
  have reg: "registry_inv h" and casts: "casts_inv h" and st: "\<And>c. stream_inv h c" and del: "\<And>c. delivery_inv h c"
    using assms(1) by (auto simp: hub_inv_def)
  have f: "leaving ?h = leaving h" "shut ?h = shut h" "ticks ?h = ticks h" "dropped ?h = dropped h" "casting ?h = []"
    "fst ` set (clients ?h) = insert c (fst ` set (clients h))" "fst ` set (written ?h) = insert c (fst ` set (written h))"
    using assms(2) by (simp_all add: hub_connect_def keys_alist_set)
  have buffer: "buffer_of ?h c' = (if c' = c then [] else buffer_of h c')"
    and stream: "stream ?h c' = (if c' = c then [] else stream h c')" for c'
    by (simp_all add: hub_connect_def buffer_of_def stream_def alist_get_set)
  have same: "known ?h = known h" "ended_before ?h = ended_before h"
    by (simp_all add: fun_eq_iff known_def cast_payload_def ended_before_def)
  have "distinct_keys (clients ?h)" using reg by (simp add: hub_connect_def registry_inv_def)
  then have "registry_inv ?h" using reg assms(3) by (auto simp: registry_inv_def f)
  moreover have "casts_inv ?h" using casts unfolding casts_inv_def f hub_fields(14) by (simp add: subset_insertI2)
  moreover have "stream_inv ?h c'" for c'
    using st [of c'] by (simp add: stream_inv_def stream buffer same f)
  moreover have "delivery_inv ?h c'" for c'
  proof (cases "c' = c")
    case True
    have "c \<notin> set a" if "(n, e, p, a) \<in> set (finished h)" for n e p a
      using casts assms(3) that unfolding casts_inv_def by blast
    with True assms(2) show ?thesis by (auto simp: delivery_inv_def)
  next
    case False
    then have "got ?h c' = got h c'" by (simp add: fun_eq_iff got_def stream f)
    with False show ?thesis using del [of c'] assms(2) by (simp add: delivery_inv_def f)
  qed
  ultimately show ?thesis by (simp add: hub_inv_def)
qed

lemma hub_inv_disconnect:
  assumes "hub_inv h" "casting h = []" "c \<in> fst ` set (clients h)"
  shows "hub_inv (hub_disconnect c h)"
proof -
  let ?h = "hub_disconnect c h"
  have reg: "registry_inv h" and casts: "casts_inv h" and st: "\<And>c. stream_inv h c" and del: "\<And>c. delivery_inv h c"
    using assms(1) by (auto simp: hub_inv_def)
  have f: "leaving ?h = c # leaving h" "shut ?h = shut h" "ticks ?h = ticks h" "dropped ?h = dropped h" "casting ?h = []" "written ?h = written h"
    "fst ` set (clients ?h) = fst ` set (clients h) - {c}" "distinct_keys (clients h) \<Longrightarrow> distinct_keys (clients ?h)"
    using assms(2) by (auto simp: hub_disconnect_def alist_delete_def distinct_keys_def distinct_map_filter image_iff)
  have buffer: "buffer_of ?h c' = (if c' = c then [] else buffer_of h c')" for c'
    by (simp add: hub_disconnect_def buffer_of_def alist_get_delete)
  have cut: "\<exists>rest. stream h c' = stream ?h c' @ rest" and stream: "c' \<noteq> c \<Longrightarrow> stream ?h c' = stream h c'" for c'
    by (auto simp: stream_def buffer f)
  have same: "known ?h = known h" "ended_before ?h = ended_before h"
    by (simp_all add: fun_eq_iff known_def cast_payload_def ended_before_def)
  have "registry_inv ?h" using reg assms(3) f(8) by (auto simp: registry_inv_def f(1-7))
  moreover have "casts_inv ?h" using casts assms(2) by (auto simp: casts_inv_def f)
  moreover have "stream_inv ?h c'" for c'
  proof -
    obtain rest where "stream h c' = stream ?h c' @ rest" using cut by blast
    then show ?thesis using st [of c'] by (auto simp: stream_inv_def buffer same f(3) sorted_wrt_append)
  qed
  moreover have "delivery_inv ?h c'" for c'
  proof (cases "c' = c")
    case True
    then show ?thesis using assms(2) by (simp add: delivery_inv_def f)
  next
    case False
    then have "got ?h c' = got h c'" by (simp add: fun_eq_iff got_def stream f)
    with False show ?thesis using del [of c'] assms(2) by (simp add: delivery_inv_def f)
  qed
  ultimately show ?thesis by (simp add: hub_inv_def)
qed

lemma hub_inv_serve:
  assumes "hub_inv h"
  shows "hub_inv (hub_serve c h)"
proof (cases "\<exists>m buf out. alist_get (clients h) c = Some (m # buf) \<and> alist_get (written h) c = Some out")
  case True
  then obtain m buf out where c: "alist_get (clients h) c = Some (m # buf)" "alist_get (written h) c = Some out" by blast
  let ?h = "hub_serve c h"
  have h: "?h = h\<lparr>clients := alist_set c buf (clients h), written := alist_set c (out @ [m]) (written h)\<rparr>"
    using c by (simp add: hub_serve_def)
  have reg: "registry_inv h" using assms by (simp add: hub_inv_def)
  have f: "fst ` set (clients ?h) = fst ` set (clients h)" "fst ` set (written ?h) = fst ` set (written h)" "distinct_keys (clients ?h)"
    using alist_get_key [OF c(1)] alist_get_key [OF c(2)] reg by (auto simp: h keys_alist_set registry_inv_def)
  have stream: "stream ?h = stream h" using c by (auto simp: fun_eq_iff h stream_def buffer_of_def alist_get_set)
  have same: "known ?h = known h" "ended_before ?h = ended_before h" "got ?h = got h"
    by (simp_all add: fun_eq_iff known_def cast_payload_def ended_before_def got_def stream)
  have buffer: "length (buffer_of ?h c') \<le> length (buffer_of h c')" for c'
    using c by (simp add: h buffer_of_def alist_get_set)
  have "registry_inv ?h" "casts_inv ?h" "delivery_inv ?h c'" for c'
    using assms f reg by (simp_all add: hub_inv_def hub_invs same stream)
  moreover have "stream_inv ?h c'" for c'
    using assms buffer [of c'] by (auto simp: hub_inv_def stream_inv_def stream same intro: order_trans)
  ultimately show ?thesis by (simp add: hub_inv_def)
next
  case False
  then have "hub_serve c h = h" by (auto simp: hub_serve_def split: option.splits list.splits)
  with assms show ?thesis by simp
qed

lemma hub_inv_close:
  assumes "hub_inv h" "c \<in> set (leaving h)"
  shows "hub_inv (hub_close c h)"
proof -
  let ?h = "hub_close c h"
  have reg: "registry_inv h" using assms(1) by (simp add: hub_inv_def)
  have f: "clients ?h = clients h" "written ?h = written h" "dropped ?h = dropped h" by (simp_all add: hub_close_def)
  have stream: "stream ?h = stream h" "buffer_of ?h = buffer_of h" by (simp_all add: fun_eq_iff stream_def buffer_of_def f)
  have same: "known ?h = known h" "ended_before ?h = ended_before h" "got ?h = got h"
    by (simp_all add: fun_eq_iff known_def cast_payload_def ended_before_def got_def stream f)
  have "set (leaving ?h) = set (leaving h) - {c}" "set (shut ?h) = insert c (set (shut h))" "distinct (leaving ?h)"
    using reg by (simp_all add: hub_close_def registry_inv_def)
  then have "registry_inv ?h" using reg assms(2) by (auto simp: registry_inv_def f)
  moreover have "casts_inv ?h" "stream_inv ?h c'" "delivery_inv ?h c'" for c'
    using assms(1) by (simp_all add: hub_inv_def hub_invs same stream f)
  ultimately show ?thesis by (simp add: hub_inv_def)
qed

lemma hub_inv_flush: "flush_step h h' \<Longrightarrow> hub_inv h \<Longrightarrow> hub_inv h'"
proof (induction rule: flush_step.induct)
  case (timer ty h)
  then show ?case
    by (auto simp: flushLatest_def broadcastPayload_def intro: hub_inv_cong split: option.split)
qed (simp_all add: hub_inv_lock hub_inv_offer hub_inv_unlock)

lemma hub_inv_step: "hub_step s s' \<Longrightarrow> hub_inv (fst s) \<Longrightarrow> hub_inv (fst s')"
proof (induction rule: hub_step.induct)
  case (broadcast h l payload)
  then show ?case by (cases payload) (auto simp: hub_Broadcast_def broadcastPayload_def intro: hub_inv_cong)
next
  case (latest h l ty interval p)
  then show ?case by (auto simp: hub_BroadcastLatest_def hub_Broadcast_def broadcastPayload_def intro: hub_inv_cong)
next
  case (flush h h' l)
  then show ?case using hub_inv_flush by simp
qed (simp_all add: hub_BroadcastLatest_def hub_Broadcast_def hub_inv_connect hub_inv_serve hub_inv_disconnect hub_inv_close)

lemma hub_inv_reachable: "hub_reachable s \<Longrightarrow> hub_inv (fst s)"
proof (induction rule: hub_reachable.induct)
  case init
  show ?case by (simp add: hub_inv_def hub_invs hub_New_def distinct_keys_def stream_def buffer_of_def)
qed (rule hub_inv_step)

text \<open>
  C32. What browsers receive. In every interleaving of broadcasts, timers, connecting,
  disconnecting and slow clients, and for every client: its channel never holds more than 32
  payloads; what it has been sent, followed by what waits in its channel, contains only payloads
  that were broadcast, each broadcast at most once, and a broadcast that had ended before another
  began never comes after it; as long as it is connected, every broadcast that ended and found
  it registered is in there, or was dropped when its channel held 32 payloads; and the clients a
  broadcast still has to serve are registered, so that no payload is sent on a closed channel,
  and no channel is closed twice.
\<close>

theorem hub_clients_served:
  assumes "hub_reachable (h, l)"
  shows "length (buffer_of h c) \<le> 32 \<and> distinct (map fst (stream h c))
    \<and> (\<forall>(n, p) \<in> set (stream h c). (\<exists>todo audience. alist_get (casting h) n = Some (p, todo, audience))
         \<or> (\<exists>e audience. (n, e, p, audience) \<in> set (finished h)))
    \<and> sorted_wrt (\<lambda>m m'. \<not> ended_before h (fst m') (fst m)) (stream h c)
    \<and> (\<forall>(n, e, p, audience) \<in> set (finished h). c \<in> set audience \<longrightarrow> alist_get (clients h) c \<noteq> None \<longrightarrow>
         (n, p) \<in> set (stream h c) \<or> (c, n, 32) \<in> set (dropped h))
    \<and> (\<forall>n p todo audience. alist_get (casting h) n = Some (p, todo, audience) \<longrightarrow> c \<in> set todo \<longrightarrow>
         alist_get (clients h) c \<noteq> None \<and> c \<notin> set (shut h))
    \<and> \<not> (c \<in> set (leaving h) \<and> c \<in> set (shut h))"
proof -
  have inv: "registry_inv h" "casts_inv h" "stream_inv h c" "delivery_inv h c"
    using hub_inv_reachable [OF assms] by (simp_all add: hub_inv_def)
  have "\<forall>(n, p) \<in> set (stream h c). (\<exists>todo audience. alist_get (casting h) n = Some (p, todo, audience))
         \<or> (\<exists>e audience. (n, e, p, audience) \<in> set (finished h))"
    using inv(3) by (fastforce simp: stream_inv_def known_def cast_payload_def)
  moreover have "sorted_wrt (\<lambda>m m'. \<not> ended_before h (fst m') (fst m)) (stream h c)"
    using inv(3) by (simp add: stream_inv_def)
  moreover have "(n, p) \<in> set (stream h c) \<or> (c, n, 32) \<in> set (dropped h)"
    if "(n, e, p, audience) \<in> set (finished h)" "c \<in> set audience" "alist_get (clients h) c \<noteq> None" for n e p audience
    using inv(4) that unfolding delivery_inv_def alist_get_None got_def client_buffer_def fst_conv by blast
  moreover have "alist_get (clients h) c \<noteq> None \<and> c \<notin> set (shut h)"
    if "alist_get (casting h) n = Some (p, todo, audience)" "c \<in> set todo" for n p todo audience
    using inv(1,2) that unfolding casts_inv_def registry_inv_def alist_get_None by blast
  moreover have "\<not> (c \<in> set (leaving h) \<and> c \<in> set (shut h))" using inv(1) by (auto simp: registry_inv_def)
  moreover have "length (buffer_of h c) \<le> 32" "distinct (map fst (stream h c))"
    using inv(3) by (simp_all add: stream_inv_def client_buffer_def)
  ultimately show ?thesis by blast
qed

definition demo_hub :: "nat hub" where
  "demo_hub = hub_serve 0 (broadcast_unlock 0 (broadcast_offer 0 0 (broadcast_lock 7 (hub_Broadcast (Some 7) (hub_connect 0 hub_New)))))"

lemma demo_hub_reachable: "hub_reachable (demo_hub, \<lambda>_. None)"
proof -
  let ?l = "\<lambda>_. None"
  define h1 :: "nat hub" where "h1 = hub_connect 0 hub_New"
  define h2 where "h2 = hub_Broadcast (Some 7) h1"
  define h3 where "h3 = broadcast_lock 7 h2"
  define h4 where "h4 = broadcast_offer 0 0 h3"
  define h5 where "h5 = broadcast_unlock 0 h4"
  note defs = h1_def h2_def h3_def h4_def h5_def
  have "hub_reachable (hub_New :: nat hub, ?l)" by (rule hub_reachable.init)
  moreover have "hub_step (hub_New, ?l) (h1, ?l)" unfolding h1_def by (rule hub_step.connect) (simp_all add: hub_New_def)
  moreover have "hub_step (h1, ?l) (h2, ?l)" unfolding h2_def by (rule hub_step.broadcast)
  moreover have "7 \<in> set (called h2)" unfolding defs by code_simp
  then have "hub_step (h2, ?l) (h3, ?l)" unfolding h3_def by (intro hub_step.flush flush_step.rlock)
  moreover have "alist_get (casting h3) 0 = Some (7, [0], [0])" unfolding defs by code_simp
  then have "hub_step (h3, ?l) (h4, ?l)" unfolding h4_def by (rule hub_step.flush [OF flush_step.send]) simp
  moreover have "alist_get (casting h4) 0 = Some (7, [], [0])" unfolding defs by code_simp
  then have "hub_step (h4, ?l) (h5, ?l)" unfolding h5_def by (intro hub_step.flush flush_step.runlock)
  moreover have "hub_step (h5, ?l) (demo_hub, ?l)" unfolding demo_hub_def defs by (rule hub_step.serve)
  ultimately show ?thesis by (metis hub_reachable.step)
qed

theorem hub_clients_served_witness:
  "stream demo_hub 0 = [(0, 7)] \<and> length (buffer_of demo_hub 0) \<le> 32 \<and> (0, 7) \<in> set (stream demo_hub 0)"
proof -
  have "stream demo_hub 0 = [(0, 7)]" by code_simp
  with hub_clients_served [OF demo_hub_reachable, of 0] show ?thesis by auto
qed

end
