(* ===== verification/Ingest.thy ===== *)
theory Ingest
  imports Database Hub
begin

text \<open>
  The backend's flow service (\<open>src/backend/internal/service/flow_service.go\<close> and
  \<open>resolver.go\<close>): ingestion of a flow event in one transaction, and the two listings. The
  properties relate the tables to what was ingested: per aggregate key, the stored counters
  grow by exactly the event's counters, every stored flow is the sum of its observations, and
  a failed ingestion leaves no trace.
\<close>

section \<open>Ingestion\<close>

datatype 'p hub_call = CallBroadcast string 'p | CallBroadcastLatest string 'p duration

record resolved_vm =
  rv_ID :: string
  rv_Name :: string
  rv_TenantID :: string
  rv_AgentID :: string

record flow =
  fl_ID :: string
  fl_AgentID :: string
  fl_SrcVMID :: string
  fl_DstVMID :: string
  fl_SrcIP :: string
  fl_DstIP :: string
  fl_SrcPort :: int
  fl_DstPort :: int
  fl_Protocol :: string
  fl_Direction :: string
  fl_Scope :: string
  fl_Service :: string
  fl_ServicePort :: int
  fl_BytesSent :: i64
  fl_BytesReceived :: i64
  fl_Packets :: i64
  fl_ConnectionCount :: i64
  fl_RequestCount :: i64
  fl_ErrorCount :: i64
  fl_Retransmissions :: i64
  fl_AvgRTTMs :: f64
  fl_AvgAppDelayMs :: f64
  fl_HTTP1xx :: i64
  fl_HTTP2xx :: i64
  fl_HTTP3xx :: i64
  fl_HTTP4xx :: i64
  fl_HTTP5xx :: i64
  fl_LastHTTPStatus :: int
  fl_RequestsPerSec :: f64
  fl_ConnectionsPerSec :: f64
  fl_FirstSeen :: gotime
  fl_LastSeen :: gotime
  fl_ObservedAt :: gotime
  fl_LastErrorAt :: "gotime option"
  fl_InterfaceName :: string
  fl_CreatedAt :: gotime

datatype service_error = InvalidEvent flow_error | NotRegistered string | DatabaseError
  | MissingField string | BadPublicIP string | UnsupportedProtocol string | CountedProbe

definition resolved :: "'ip vm_row \<Rightarrow> resolved_vm" where
  "resolved v = \<lparr>rv_ID = vm_id v, rv_Name = vm_name v, rv_TenantID = text_or_empty (vm_tenant_id v),
     rv_AgentID = text_or_empty (vm_agent_id v)\<rparr>"

text \<open>The agent's VM: \<open>agents a JOIN vms v ON v.id = a.vm_id WHERE a.id = $1\<close>.\<close>

definition source_of_agent :: "string \<Rightarrow> 'ip tables \<Rightarrow> 'ip vm_row option" where
  "source_of_agent agent t =
     first_row [v. a \<leftarrow> agents t, ag_id a = agent, v \<leftarrow> vms t, ag_vm_id a = Some (vm_id v)]"

definition owns_ip :: "'ip tables \<Rightarrow> 'ip \<Rightarrow> 'ip vm_row \<Rightarrow> bool" where
  "owns_ip t ip v \<longleftrightarrow>
     vm_private_ip v = Some ip \<or> vm_public_ip v = Some ip
     \<or> list_ex (\<lambda>i. vi_vm_id i = vm_id v \<and> vi_ip_address i = Some ip) (vm_interfaces t)"

definition resolveVMByIP :: "'ip pg \<Rightarrow> string \<Rightarrow> ('ip tables, service_error, resolved_vm option) tx" where
  "resolveVMByIP pg ip =
     stmt DatabaseError (\<lambda>t.
       case inet pg ip of
         None \<Rightarrow> None
       | Some a \<Rightarrow> Some (map_option resolved (first_row (order_desc vm_last_seen (filter (owns_ip t a) (vms t)))), t))"

text \<open>\<open>INSERT ... ON CONFLICT (ip)\<close> of the host tables.\<close>

definition touch_host :: "'ip pg \<Rightarrow> 'ip \<Rightarrow> flow_event \<Rightarrow> 'ip host_row list \<Rightarrow> 'ip host_row list" where
  "touch_host pg ip e =
     upsert (\<lambda>h. hr_ip h = ip) (\<lambda>h. h\<lparr>hr_last_seen := max (hr_last_seen h) (stamp pg (fe_LastSeen e))\<rparr>)
       \<lparr>hr_ip = ip, hr_first_seen = stamp pg (fe_FirstSeen e), hr_last_seen = stamp pg (fe_LastSeen e), hr_resolved_vm_id = None\<rparr>"

definition record_host :: "'ip pg \<Rightarrow> string \<Rightarrow> flow_event \<Rightarrow> ('ip tables, service_error, unit) tx" where
  "record_host pg scope e =
     (if scope = ScopeUnknownInternal then
        exec DatabaseError (\<lambda>t. map_option (\<lambda>ip. t\<lparr>unknown_internal_hosts := touch_host pg ip e (unknown_internal_hosts t)\<rparr>) (inet pg (fe_DstIP e)))
      else if scope = ScopeExternalPublic \<or> scope = ScopeExternalPrivate then
        exec DatabaseError (\<lambda>t. map_option (\<lambda>ip. t\<lparr>external_hosts := touch_host pg ip e (external_hosts t)\<rparr>) (inet pg (fe_DstIP e)))
      else tx_return ())"

text \<open>The aggregate key of \<open>network_flows\<close>; \<open>IS NOT DISTINCT FROM\<close> is equality of options.\<close>

record 'ip flow_group =
  gk_src_vm :: "string option"
  gk_dst_vm :: "string option"
  gk_src_ip :: 'ip
  gk_dst_ip :: 'ip
  gk_protocol :: string
  gk_dst_port :: "int option"
  gk_scope :: string
  gk_direction :: string

definition group_of :: "'ip flow_row \<Rightarrow> 'ip flow_group" where
  "group_of r = \<lparr>gk_src_vm = nf_src_vm_id r, gk_dst_vm = nf_dst_vm_id r, gk_src_ip = nf_src_ip r, gk_dst_ip = nf_dst_ip r,
     gk_protocol = nf_protocol r, gk_dst_port = nf_dst_port r, gk_scope = nf_scope r, gk_direction = nf_direction r\<rparr>"

text \<open>The statement's result is scanned into \<open>flowID\<close>, which stays empty when there is no row.\<close>

definition find_flow :: "'ip flow_group \<Rightarrow> 'ip tables \<Rightarrow> string" where
  "find_flow k t =
     (case first_row (filter (\<lambda>r. group_of r = k) (network_flows t)) of None \<Rightarrow> [] | Some r \<Rightarrow> nf_id r)"

definition event_group :: "string \<Rightarrow> string option \<Rightarrow> 'ip \<Rightarrow> 'ip \<Rightarrow> string \<Rightarrow> flow_event \<Rightarrow> 'ip flow_group" where
  "event_group src dst srcIP dstIP scope e =
     \<lparr>gk_src_vm = Some src, gk_dst_vm = dst, gk_src_ip = srcIP, gk_dst_ip = dstIP, gk_protocol = fe_Protocol e,
      gk_dst_port = Some (fe_DstPort e), gk_scope = scope, gk_direction = fe_Direction e\<rparr>"

definition lookup_flow ::
    "'ip pg \<Rightarrow> string \<Rightarrow> string option \<Rightarrow> string \<Rightarrow> flow_event \<Rightarrow> ('ip tables, service_error, 'ip flow_group \<times> string) tx" where
  "lookup_flow pg src dst scope e =
     stmt DatabaseError (\<lambda>t.
       case (inet pg (fe_SrcIP e), inet pg (fe_DstIP e)) of
         (Some srcIP, Some dstIP) \<Rightarrow>
           (let k = event_group src dst srcIP dstIP scope e in Some ((k, find_flow k t), t))
       | _ \<Rightarrow> None)"

definition new_flow :: "'ip pg \<Rightarrow> gotime \<Rightarrow> gotime \<Rightarrow> 'ip flow_group \<Rightarrow> string \<Rightarrow> flow_event \<Rightarrow> 'ip flow_row" where
  "new_flow pg now observedAt k flowID e =
     \<lparr>nf_id = flowID, nf_agent_id = Some (fe_AgentID e), nf_src_vm_id = gk_src_vm k, nf_dst_vm_id = gk_dst_vm k,
      nf_src_ip = gk_src_ip k, nf_dst_ip = gk_dst_ip k, nf_src_port = Some (fe_SrcPort e), nf_dst_port = Some (fe_DstPort e),
      nf_protocol = fe_Protocol e, nf_direction = fe_Direction e, nf_scope = gk_scope k,
      nf_bytes_sent = fe_BytesSent e, nf_bytes_received = fe_BytesReceived e, nf_packets = fe_Packets e,
      nf_connection_count = fe_ConnectionCount e, nf_request_count = fe_RequestCount e, nf_error_count = fe_ErrorCount e,
      nf_retransmission_count = fe_Retransmissions e, nf_avg_rtt_ms = fe_AvgRTTMs e, nf_avg_app_delay_ms = fe_AvgAppDelayMs e,
      nf_http_1xx = fe_HTTP1xx e, nf_http_2xx = fe_HTTP2xx e, nf_http_3xx = fe_HTTP3xx e, nf_http_4xx = fe_HTTP4xx e,
      nf_http_5xx = fe_HTTP5xx e, nf_last_http_status = nullIfZeroStatus (fe_LastHTTPStatus e),
      nf_first_seen = stamp pg (fe_FirstSeen e), nf_last_seen = stamp pg (fe_LastSeen e), nf_observed_at = now,
      nf_last_error_at = map_option (stamp pg) (LastErrorAtArg (fe_ErrorCount e) observedAt),
      nf_interface_name = nullIfEmpty (fe_Interface e), nf_created_at = now\<rparr>"

text \<open>
  The running average of the \<open>UPDATE\<close>. The argument first occurs in a comparison with the integer
  0, which decides the type the server infers for it; what it becomes is \<open>number_arg\<close>.
\<close>

definition sql_average :: "'ip pg \<Rightarrow> f64 \<Rightarrow> f64 \<Rightarrow> f64" where
  "sql_average pg current arg =
     (let new = number_arg pg arg
      in if new > 0 \<and> current > 0 then f64_div (f64_add current new) 2 else if new > 0 then new else current)"

definition grow_flow :: "'ip pg \<Rightarrow> gotime \<Rightarrow> flow_event \<Rightarrow> 'ip flow_row \<Rightarrow> 'ip flow_row" where
  "grow_flow pg observedAt e r =
     r\<lparr>nf_bytes_sent := nf_bytes_sent r + fe_BytesSent e, nf_bytes_received := nf_bytes_received r + fe_BytesReceived e,
       nf_packets := nf_packets r + fe_Packets e, nf_connection_count := nf_connection_count r + fe_ConnectionCount e,
       nf_request_count := nf_request_count r + fe_RequestCount e, nf_error_count := nf_error_count r + fe_ErrorCount e,
       nf_retransmission_count := nf_retransmission_count r + fe_Retransmissions e,
       nf_avg_rtt_ms := sql_average pg (nf_avg_rtt_ms r) (fe_AvgRTTMs e),
       nf_avg_app_delay_ms := sql_average pg (nf_avg_app_delay_ms r) (fe_AvgAppDelayMs e),
       nf_first_seen := min (nf_first_seen r) (stamp pg (fe_FirstSeen e)),
       nf_last_seen := max (nf_last_seen r) (stamp pg (fe_LastSeen e)), nf_agent_id := Some (fe_AgentID e),
       nf_interface_name := coalesce (nullIfEmpty (fe_Interface e)) (nf_interface_name r),
       nf_last_error_at :=
         (if fe_ErrorCount e > 0
          then Some (max (case nf_last_error_at r of Some x \<Rightarrow> x | None \<Rightarrow> stamp pg observedAt) (stamp pg observedAt))
          else nf_last_error_at r),
       nf_observed_at := stamp pg observedAt,
       nf_http_1xx := nf_http_1xx r + fe_HTTP1xx e, nf_http_2xx := nf_http_2xx r + fe_HTTP2xx e,
       nf_http_3xx := nf_http_3xx r + fe_HTTP3xx e, nf_http_4xx := nf_http_4xx r + fe_HTTP4xx e,
       nf_http_5xx := nf_http_5xx r + fe_HTTP5xx e,
       nf_last_http_status := coalesce (nullIfZeroStatus (fe_LastHTTPStatus e)) (nf_last_http_status r)\<rparr>"

text \<open>The counters of an event, of a stored flow and of an observation.\<close>

datatype counter = BytesSent | BytesReceived | Packets | Connections | Requests | Errors | Retransmissions
  | HTTP1xx | HTTP2xx | HTTP3xx | HTTP4xx | HTTP5xx

fun event_counter :: "counter \<Rightarrow> flow_event \<Rightarrow> i64" where
  "event_counter BytesSent = fe_BytesSent"
| "event_counter BytesReceived = fe_BytesReceived"
| "event_counter Packets = fe_Packets"
| "event_counter Connections = fe_ConnectionCount"
| "event_counter Requests = fe_RequestCount"
| "event_counter Errors = fe_ErrorCount"
| "event_counter Retransmissions = fe_Retransmissions"
| "event_counter HTTP1xx = fe_HTTP1xx"
| "event_counter HTTP2xx = fe_HTTP2xx"
| "event_counter HTTP3xx = fe_HTTP3xx"
| "event_counter HTTP4xx = fe_HTTP4xx"
| "event_counter HTTP5xx = fe_HTTP5xx"

fun row_counter :: "counter \<Rightarrow> 'ip flow_row \<Rightarrow> i64" where
  "row_counter BytesSent = nf_bytes_sent"
| "row_counter BytesReceived = nf_bytes_received"
| "row_counter Packets = nf_packets"
| "row_counter Connections = nf_connection_count"
| "row_counter Requests = nf_request_count"
| "row_counter Errors = nf_error_count"
| "row_counter Retransmissions = nf_retransmission_count"
| "row_counter HTTP1xx = nf_http_1xx"
| "row_counter HTTP2xx = nf_http_2xx"
| "row_counter HTTP3xx = nf_http_3xx"
| "row_counter HTTP4xx = nf_http_4xx"
| "row_counter HTTP5xx = nf_http_5xx"

fun obs_counter :: "counter \<Rightarrow> 'ip observation_row \<Rightarrow> i64" where
  "obs_counter BytesSent = ob_bytes_sent"
| "obs_counter BytesReceived = ob_bytes_received"
| "obs_counter Packets = ob_packets"
| "obs_counter Connections = ob_connection_count"
| "obs_counter Requests = ob_request_count"
| "obs_counter Errors = ob_error_count"
| "obs_counter Retransmissions = ob_retransmission_count"
| "obs_counter HTTP1xx = ob_http_1xx"
| "obs_counter HTTP2xx = ob_http_2xx"
| "obs_counter HTTP3xx = ob_http_3xx"
| "obs_counter HTTP4xx = ob_http_4xx"
| "obs_counter HTTP5xx = ob_http_5xx"

definition all_counters :: "counter list" where
  "all_counters = [BytesSent, BytesReceived, Packets, Connections, Requests, Errors, Retransmissions,
     HTTP1xx, HTTP2xx, HTTP3xx, HTTP4xx, HTTP5xx]"

text \<open>A BIGINT column rejects a sum outside the 64-bit range: the whole statement fails.\<close>

definition row_fits :: "'ip flow_row \<Rightarrow> bool" where
  "row_fits r \<longleftrightarrow> list_all (\<lambda>i. in_i64 (row_counter i r)) all_counters"

definition store_flow ::
    "'ip pg \<Rightarrow> gotime \<Rightarrow> gotime \<Rightarrow> 'ip flow_group \<Rightarrow> flow_event \<Rightarrow> string \<Rightarrow> ('ip tables, service_error, string) tx" where
  "store_flow pg now observedAt k e flowID =
     (if flowID = [] then stmt DatabaseError (\<lambda>t.
        let new = uuid pg (uuids_used t) in
        Some (new, t\<lparr>network_flows := network_flows t @ [new_flow pg now observedAt k new e], uuids_used := uuids_used t + 1\<rparr>))
      else stmt DatabaseError (\<lambda>t.
        let rows = update_where (\<lambda>r. nf_id r = flowID) (grow_flow pg observedAt e) (network_flows t) in
        if list_all row_fits (filter (\<lambda>r. nf_id r = flowID) rows) then Some (flowID, t\<lparr>network_flows := rows\<rparr>) else None))"

definition new_observation :: "'ip pg \<Rightarrow> gotime \<Rightarrow> 'ip flow_group \<Rightarrow> string \<Rightarrow> flow_event \<Rightarrow> 'ip observation_row" where
  "new_observation pg observedAt k flowID e =
     \<lparr>ob_flow_id = flowID, ob_agent_id = Some (fe_AgentID e), ob_src_vm_id = gk_src_vm k, ob_dst_vm_id = gk_dst_vm k,
      ob_src_ip = gk_src_ip k, ob_dst_ip = gk_dst_ip k, ob_src_port = Some (fe_SrcPort e), ob_dst_port = Some (fe_DstPort e),
      ob_protocol = fe_Protocol e, ob_direction = fe_Direction e, ob_scope = gk_scope k,
      ob_bytes_sent = fe_BytesSent e, ob_bytes_received = fe_BytesReceived e, ob_packets = fe_Packets e,
      ob_connection_count = fe_ConnectionCount e, ob_request_count = fe_RequestCount e, ob_error_count = fe_ErrorCount e,
      ob_retransmission_count = fe_Retransmissions e, ob_avg_rtt_ms = fe_AvgRTTMs e, ob_avg_app_delay_ms = fe_AvgAppDelayMs e,
      ob_http_1xx = fe_HTTP1xx e, ob_http_2xx = fe_HTTP2xx e, ob_http_3xx = fe_HTTP3xx e, ob_http_4xx = fe_HTTP4xx e,
      ob_http_5xx = fe_HTTP5xx e, ob_last_http_status = nullIfZeroStatus (fe_LastHTTPStatus e),
      ob_first_seen = stamp pg (fe_FirstSeen e), ob_last_seen = stamp pg (fe_LastSeen e), ob_observed_at = stamp pg observedAt\<rparr>"

definition mark_online :: "gotime \<Rightarrow> string \<Rightarrow> string \<Rightarrow> ('ip tables, service_error, unit) tx" where
  "mark_online now agent vm =
     tx_then
       (exec DatabaseError (\<lambda>t. Some (t\<lparr>agents := update_where (\<lambda>a. ag_id a = agent) (\<lambda>a. a\<lparr>ag_last_seen := now, ag_status := ''online''\<rparr>) (agents t)\<rparr>)))
       (exec DatabaseError (\<lambda>t. Some (t\<lparr>vms := update_where (\<lambda>v. vm_id v = vm) (\<lambda>v. v\<lparr>vm_last_seen := now, vm_status := ''online''\<rparr>) (vms t)\<rparr>)))"

definition insert_observation ::
    "'ip pg \<Rightarrow> gotime \<Rightarrow> 'ip flow_group \<Rightarrow> string \<Rightarrow> flow_event \<Rightarrow> ('ip tables, service_error, unit) tx" where
  "insert_observation pg observedAt k flowID e =
     exec DatabaseError (\<lambda>t. Some (t\<lparr>flow_observations := flow_observations t @ [new_observation pg observedAt k flowID e]\<rparr>))"

text \<open>
  The transaction of \<open>Ingest\<close>: source VM, destination VM, scope, host tables, advisory lock,
  the aggregate row, the observation and the two status updates.
\<close>

definition ingest_flow ::
    "'ip pg \<Rightarrow> gotime \<Rightarrow> gotime \<Rightarrow> flow_event \<Rightarrow> string \<Rightarrow> string option \<Rightarrow> string \<Rightarrow> ('ip tables, service_error, string) tx" where
  "ingest_flow pg now observedAt e src dst scope =
     tx_then (record_host pg scope e)
       (tx_then (query DatabaseError (\<lambda>_. ()))
         (tx_bind (lookup_flow pg src dst scope e) (\<lambda>(k, found).
           tx_bind (store_flow pg now observedAt k e found) (\<lambda>flowID.
             tx_then (insert_observation pg observedAt k flowID e)
               (tx_then (mark_online now (fe_AgentID e) src) (tx_return flowID))))))"

definition ingest_tx ::
    "'ip pg \<Rightarrow> classifier \<Rightarrow> gotime \<Rightarrow> gotime \<Rightarrow> flow_event
     \<Rightarrow> ('ip tables, service_error, string \<times> resolved_vm \<times> resolved_vm option \<times> string) tx" where
  "ingest_tx pg cls now observedAt e =
     tx_bind (query DatabaseError (source_of_agent (fe_AgentID e))) (\<lambda>src.
       case src of
         None \<Rightarrow> tx_fail (NotRegistered (fe_AgentID e))
       | Some v \<Rightarrow>
           tx_bind (resolveVMByIP pg (fe_DstIP e)) (\<lambda>dst.
             let source = resolved v;
                 dstTenant = (case dst of Some d \<Rightarrow> rv_TenantID d | None \<Rightarrow> []);
                 scope = Scope cls (rv_TenantID source) dstTenant (dst \<noteq> None) (fe_DstIP e)
             in tx_bind (ingest_flow pg now observedAt e (rv_ID source) (map_option rv_ID dst) scope)
                  (\<lambda>flowID. tx_return (flowID, source, dst, scope))))"

definition ingested_flow :: "gotime \<Rightarrow> flow_event \<Rightarrow> string \<times> resolved_vm \<times> resolved_vm option \<times> string \<Rightarrow> flow" where
  "ingested_flow observedAt e r =
     (case r of (flowID, source, dst, scope) \<Rightarrow>
       let (serviceName, servicePort) = classifyService (fe_Protocol e) (fe_Direction e) (fe_SrcPort e) (fe_DstPort e) in
       \<lparr>fl_ID = flowID, fl_AgentID = fe_AgentID e, fl_SrcVMID = rv_ID source,
        fl_DstVMID = (case dst of Some d \<Rightarrow> rv_ID d | None \<Rightarrow> []), fl_SrcIP = fe_SrcIP e, fl_DstIP = fe_DstIP e,
        fl_SrcPort = fe_SrcPort e, fl_DstPort = fe_DstPort e, fl_Protocol = fe_Protocol e, fl_Direction = fe_Direction e,
        fl_Scope = scope, fl_Service = serviceName, fl_ServicePort = servicePort, fl_BytesSent = fe_BytesSent e,
        fl_BytesReceived = fe_BytesReceived e, fl_Packets = fe_Packets e, fl_ConnectionCount = fe_ConnectionCount e,
        fl_RequestCount = fe_RequestCount e, fl_ErrorCount = fe_ErrorCount e, fl_Retransmissions = fe_Retransmissions e,
        fl_AvgRTTMs = fe_AvgRTTMs e, fl_AvgAppDelayMs = fe_AvgAppDelayMs e, fl_HTTP1xx = fe_HTTP1xx e,
        fl_HTTP2xx = fe_HTTP2xx e, fl_HTTP3xx = fe_HTTP3xx e, fl_HTTP4xx = fe_HTTP4xx e, fl_HTTP5xx = fe_HTTP5xx e,
        fl_LastHTTPStatus = fe_LastHTTPStatus e,
        fl_RequestsPerSec = RatePerSecond (fe_RequestCount e) (fe_FirstSeen e) (fe_LastSeen e),
        fl_ConnectionsPerSec = RatePerSecond (fe_ConnectionCount e) (fe_FirstSeen e) (fe_LastSeen e),
        fl_FirstSeen = fe_FirstSeen e, fl_LastSeen = fe_LastSeen e, fl_ObservedAt = observedAt,
        fl_LastErrorAt = LastErrorAtPtr (fe_ErrorCount e) observedAt, fl_InterfaceName = fe_Interface e, fl_CreatedAt = 0\<rparr>)"

text \<open>
  \<open>now\<close> is the database's clock in this transaction, \<open>clock\<close> the process's. The result is the
  flow or the error, the tables, and the calls of the hub.
\<close>

definition flow_Ingest ::
    "'ip pg \<Rightarrow> (string \<Rightarrow> string) \<Rightarrow> classifier \<Rightarrow> gotime \<Rightarrow> gotime \<Rightarrow> flow_event \<Rightarrow> 'ip tables \<times> nat option
     \<Rightarrow> (service_error + flow) \<times> 'ip tables \<times> flow hub_call list" where
  "flow_Ingest pg ul cls now clock event s =
     (case ValidateFlowEvent ul clock event of
        Inl err \<Rightarrow> (Inl (InvalidEvent err), fst s, [])
      | Inr e \<Rightarrow>
          (case transaction DatabaseError (ingest_tx pg cls now clock e) s of
             (Inl err, t) \<Rightarrow> (Inl err, t, [])
           | (Inr r, t) \<Rightarrow>
               let flow = ingested_flow clock e r
               in (Inr flow, t, [CallBroadcastLatest ''flow.updated'' flow (500 * Millisecond)])))"

section \<open>What a transaction does to the tables\<close>

lemma record_host_frame:
  "record_host pg scope e (t, c) = Inr (u, t', c') \<Longrightarrow>
   network_flows t' = network_flows t \<and> flow_observations t' = flow_observations t \<and> uuids_used t' = uuids_used t"
  by (auto simp: record_host_def dest!: exec_Inr split: if_splits)

lemma mark_online_frame:
  "mark_online now a v (t, c) = Inr (u, t', c') \<Longrightarrow>
   network_flows t' = network_flows t \<and> flow_observations t' = flow_observations t \<and> uuids_used t' = uuids_used t"
  by (auto simp: mark_online_def tx_then_def tx_bind_Inr dest!: exec_Inr)

text \<open>The effect of \<open>store_flow\<close> followed by \<open>insert_observation\<close> on the two flow tables.\<close>

definition stored :: "'ip pg \<Rightarrow> gotime \<Rightarrow> gotime \<Rightarrow> 'ip flow_group \<Rightarrow> flow_event \<Rightarrow> 'ip tables \<Rightarrow> string \<Rightarrow> 'ip tables \<Rightarrow> bool" where
  "stored pg now obs k e t flowID t' \<longleftrightarrow>
     (if find_flow k t = []
      then flowID = uuid pg (uuids_used t) \<and> uuids_used t' = uuids_used t + 1
           \<and> network_flows t' = network_flows t @ [new_flow pg now obs k flowID e]
      else flowID = find_flow k t \<and> uuids_used t' = uuids_used t
           \<and> network_flows t' = update_where (\<lambda>r. nf_id r = flowID) (grow_flow pg obs e) (network_flows t)
           \<and> list_all row_fits (filter (\<lambda>r. nf_id r = flowID) (network_flows t')))
     \<and> flow_observations t' = flow_observations t @ [new_observation pg obs k flowID e]"

lemma lookup_flow_Inr:
  assumes "lookup_flow pg src dst scope e (t, c) = Inr ((k, found), t', c')"
  shows "\<exists>srcIP dstIP. inet pg (fe_SrcIP e) = Some srcIP \<and> inet pg (fe_DstIP e) = Some dstIP
    \<and> k = event_group src dst srcIP dstIP scope e \<and> found = find_flow k t \<and> t' = t"
proof (cases "inet pg (fe_SrcIP e)")
  case None
  then show ?thesis using stmt_Inr [OF assms [unfolded lookup_flow_def]] by simp
next
  case (Some srcIP)
  then show ?thesis
    using stmt_Inr [OF assms [unfolded lookup_flow_def]]
    by (cases "inet pg (fe_DstIP e)") (simp_all add: Let_def, metis)
qed

lemma ingest_flow_Inr:
  assumes "ingest_flow pg now obs e src dst scope (t, c) = Inr (flowID, t', c')"
  shows "\<exists>srcIP dstIP. inet pg (fe_SrcIP e) = Some srcIP \<and> inet pg (fe_DstIP e) = Some dstIP
    \<and> stored pg now obs (event_group src dst srcIP dstIP scope e) e t flowID t'"
proof -
  from assms obtain t1 c1 c2 k found t3 c3 f t4 c4 t5 c5 t6 c6 where
    host: "record_host pg scope e (t, c) = Inr ((), t1, c1)" and
    look: "lookup_flow pg src dst scope e (t1, c2) = Inr ((k, found), t3, c3)" and
    store: "store_flow pg now obs k e found (t3, c3) = Inr (f, t4, c4)" and
    obs: "insert_observation pg obs k f e (t4, c4) = Inr ((), t5, c5)" and
    mark: "mark_online now (fe_AgentID e) src (t5, c5) = Inr ((), t6, c6)" and
    ret: "f = flowID" "t6 = t'"
    unfolding ingest_flow_def tx_then_def by (auto simp: tx_bind_Inr dest!: query_Inr)
  note frame = record_host_frame [OF host] mark_online_frame [OF mark]
  obtain srcIP dstIP where ips: "inet pg (fe_SrcIP e) = Some srcIP" "inet pg (fe_DstIP e) = Some dstIP"
    and k: "k = event_group src dst srcIP dstIP scope e" "found = find_flow k t1" "t3 = t1"
    using lookup_flow_Inr [OF look] by blast
  have "find_flow k t1 = find_flow k t" using frame by (simp add: find_flow_def)
  moreover have "flow_observations t5 = flow_observations t4 @ [new_observation pg obs k f e]
      \<and> network_flows t5 = network_flows t4 \<and> uuids_used t5 = uuids_used t4"
    using obs by (auto simp: insert_observation_def dest!: exec_Inr)
  ultimately have "stored pg now obs k e t flowID t'"
    using store frame k ret
    by (auto simp: stored_def store_flow_def Let_def dest!: stmt_Inr split: if_splits)
  with ips k show ?thesis by blast
qed

lemma ingest_tx_Inr:
  assumes "ingest_tx pg cls now obs e (t, c) = Inr (r, t', c')"
  shows "\<exists>k. stored pg now obs k e t (fst r) t' \<and> gk_protocol k = fe_Protocol e \<and> gk_direction k = fe_Direction e
    \<and> gk_dst_port k = Some (fe_DstPort e) \<and> gk_src_vm k = Some (rv_ID (fst (snd r)))
    \<and> gk_dst_vm k = map_option rv_ID (fst (snd (snd r))) \<and> gk_scope k = snd (snd (snd r))
    \<and> inet pg (fe_SrcIP e) = Some (gk_src_ip k) \<and> inet pg (fe_DstIP e) = Some (gk_dst_ip k)"
proof -
  from assms obtain v t1 c1 dst t2 c2 flowID t3 c3 scope where
    src: "query DatabaseError (source_of_agent (fe_AgentID e)) (t, c) = Inr (Some v, t1, c1)" and
    dst: "resolveVMByIP pg (fe_DstIP e) (t1, c1) = Inr (dst, t2, c2)" and
    flow: "ingest_flow pg now obs e (rv_ID (resolved v)) (map_option rv_ID dst) scope (t2, c2) = Inr (flowID, t3, c3)" and
    r: "r = (flowID, resolved v, dst, scope)" "t3 = t'"
    unfolding ingest_tx_def tx_bind_Inr Let_def by (auto simp: tx_bind_Inr split: option.splits)
  have "t1 = t" "t2 = t1"
    using query_Inr [OF src] dst by (auto simp: resolveVMByIP_def dest!: stmt_Inr split: option.splits)
  with ingest_flow_Inr [OF flow] r show ?thesis by (auto simp: event_group_def)
qed

section \<open>Stored flows and their observations\<close>

definition flow_total :: "'ip tables \<Rightarrow> 'ip flow_group \<Rightarrow> counter \<Rightarrow> int" where
  "flow_total t k i = (\<Sum>r\<leftarrow>filter (\<lambda>r. group_of r = k) (network_flows t). row_counter i r)"

definition observed_total :: "'ip tables \<Rightarrow> string \<Rightarrow> counter \<Rightarrow> int" where
  "observed_total t flowID i = (\<Sum>o'\<leftarrow>filter (\<lambda>o'. ob_flow_id o' = flowID) (flow_observations t). obs_counter i o')"

definition fresh_uuids :: "'ip pg \<Rightarrow> bool" where
  "fresh_uuids pg \<longleftrightarrow> inj (uuid pg) \<and> (\<forall>n. uuid pg n \<noteq> [])"

text \<open>
  The invariant of the flow tables: identifiers are handed out once, aggregate keys are
  unique, observations belong to a stored flow, and every counter of a stored flow is the sum
  over its observations.
\<close>

definition flows_wf :: "'ip pg \<Rightarrow> 'ip tables \<Rightarrow> bool" where
  "flows_wf pg t \<longleftrightarrow>
     distinct (map nf_id (network_flows t)) \<and> distinct (map group_of (network_flows t))
     \<and> nf_id ` set (network_flows t) \<subseteq> uuid pg ` {..<uuids_used t}
     \<and> ob_flow_id ` set (flow_observations t) \<subseteq> nf_id ` set (network_flows t)
     \<and> (\<forall>r\<in>set (network_flows t). \<forall>i. row_counter i r = observed_total t (nf_id r) i)"

lemma grow_counter [simp]: "row_counter i (grow_flow pg obs e r) = row_counter i r + event_counter i e"
  by (cases i) (simp_all add: grow_flow_def)

lemma new_counter [simp]: "row_counter i (new_flow pg now obs k f e) = event_counter i e"
  by (cases i) (simp_all add: new_flow_def)

lemma obs_counter_new [simp]: "obs_counter i (new_observation pg obs k f e) = event_counter i e"
  by (cases i) (simp_all add: new_observation_def)

lemma grow_keeps [simp]: "nf_id (grow_flow pg obs e r) = nf_id r" "group_of (grow_flow pg obs e r) = group_of r"
  by (simp_all add: grow_flow_def group_of_def)

lemma new_flow_keys [simp]:
  "nf_id (new_flow pg now obs k f e) = f"
  "gk_protocol k = fe_Protocol e \<Longrightarrow> gk_direction k = fe_Direction e \<Longrightarrow> gk_dst_port k = Some (fe_DstPort e) \<Longrightarrow>
   group_of (new_flow pg now obs k f e) = k"
  by (simp_all add: new_flow_def group_of_def)

lemma new_observation_id [simp]: "ob_flow_id (new_observation pg obs k f e) = f"
  by (simp add: new_observation_def)

lemma find_flow_none:
  assumes "k \<notin> group_of ` set (network_flows t)"
  shows "find_flow k t = []"
proof -
  have "filter (\<lambda>r. group_of r = k) (network_flows t) = []" using assms by (auto simp: filter_empty_conv)
  then show ?thesis by (simp add: find_flow_def first_row_def)
qed

lemma find_flow_some:
  assumes "k \<in> group_of ` set (network_flows t)"
  shows "\<exists>r\<in>set (network_flows t). group_of r = k \<and> find_flow k t = nf_id r"
proof -
  obtain r rs where r: "filter (\<lambda>r. group_of r = k) (network_flows t) = r # rs"
    using assms by (cases "filter (\<lambda>r. group_of r = k) (network_flows t)") (auto simp: filter_empty_conv)
  have "r \<in> set (filter (\<lambda>r. group_of r = k) (network_flows t))" unfolding r by simp
  moreover have "find_flow k t = nf_id r" unfolding find_flow_def r first_row_def by simp
  ultimately show ?thesis by auto
qed

lemma observed_total_snoc:
  "flow_observations t' = flow_observations t @ [new_observation pg obs k f e] \<Longrightarrow>
   observed_total t' g i = observed_total t g i + (if g = f then event_counter i e else 0)"
  by (simp add: observed_total_def)

lemma fresh_id:
  assumes "fresh_uuids pg" "flows_wf pg t"
  shows "uuid pg (uuids_used t) \<notin> nf_id ` set (network_flows t)" "\<forall>r\<in>set (network_flows t). nf_id r \<noteq> []"
proof -
  have "nf_id ` set (network_flows t) \<subseteq> uuid pg ` {..<uuids_used t}" using assms(2) by (simp add: flows_wf_def)
  moreover have "uuid pg (uuids_used t) \<notin> uuid pg ` {..<uuids_used t}"
    using assms(1) by (auto simp: fresh_uuids_def inj_def)
  ultimately show "uuid pg (uuids_used t) \<notin> nf_id ` set (network_flows t)" by blast
  show "\<forall>r\<in>set (network_flows t). nf_id r \<noteq> []"
    using \<open>nf_id ` _ \<subseteq> _\<close> assms(1) by (force simp: fresh_uuids_def)
qed

text \<open>The row that an event of group \<open>k\<close> goes to: a new one, or the only one of its group.\<close>

lemma stored_cases:
  assumes "fresh_uuids pg" "flows_wf pg t" "stored pg now obs k e t f t'"
  obtains (new) "k \<notin> group_of ` set (network_flows t)" "f = uuid pg (uuids_used t)" "uuids_used t' = uuids_used t + 1"
      "network_flows t' = network_flows t @ [new_flow pg now obs k f e]"
  | (grown) r where "r \<in> set (network_flows t)" "group_of r = k" "f = nf_id r" "uuids_used t' = uuids_used t"
      "network_flows t' = update_where (\<lambda>r'. nf_id r' = f) (grow_flow pg obs e) (network_flows t)"
proof (cases "k \<in> group_of ` set (network_flows t)")
  case True
  then obtain r where "r \<in> set (network_flows t)" "group_of r = k" "find_flow k t = nf_id r"
    using find_flow_some by blast
  moreover have "nf_id r \<noteq> []" using fresh_id(2) [OF assms(1,2)] calculation(1) by blast
  ultimately show ?thesis using grown assms(3) by (simp add: stored_def)
next
  case False
  then show ?thesis using new assms(3) by (simp add: stored_def find_flow_none)
qed

lemma same_id: "distinct (map nf_id rows) \<Longrightarrow> r \<in> set rows \<Longrightarrow> r' \<in> set rows \<Longrightarrow> nf_id r' = nf_id r \<Longrightarrow> r' = r"
  by (metis distinct_map inj_onD)

lemma map_update_where: "(\<And>r. g (f r) = g r) \<Longrightarrow> map g (update_where p f rows) = map g rows"
  by (simp add: update_where_def)

lemma stored_keeps_wf:
  assumes "fresh_uuids pg" "flows_wf pg t" "stored pg now obs k e t f t'"
    and k: "gk_protocol k = fe_Protocol e" "gk_direction k = fe_Direction e" "gk_dst_port k = Some (fe_DstPort e)"
  shows "flows_wf pg t'"
proof -
  note wf = assms(2) [unfolded flows_wf_def]
  have obs: "flow_observations t' = flow_observations t @ [new_observation pg obs k f e]"
    using assms(3) by (simp add: stored_def)
  note total = observed_total_snoc [OF obs]
  from assms(1-3) show ?thesis
  proof (cases rule: stored_cases)
    case new
    have old: "nf_id r \<noteq> f" if "r \<in> set (network_flows t)" for r
      using fresh_id(1) [OF assms(1,2)] that new(2) by (metis image_eqI)
    have "ob_flow_id ` set (flow_observations t) \<subseteq> nf_id ` set (network_flows t)" using wf by blast
    then have "ob_flow_id o' \<noteq> f" if "o' \<in> set (flow_observations t)" for o'
      using that old by (metis image_eqI image_iff subsetD)
    then have "filter (\<lambda>o'. ob_flow_id o' = f) (flow_observations t) = []" by (simp add: filter_empty_conv)
    then have "observed_total t f i = 0" for i by (simp add: observed_total_def)
    moreover have "nf_id ` set (network_flows t) \<subseteq> uuid pg ` {..<uuids_used t'}" "f \<in> uuid pg ` {..<uuids_used t'}"
      using wf new(2,3) by (auto simp: lessThan_Suc)
    ultimately show ?thesis
      using wf old new(1) k by (auto simp: flows_wf_def new(4) obs total)
  next
    case (grown r)
    have ids: "map nf_id (network_flows t') = map nf_id (network_flows t)"
      "map group_of (network_flows t') = map group_of (network_flows t)"
      unfolding grown(5) by (simp_all add: map_update_where)
    have "row_counter i r' = observed_total t' (nf_id r') i" if "r' \<in> set (network_flows t')" for r' i
      using that wf unfolding grown(5) by (auto simp: update_where_def total)
    moreover have "nf_id ` set (network_flows t') = nf_id ` set (network_flows t)" using ids(1) by (metis list.set_map)
    ultimately show ?thesis using wf ids grown by (auto simp: flows_wf_def obs)
  qed
qed

lemma distinct_single: "distinct xs \<Longrightarrow> set xs = {x} \<Longrightarrow> xs = [x]"
proof (cases xs)
  case (Cons a ys)
  assume "distinct xs" "set xs = {x}"
  with Cons have "a = x" "set ys \<subseteq> {x}" "x \<notin> set ys" by auto
  with Cons show ?thesis by (cases ys) auto
qed simp

lemma stored_totals:
  assumes "fresh_uuids pg" "flows_wf pg t" "stored pg now obs k e t f t'"
    and k: "gk_protocol k = fe_Protocol e" "gk_direction k = fe_Direction e" "gk_dst_port k = Some (fe_DstPort e)"
  shows "flow_total t' g i = flow_total t g i + (if g = k then event_counter i e else 0)"
  using assms(1-3)
proof (cases rule: stored_cases)
  case new
  then show ?thesis using k by (simp add: flow_total_def)
next
  case (grown r)
  have dist: "distinct (map nf_id (network_flows t))" using assms(2) by (simp add: flows_wf_def)
  have hit: "nf_id r' = f \<longleftrightarrow> r' = r" if "r' \<in> set (network_flows t)" for r'
    using same_id [OF dist grown(1) that] grown(3) by blast
  have "flow_total t' g i = (\<Sum>r'\<leftarrow>network_flows t'. if group_of r' = g then row_counter i r' else 0)"
    by (simp add: flow_total_def sum_list_map_filter')
  also have "\<dots> = (\<Sum>r'\<leftarrow>network_flows t. if group_of r' = g then row_counter i r' else 0)
      + (\<Sum>r'\<leftarrow>filter (\<lambda>r'. nf_id r' = f) (network_flows t). if group_of r' = g then event_counter i e else 0)"
    unfolding grown(5) by (rule sum_update_where) simp
  also have "filter (\<lambda>r'. nf_id r' = f) (network_flows t) = [r]"
  proof -
    have "distinct (filter (\<lambda>r'. nf_id r' = f) (network_flows t))" using dist by (simp add: distinct_map)
    moreover have "set (filter (\<lambda>r'. nf_id r' = f) (network_flows t)) = {r}" using hit grown(1) by auto
    ultimately show ?thesis by (rule distinct_single)
  qed
  finally show ?thesis using grown(2) by (simp add: flow_total_def sum_list_map_filter')
qed

lemma flow_Ingest_cases:
  obtains (failed) err where "flow_Ingest pg ul cls now clock event (t, c) = (Inl err, t, [])"
  | (stored_event) e r t' k where
      "flow_Ingest pg ul cls now clock event (t, c)
       = (Inr (ingested_flow clock e r), t', [CallBroadcastLatest ''flow.updated'' (ingested_flow clock e r) (500 * Millisecond)])"
      "ValidateFlowEvent ul clock event = Inr e" "stored pg now clock k e t (fst r) t'"
      "gk_protocol k = fe_Protocol e" "gk_direction k = fe_Direction e" "gk_dst_port k = Some (fe_DstPort e)"
      "inet pg (fe_SrcIP e) = Some (gk_src_ip k)" "inet pg (fe_DstIP e) = Some (gk_dst_ip k)"
      "gk_scope k = snd (snd (snd r))"
proof (cases "ValidateFlowEvent ul clock event")
  case (Inl err)
  then show ?thesis using failed by (simp add: flow_Ingest_def)
next
  case (Inr e)
  show ?thesis
  proof (cases rule: transaction_cases [of DatabaseError "ingest_tx pg cls now clock e" t c])
    case (rolled_back err)
    then show ?thesis using failed Inr by (simp add: flow_Ingest_def)
  next
    case (committed r t' c1 c2)
    obtain k where "stored pg now clock k e t (fst r) t'"
      "gk_protocol k = fe_Protocol e" "gk_direction k = fe_Direction e" "gk_dst_port k = Some (fe_DstPort e)"
      "inet pg (fe_SrcIP e) = Some (gk_src_ip k)" "inet pg (fe_DstIP e) = Some (gk_dst_ip k)"
      "gk_scope k = snd (snd (snd r))"
      using ingest_tx_Inr [OF committed(2)] by blast
    moreover have "flow_Ingest pg ul cls now clock event (t, c)
        = (Inr (ingested_flow clock e r), t', [CallBroadcastLatest ''flow.updated'' (ingested_flow clock e r) (500 * Millisecond)])"
      using Inr committed(1) by (simp add: flow_Ingest_def Let_def)
    ultimately show ?thesis using stored_event Inr by blast
  qed
qed

text \<open>
  C14. Ingestion keeps the flow tables consistent. Whatever event is posted and at whatever
  statement the database fails, the flow tables stay consistent: no identifier is used twice, no two
  stored flows have the same endpoints, protocol, port, scope and direction, every observation
  belongs to a stored flow, and every counter of a stored flow is the sum over its
  observations. A rejected or failed ingestion changes no table and broadcasts nothing.
\<close>

theorem ingest_keeps_invariant:
  assumes "fresh_uuids pg" "flows_wf pg t"
    and "flow_Ingest pg ul cls now clock event (t, c) = (res, t', calls)"
  shows "flows_wf pg t' \<and> (\<forall>err. res = Inl err \<longrightarrow> t' = t \<and> calls = [])"
  using assms(3)
proof (cases rule: flow_Ingest_cases [of pg ul cls now clock event t c])
  case (failed err)
  then show ?thesis using assms by simp
next
  case (stored_event e r t'' k)
  then show ?thesis using stored_keeps_wf [OF assms(1,2) stored_event(3)] assms(3) by simp
qed

text \<open>
  C13. The flow tables implement counting by key. Seen as a table of totals per aggregate key and
  counter, a successful ingestion adds the counters of the validated event to the totals of one
  key, the key of that event (its addresses as stored, protocol, direction, destination port
  and the scope it was classified with), leaves the totals of all other keys alone, and returns
  a flow with the event's own counters.
\<close>

theorem ingest_refines_totals:
  assumes "fresh_uuids pg" "flows_wf pg t"
    and "flow_Ingest pg ul cls now clock event (t, c) = (Inr f, t', calls)"
  shows "\<exists>e k. ValidateFlowEvent ul clock event = Inr e
    \<and> inet pg (fe_SrcIP e) = Some (gk_src_ip k) \<and> inet pg (fe_DstIP e) = Some (gk_dst_ip k)
    \<and> gk_protocol k = fe_Protocol e \<and> gk_direction k = fe_Direction e \<and> gk_dst_port k = Some (fe_DstPort e)
    \<and> gk_scope k = fl_Scope f \<and> fl_BytesSent f = fe_BytesSent e \<and> fl_BytesReceived f = fe_BytesReceived e
    \<and> (\<forall>g i. flow_total t' g i = flow_total t g i + (if g = k then event_counter i e else 0))"
  using assms(3)
proof (cases rule: flow_Ingest_cases [of pg ul cls now clock event t c])
  case (failed err)
  then show ?thesis using assms(3) by simp
next
  case (stored_event e r t'' k)
  have "fl_Scope f = snd (snd (snd r))" "fl_BytesSent f = fe_BytesSent e" "fl_BytesReceived f = fe_BytesReceived e" "t'' = t'"
    using stored_event(1) assms(3) by (auto simp: ingested_flow_def Let_def split: prod.splits)
  then show ?thesis
    using stored_event stored_totals [OF assms(1,2) stored_event(3-6)] by (intro exI [of _ e] exI [of _ k]) simp
qed

section \<open>When an ingestion succeeds\<close>

text \<open>What the database must accept: both addresses, and the grown counters of every stored flow.\<close>

definition has_room :: "flow_event \<Rightarrow> 'ip tables \<Rightarrow> bool" where
  "has_room e t \<longleftrightarrow> (\<forall>r\<in>set (network_flows t). \<forall>i. in_i64 (row_counter i r + event_counter i e))"

lemma record_host_done:
  assumes "inet pg (fe_DstIP e) = Some ip"
  shows "\<exists>t'. record_host pg scope e (t, None) = Inr ((), t', None) \<and> network_flows t' = network_flows t"
  using assms by (simp add: record_host_def exec_def tx_return_def)

lemma store_flow_done:
  assumes "has_room e t"
  shows "\<exists>f t'. store_flow pg now obs k e found (t, None) = Inr (f, t', None)"
proof -
  have fits: "row_fits (grow_flow pg obs e r)" if "r \<in> set (network_flows t)" for r
    using assms that unfolding row_fits_def has_room_def list_all_iff grow_counter by blast
  have "list_all row_fits (filter (\<lambda>r. nf_id r = found) (update_where (\<lambda>r. nf_id r = found) (grow_flow pg obs e) (network_flows t)))"
    using fits unfolding list_all_iff update_where_def by auto
  then show ?thesis by (simp add: store_flow_def Let_def)
qed

lemma ingest_flow_done:
  assumes "inet pg (fe_SrcIP e) = Some sip" "inet pg (fe_DstIP e) = Some dip" "has_room e t"
  shows "\<exists>f t'. ingest_flow pg now obs e src dst scope (t, None) = Inr (f, t', None)"
proof -
  obtain t1 where t1: "record_host pg scope e (t, None) = Inr ((), t1, None)" "network_flows t1 = network_flows t"
    using record_host_done [OF assms(2)] by blast
  let ?k = "event_group src dst sip dip scope e"
  have "lookup_flow pg src dst scope e (t1, None) = Inr ((?k, find_flow ?k t1), t1, None)"
    using assms by (simp add: lookup_flow_def Let_def)
  moreover obtain f t2 where "store_flow pg now obs ?k e (find_flow ?k t1) (t1, None) = Inr (f, t2, None)"
    using store_flow_done [of e t1] assms(3) t1(2) by (fastforce simp: has_room_def)
  ultimately show ?thesis
    using t1(1) by (simp add: ingest_flow_def tx_then_def tx_bind_def query_def insert_observation_def exec_def mark_online_def tx_return_def)
qed

lemma ingest_tx_done:
  assumes "source_of_agent (fe_AgentID e) t = Some v"
    and "inet pg (fe_SrcIP e) = Some sip" "inet pg (fe_DstIP e) = Some dip" "has_room e t"
  shows "\<exists>r t'. ingest_tx pg cls now obs e (t, None) = Inr (r, t', None)"
proof -
  have "query DatabaseError (source_of_agent (fe_AgentID e)) (t, None) = Inr (Some v, t, None)"
    using assms(1) by (simp add: query_def)
  moreover obtain dst where "resolveVMByIP pg (fe_DstIP e) (t, None) = Inr (dst, t, None)"
    using assms(3) by (simp add: resolveVMByIP_def)
  moreover obtain f t' where "ingest_flow pg now obs e (rv_ID (resolved v)) (map_option rv_ID dst)
      (Scope cls (rv_TenantID (resolved v)) (case dst of Some d \<Rightarrow> rv_TenantID d | None \<Rightarrow> []) (dst \<noteq> None) (fe_DstIP e)) (t, None) = Inr (f, t', None)"
    using ingest_flow_done [OF assms(2-4)] by blast
  ultimately show ?thesis by (simp add: ingest_tx_def tx_bind_def Let_def tx_return_def)
qed

lemma flow_Ingest_done:
  assumes "ValidateFlowEvent ul clock event = Inr e" "source_of_agent (fe_AgentID e) t = Some v"
    and "inet pg (fe_SrcIP e) = Some sip" "inet pg (fe_DstIP e) = Some dip" "has_room e t"
  shows "\<exists>f t' calls. flow_Ingest pg ul cls now clock event (t, None) = (Inr f, t', calls)"
proof -
  obtain r t' where "ingest_tx pg cls now clock e (t, None) = Inr (r, t', None)"
    using ingest_tx_done [OF assms(2-5)] by blast
  then have "transaction DatabaseError (ingest_tx pg cls now clock e) (t, None) = (Inr r, t')"
    by (simp add: transaction_def tx_bind_def query_def tx_return_def)
  then show ?thesis using assms(1) by (simp add: flow_Ingest_def Let_def)
qed

section \<open>A concrete deployment\<close>

definition demo_pg :: "string pg" where
  "demo_pg = \<lparr>inet = Some, host = (\<lambda>ip. ip), uuid = (\<lambda>n. replicate (Suc n) CHR ''u''), stamp = (\<lambda>t. t), number_arg = (\<lambda>x. x)\<rparr>"

definition demo_agent :: agent_row where
  "demo_agent = \<lparr>ag_id = ''a'', ag_vm_id = Some ''vm-1'', ag_hostname = ''h'', ag_machine_id = None, ag_os = None,
     ag_kernel = None, ag_agent_version = None, ag_environment = None, ag_project_id = None, ag_status = ''online'',
     ag_first_seen = 1, ag_last_seen = 2\<rparr>"

definition demo_vm :: "string vm_row" where
  "demo_vm = \<lparr>vm_id = ''vm-1'', vm_name = ''h'', vm_tenant_id = Some ''t'', vm_project_id = None,
     vm_private_ip = Some ''10.0.0.1'', vm_public_ip = None, vm_mac_address = None, vm_host_id = None, vm_role = None,
     vm_host_type = None, vm_environment = None, vm_owner = None, vm_region = None, vm_zone = None,
     vm_network_id = None, vm_subnet_id = None, vm_discovered_by = ''agent'', vm_agent_id = Some ''a'',
     vm_machine_id = None, vm_status = ''online'', vm_first_seen = 1, vm_last_seen = 2, vm_created_at = 1\<rparr>"

definition demo_tables :: "string tables" where
  "demo_tables = \<lparr>agents = [demo_agent], vms = [demo_vm], vm_interfaces = [], network_flows = [], flow_observations = [],
     external_hosts = [], unknown_internal_hosts = [], connection_probes = [], uuids_used = 0\<rparr>"

definition demo_classifier :: classifier where
  "demo_classifier = \<lparr>cidr_prefixes = [], unregisteredInternalScope = ScopeExternalPrivate\<rparr>"

lemma demo_pg_fresh: "fresh_uuids demo_pg"
  by (auto simp: fresh_uuids_def demo_pg_def inj_def)

lemma demo_tables_wf: "flows_wf demo_pg demo_tables"
  by (simp add: flows_wf_def demo_tables_def)

lemma demo_ingest:
  "case flow_Ingest demo_pg id demo_classifier 5 9 demo_payload (demo_tables, None) of (Inr f, _) \<Rightarrow> True | _ \<Rightarrow> False"
  by code_simp

lemma demo_ingest_ok:
  obtains f t calls where "flow_Ingest demo_pg id demo_classifier 5 9 demo_payload (demo_tables, None) = (Inr f, t, calls)"
  using demo_ingest by (auto split: sum.splits)

theorem ingest_keeps_invariant_witness:
  "flows_wf demo_pg (fst (snd (flow_Ingest demo_pg id demo_classifier 5 9 demo_payload (demo_tables, None))))"
proof (rule demo_ingest_ok)
  fix f t calls assume ok: "flow_Ingest demo_pg id demo_classifier 5 9 demo_payload (demo_tables, None) = (Inr f, t, calls)"
  from ingest_keeps_invariant [OF demo_pg_fresh demo_tables_wf ok] show ?thesis by (simp add: ok)
qed

theorem ingest_refines_totals_witness:
  "\<exists>k e. ValidateFlowEvent id 9 demo_payload = Inr e
    \<and> flow_total (fst (snd (flow_Ingest demo_pg id demo_classifier 5 9 demo_payload (demo_tables, None)))) k Connections
      = flow_total demo_tables k Connections + fe_ConnectionCount e"
proof (rule demo_ingest_ok)
  fix f t calls assume ok: "flow_Ingest demo_pg id demo_classifier 5 9 demo_payload (demo_tables, None) = (Inr f, t, calls)"
  obtain e k where "ValidateFlowEvent id 9 demo_payload = Inr e"
    "\<forall>g i. flow_total t g i = flow_total demo_tables g i + (if g = k then event_counter i e else 0)"
    using ingest_refines_totals [OF demo_pg_fresh demo_tables_wf ok] by blast
  then show ?thesis by (intro exI [of _ k] exI [of _ e]) (simp add: ok)
qed

end
