(* ===== verification/Agents.thy ===== *)
theory Agents
  imports Ingest
begin

text \<open>
  The backend's agent service (\<open>src/backend/internal/service/agent_service.go\<close>) and the
  inventory's assignments to stored VMs: registration with identity resolution, heartbeats,
  and the status sweep (the removal of expired machines is in \<open>Expiry\<close>). The properties: a
  machine keeps its VM over re-registrations, and the sweep stores exactly the status that
  follows from the time since the last sign of life.
\<close>

section \<open>Registration\<close>

record agent_registration =
  ar_AgentID :: string
  ar_Hostname :: string
  ar_MachineID :: string
  ar_TenantID :: string
  ar_ProjectID :: string
  ar_PrivateIPs :: "string list"
  ar_PublicIP :: "string option"
  ar_MACAddresses :: "string list"
  ar_Interfaces :: "interface list"
  ar_OS :: string
  ar_Kernel :: string
  ar_AgentVersion :: string
  ar_Environment :: string

definition normalizeInterfaces :: "agent_registration \<Rightarrow> interface list" where
  "normalizeInterfaces reg =
     (if ar_Interfaces reg \<noteq> [] then ar_Interfaces reg
      else map (\<lambda>(i, ip). \<lparr>if_Name = ''interface-'' @ show_nat i, if_IPAddress = ip,
                           if_MACAddress = (if i < length (ar_MACAddresses reg) then ar_MACAddresses reg ! i else [])\<rparr>)
             (enumerate 0 (ar_PrivateIPs reg)))"

definition interfaceIPs :: "interface list \<Rightarrow> string list" where
  "interfaceIPs ifs = map if_IPAddress ifs"

definition interfaceMACs :: "interface list \<Rightarrow> string list" where
  "interfaceMACs ifs = map if_MACAddress ifs"

fun first_valid :: "string list \<Rightarrow> string" where
  "first_valid [] = []"
| "first_valid (ip # ips) =
     (case ParseAddr (TrimSpace ip) of
        Some addr \<Rightarrow> if \<not> Addr_IsLoopback addr then Addr_String addr else first_valid ips
      | None \<Rightarrow> first_valid ips)"

definition firstValidIP :: "string list \<Rightarrow> interface list \<Rightarrow> string" where
  "firstValidIP ips ifs = first_valid (ips @ interfaceIPs ifs)"

text \<open>\<open>fmt.Sprintf("vm-%x", sum[:8])\<close> of the SHA-256 digest, which is the parameter \<open>sha\<close>.\<close>

definition stableVMID :: "(string \<Rightarrow> u8 list) \<Rightarrow> agent_registration \<Rightarrow> string \<Rightarrow> string \<Rightarrow> string" where
  "stableVMID sha reg ip mac =
     ''vm-'' @ concat (map hex_byte (take 8 (sha
       (svc_firstNonEmpty [ar_MachineID reg, ar_AgentID reg, mac, ar_Hostname reg @ ''|'' @ ip]))))"

text \<open>
  The queries of \<open>resolveIdentity\<close>, in order; the first one that returns a row decides. Each is a
  statement of its own; a cast to \<open>inet\<close> can fail.
\<close>

definition vm_where :: "('ip vm_row \<Rightarrow> bool) \<Rightarrow> 'ip tables \<Rightarrow> string option" where
  "vm_where p t = map_option vm_id (first_row (order_desc vm_last_seen (filter p (vms t))))"

definition vm_of_agent :: "string \<Rightarrow> 'ip tables \<Rightarrow> string option" where
  "vm_of_agent agent t =
     first_row [v. a \<leftarrow> agents t, ag_id a = agent, v \<leftarrow> (case ag_vm_id a of None \<Rightarrow> [] | Some v \<Rightarrow> [v])]"

definition identity_queries ::
    "'ip pg \<Rightarrow> agent_registration \<Rightarrow> string \<Rightarrow> string \<Rightarrow> ('ip tables \<Rightarrow> string option option) list" where
  "identity_queries pg reg ip mac =
     (if ar_MachineID reg \<noteq> [] then [\<lambda>t. Some (vm_where (\<lambda>v. vm_machine_id v = Some (ar_MachineID reg)) t)] else [])
     @ [\<lambda>t. Some (vm_of_agent (ar_AgentID reg) t)]
     @ (if mac \<noteq> []
        then [\<lambda>t. Some (map_option vi_vm_id (first_row (order_desc vi_updated_at (filter (\<lambda>i. vi_mac_address i = Some mac) (vm_interfaces t)))))]
        else [])
     @ (if ip \<noteq> []
        then [\<lambda>t. map_option (\<lambda>a. vm_where (\<lambda>v. vm_private_ip v = Some a) t) (inet pg ip),
              \<lambda>t. map_option (\<lambda>a. vm_where (\<lambda>v. vm_name v = ar_Hostname reg \<and> vm_private_ip v = Some a) t) (inet pg ip)]
        else [])"

fun run_queries :: "('ip tables \<Rightarrow> string option option) list \<Rightarrow> ('ip tables, service_error, string) tx" where
  "run_queries [] = tx_return []"
| "run_queries (q # qs) =
     tx_bind (stmt DatabaseError (\<lambda>t. map_option (\<lambda>r. (r, t)) (q t))) (\<lambda>r.
       case r of Some v \<Rightarrow> tx_return v | None \<Rightarrow> run_queries qs)"

definition resolveIdentity ::
    "'ip pg \<Rightarrow> agent_registration \<Rightarrow> string \<Rightarrow> string \<Rightarrow> ('ip tables, service_error, string) tx" where
  "resolveIdentity pg reg ip mac = run_queries (identity_queries pg reg ip mac)"

text \<open>What the inventory entry for the primary address contributes.\<close>

record vm_facts =
  vf_name :: string
  vf_tenant :: string
  vf_project :: string
  vf_environment :: string
  vf_public_ip :: string
  vf_host_id :: string
  vf_role :: string
  vf_host_type :: string
  vf_owner :: string
  vf_region :: string
  vf_zone :: string
  vf_network :: string
  vf_subnet :: string

definition vm_facts_of :: "vm_inventory option \<Rightarrow> agent_registration \<Rightarrow> string \<Rightarrow> string \<Rightarrow> vm_facts" where
  "vm_facts_of inventory reg primaryIP publicIP =
     (case EntryForIP inventory primaryIP of
        None \<Rightarrow> \<lparr>vf_name = ar_Hostname reg, vf_tenant = ar_TenantID reg, vf_project = ar_ProjectID reg,
                 vf_environment = ar_Environment reg, vf_public_ip = publicIP, vf_host_id = [], vf_role = [],
                 vf_host_type = [], vf_owner = [], vf_region = [], vf_zone = [], vf_network = [], vf_subnet = []\<rparr>
      | Some e \<Rightarrow> \<lparr>vf_name = svc_firstNonEmpty [Alias e, ar_Hostname reg],
                   vf_tenant = svc_firstNonEmpty [ie_TenantID e, ar_TenantID reg],
                   vf_project = svc_firstNonEmpty [ie_ProjectID e, ar_ProjectID reg],
                   vf_environment = svc_firstNonEmpty [ie_Environment e, ar_Environment reg],
                   vf_public_ip = svc_firstNonEmpty [ie_PublicIP e, publicIP], vf_host_id = ProviderID e,
                   vf_role = ie_Role e, vf_host_type = ie_Type e, vf_owner = ie_Owner e, vf_region = ie_Region e,
                   vf_zone = ie_Zone e, vf_network = ie_NetworkID e, vf_subnet = ie_SubnetID e\<rparr>)"

text \<open>A nullable \<open>inet\<close> argument: NULL for an empty string, otherwise the cast.\<close>

definition inet_arg :: "'ip pg \<Rightarrow> string \<Rightarrow> 'ip option option" where
  "inet_arg pg s = (if s = [] then Some None else map_option Some (inet pg s))"

definition new_vm :: "gotime \<Rightarrow> string \<Rightarrow> vm_facts \<Rightarrow> 'ip option \<Rightarrow> 'ip option \<Rightarrow> string \<Rightarrow> agent_registration \<Rightarrow> 'ip vm_row" where
  "new_vm now vmID f private public mac reg =
     \<lparr>vm_id = vmID, vm_name = vf_name f, vm_tenant_id = nullIfEmpty (vf_tenant f), vm_project_id = nullIfEmpty (vf_project f),
      vm_private_ip = private, vm_public_ip = public, vm_mac_address = nullIfEmpty mac, vm_host_id = nullIfEmpty (vf_host_id f),
      vm_role = nullIfEmpty (vf_role f), vm_host_type = nullIfEmpty (vf_host_type f),
      vm_environment = nullIfEmpty (vf_environment f), vm_owner = nullIfEmpty (vf_owner f), vm_region = nullIfEmpty (vf_region f),
      vm_zone = nullIfEmpty (vf_zone f), vm_network_id = nullIfEmpty (vf_network f), vm_subnet_id = nullIfEmpty (vf_subnet f),
      vm_discovered_by = ''agent'', vm_agent_id = Some (ar_AgentID reg), vm_machine_id = nullIfEmpty (ar_MachineID reg),
      vm_status = ''online'', vm_first_seen = now, vm_last_seen = now, vm_created_at = now\<rparr>"

definition merge_vm :: "gotime \<Rightarrow> 'ip vm_row \<Rightarrow> 'ip vm_row \<Rightarrow> 'ip vm_row" where
  "merge_vm now x v =
     v\<lparr>vm_name := vm_name x, vm_tenant_id := coalesce (vm_tenant_id x) (vm_tenant_id v),
       vm_project_id := coalesce (vm_project_id x) (vm_project_id v), vm_private_ip := coalesce (vm_private_ip x) (vm_private_ip v),
       vm_public_ip := coalesce (vm_public_ip x) (vm_public_ip v), vm_mac_address := coalesce (vm_mac_address x) (vm_mac_address v),
       vm_host_id := coalesce (vm_host_id x) (vm_host_id v), vm_role := coalesce (vm_role x) (vm_role v),
       vm_host_type := coalesce (vm_host_type x) (vm_host_type v), vm_environment := coalesce (vm_environment x) (vm_environment v),
       vm_owner := coalesce (vm_owner x) (vm_owner v), vm_region := coalesce (vm_region x) (vm_region v),
       vm_zone := coalesce (vm_zone x) (vm_zone v), vm_network_id := coalesce (vm_network_id x) (vm_network_id v),
       vm_subnet_id := coalesce (vm_subnet_id x) (vm_subnet_id v), vm_agent_id := vm_agent_id x,
       vm_machine_id := coalesce (vm_machine_id x) (vm_machine_id v), vm_status := ''online'', vm_last_seen := now\<rparr>"

definition upsert_vm ::
    "'ip pg \<Rightarrow> gotime \<Rightarrow> string \<Rightarrow> vm_facts \<Rightarrow> string \<Rightarrow> string \<Rightarrow> agent_registration \<Rightarrow> ('ip tables, service_error, unit) tx" where
  "upsert_vm pg now vmID f primaryIP mac reg =
     exec DatabaseError (\<lambda>t.
       case (inet_arg pg primaryIP, inet_arg pg (vf_public_ip f)) of
         (Some private, Some public) \<Rightarrow>
           (let x = new_vm now vmID f private public mac reg
            in Some (t\<lparr>vms := upsert (\<lambda>v. vm_id v = vmID) (merge_vm now x) x (vms t)\<rparr>))
       | _ \<Rightarrow> None)"

definition new_agent :: "gotime \<Rightarrow> string \<Rightarrow> vm_facts \<Rightarrow> agent_registration \<Rightarrow> agent_row" where
  "new_agent now vmID f reg =
     \<lparr>ag_id = ar_AgentID reg, ag_vm_id = Some vmID, ag_hostname = ar_Hostname reg, ag_machine_id = nullIfEmpty (ar_MachineID reg),
      ag_os = nullIfEmpty (ar_OS reg), ag_kernel = nullIfEmpty (ar_Kernel reg), ag_agent_version = nullIfEmpty (ar_AgentVersion reg),
      ag_environment = nullIfEmpty (vf_environment f), ag_project_id = nullIfEmpty (vf_project f), ag_status = ''online'',
      ag_first_seen = now, ag_last_seen = now\<rparr>"

definition merge_agent :: "gotime \<Rightarrow> agent_row \<Rightarrow> agent_row \<Rightarrow> agent_row" where
  "merge_agent now x a =
     a\<lparr>ag_vm_id := ag_vm_id x, ag_hostname := ag_hostname x, ag_machine_id := coalesce (ag_machine_id x) (ag_machine_id a),
       ag_os := ag_os x, ag_kernel := ag_kernel x, ag_agent_version := ag_agent_version x, ag_environment := ag_environment x,
       ag_project_id := coalesce (ag_project_id x) (ag_project_id a), ag_status := ''online'', ag_last_seen := now\<rparr>"

definition upsert_agent :: "gotime \<Rightarrow> string \<Rightarrow> vm_facts \<Rightarrow> agent_registration \<Rightarrow> ('ip tables, service_error, unit) tx" where
  "upsert_agent now vmID f reg =
     exec DatabaseError (\<lambda>t.
       let x = new_agent now vmID f reg
       in Some (t\<lparr>agents := upsert (\<lambda>a. ag_id a = ar_AgentID reg) (merge_agent now x) x (agents t)\<rparr>))"

definition resolveUnknownHost ::
    "'ip pg \<Rightarrow> gotime \<Rightarrow> string \<Rightarrow> string \<Rightarrow> string \<Rightarrow> ('ip tables, service_error, unit) tx" where
  "resolveUnknownHost pg now vmID tenantID ip =
     tx_then
       (exec DatabaseError (\<lambda>t. map_option (\<lambda>a. t\<lparr>unknown_internal_hosts :=
           update_where (\<lambda>h. hr_ip h = a) (\<lambda>h. h\<lparr>hr_resolved_vm_id := Some vmID, hr_last_seen := now\<rparr>) (unknown_internal_hosts t)\<rparr>) (inet pg ip)))
       (exec DatabaseError (\<lambda>t. map_option (\<lambda>a. t\<lparr>network_flows :=
           map (\<lambda>r. case find (\<lambda>v. nf_src_vm_id r = Some (vm_id v)) (vms t) of
                 Some src \<Rightarrow>
                   if nf_dst_vm_id r = None \<and> nf_dst_ip r = a
                   then r\<lparr>nf_dst_vm_id := Some vmID,
                          nf_scope := (if text_or_empty (vm_tenant_id src) = tenantID then ''internal_same_tenant'' else ''internal_cross_tenant'')\<rparr>
                   else r
               | None \<Rightarrow> r) (network_flows t)\<rparr>) (inet pg ip)))"

definition register_interface ::
    "'ip pg \<Rightarrow> gotime \<Rightarrow> string \<Rightarrow> string \<Rightarrow> interface \<Rightarrow> ('ip tables, service_error, unit) tx" where
  "register_interface pg now vmID tenantID i =
     (if if_Name i = [] then tx_return ()
      else tx_then
        (exec DatabaseError (\<lambda>t. map_option (\<lambda>ip.
           let x = \<lparr>vi_vm_id = vmID, vi_name = if_Name i, vi_ip_address = ip, vi_mac_address = nullIfEmpty (if_MACAddress i), vi_updated_at = now\<rparr>
           in t\<lparr>vm_interfaces := upsert (\<lambda>y. y\<lparr>vi_updated_at := now\<rparr> = x) (\<lambda>y. y\<lparr>vi_updated_at := now\<rparr>) x (vm_interfaces t)\<rparr>)
           (inet_arg pg (if_IPAddress i))))
        (if if_IPAddress i \<noteq> [] then resolveUnknownHost pg now vmID tenantID (if_IPAddress i) else tx_return ()))"

fun tx_each :: "('a \<Rightarrow> ('t, 'e, unit) tx) \<Rightarrow> 'a list \<Rightarrow> ('t, 'e, unit) tx" where
  "tx_each f [] = tx_return ()"
| "tx_each f (x # xs) = tx_then (f x) (tx_each f xs)"

definition register_tx ::
    "'ip pg \<Rightarrow> (string \<Rightarrow> u8 list) \<Rightarrow> vm_inventory option \<Rightarrow> gotime \<Rightarrow> agent_registration \<Rightarrow> string \<Rightarrow> string \<Rightarrow> string
     \<Rightarrow> ('ip tables, service_error, string) tx" where
  "register_tx pg sha inventory now reg primaryIP primaryMAC publicIP =
     tx_bind (resolveIdentity pg reg primaryIP primaryMAC) (\<lambda>found.
       let vmID = (if found = [] then stableVMID sha reg primaryIP primaryMAC else found);
           f = vm_facts_of inventory reg primaryIP publicIP
       in tx_then (upsert_vm pg now vmID f primaryIP primaryMAC reg)
            (tx_then (upsert_agent now vmID f reg)
              (tx_then (tx_each (register_interface pg now vmID (vf_tenant f)) (ar_Interfaces reg))
                (tx_then (if primaryIP \<noteq> [] then resolveUnknownHost pg now vmID (vf_tenant f) primaryIP else tx_return ())
                  (tx_return vmID)))))"

definition agent_Register ::
    "'ip pg \<Rightarrow> (string \<Rightarrow> u8 list) \<Rightarrow> vm_inventory option \<Rightarrow> gotime \<Rightarrow> agent_registration \<Rightarrow> 'ip tables \<times> nat option
     \<Rightarrow> (service_error + registration_result) \<times> 'ip tables \<times> registration_result hub_call list" where
  "agent_Register pg sha inventory now registration s =
     (let r1 = registration\<lparr>ar_AgentID := TrimSpace (ar_AgentID registration), ar_Hostname := TrimSpace (ar_Hostname registration)\<rparr> in
      if ar_AgentID r1 = [] \<or> ar_Hostname r1 = [] then (Inl (MissingField ''agent_id and hostname''), fst s, [])
      else let r2 = r1\<lparr>ar_Interfaces := normalizeInterfaces r1\<rparr>;
               primaryIP = firstValidIP (ar_PrivateIPs r2) (ar_Interfaces r2);
               primaryMAC = svc_firstNonEmpty (ar_MACAddresses r2 @ interfaceMACs (ar_Interfaces r2));
               publicIP = (case ar_PublicIP r2 of None \<Rightarrow> [] | Some p \<Rightarrow> TrimSpace p)
           in if publicIP \<noteq> [] \<and> ParseAddr publicIP = None then (Inl (BadPublicIP publicIP), fst s, [])
              else case transaction DatabaseError (register_tx pg sha inventory now r2 primaryIP primaryMAC publicIP) s of
                (Inl err, t) \<Rightarrow> (Inl err, t, [])
              | (Inr vmID, t) \<Rightarrow>
                  let result = \<lparr>rr_AgentID = ar_AgentID r2, rr_VMID = vmID, rr_Status = ''online''\<rparr>
                  in (Inr result, t, [CallBroadcast ''agent.registered'' result]))"

section \<open>Heartbeats, sweeps and removal\<close>

record agent_heartbeat =
  ah_AgentID :: string
  ah_Status :: string
  ah_Timestamp :: gotime

text \<open>
  The two statements of \<open>Heartbeat\<close> run outside a transaction: a failure of the second one keeps
  the effect of the first.
\<close>

definition agent_Heartbeat ::
    "'ip pg \<Rightarrow> gotime \<Rightarrow> agent_heartbeat \<Rightarrow> 'ip tables \<times> nat option
     \<Rightarrow> (service_error + unit) \<times> 'ip tables \<times> agent_heartbeat hub_call list" where
  "agent_Heartbeat pg clock hb s =
     (if ah_AgentID hb = [] then (Inl (MissingField ''agent_id''), fst s, [])
      else let seenAt = stamp pg clock; mine = (\<lambda>a. ag_id a = ah_AgentID hb) in
        case stmt DatabaseError (\<lambda>t. Some (length (filter mine (agents t)),
               t\<lparr>agents := update_where mine (\<lambda>a. a\<lparr>ag_status := ''online'', ag_last_seen := seenAt\<rparr>) (agents t)\<rparr>)) s of
          Inl e \<Rightarrow> (Inl e, fst s, [])
        | Inr (affected, t1, c1) \<Rightarrow>
            if affected = 0 then (Inl (NotRegistered (ah_AgentID hb)), t1, [])
            else case exec DatabaseError (\<lambda>t. Some (t\<lparr>vms := update_where (\<lambda>v. vm_agent_id v = Some (ah_AgentID hb))
                     (\<lambda>v. v\<lparr>vm_status := ''online'', vm_last_seen := seenAt\<rparr>) (vms t)\<rparr>)) (t1, c1) of
                Inl e \<Rightarrow> (Inl e, t1, [])
              | Inr (_, t2, c2) \<Rightarrow> (Inr (), t2, [CallBroadcast ''agent.heartbeat'' hb]))"

record agent_view =
  av_ID :: string
  av_VMID :: string
  av_Hostname :: string
  av_MachineID :: string
  av_OS :: string
  av_Kernel :: string
  av_AgentVersion :: string
  av_Environment :: string
  av_Status :: string
  av_FirstSeen :: gotime
  av_LastSeen :: gotime

definition agent_List :: "('ip tables, service_error, agent_view list) tx" where
  "agent_List =
     query DatabaseError (\<lambda>t. map (\<lambda>a.
       \<lparr>av_ID = ag_id a, av_VMID = text_or_empty (ag_vm_id a), av_Hostname = ag_hostname a,
        av_MachineID = text_or_empty (ag_machine_id a), av_OS = text_or_empty (ag_os a), av_Kernel = text_or_empty (ag_kernel a),
        av_AgentVersion = text_or_empty (ag_agent_version a), av_Environment = text_or_empty (ag_environment a),
        av_Status = ag_status a, av_FirstSeen = ag_first_seen a, av_LastSeen = ag_last_seen a\<rparr>)
       (order_desc ag_last_seen (agents t)))"

definition agentOnlineWindow :: duration where "agentOnlineWindow = Minute"
definition agentStaleWindow :: duration where "agentStaleWindow = 5 * Minute"

definition agentStatusForLastSeen :: "gotime \<Rightarrow> gotime \<Rightarrow> string" where
  "agentStatusForLastSeen now lastSeen =
     (let age = time_Sub now lastSeen in
      if age \<le> agentOnlineWindow then ''online'' else if age \<le> agentStaleWindow then ''stale'' else ''offline'')"

text \<open>The \<open>CASE\<close> of the two sweep statements.\<close>

definition sql_status :: "gotime \<Rightarrow> gotime \<Rightarrow> string" where
  "sql_status now last_seen =
     (if last_seen \<ge> now - interval_of agentOnlineWindow then ''online''
      else if last_seen \<ge> now - interval_of agentStaleWindow then ''stale''
      else ''offline'')"

definition sweep_agents :: "gotime \<Rightarrow> ('ip tables, service_error, nat) tx" where
  "sweep_agents now =
     stmt DatabaseError (\<lambda>t.
       let due = (\<lambda>a. ag_status a \<noteq> sql_status now (ag_last_seen a)) in
       Some (length (filter due (agents t)),
             t\<lparr>agents := update_where due (\<lambda>a. a\<lparr>ag_status := sql_status now (ag_last_seen a)\<rparr>) (agents t)\<rparr>))"

definition sweep_vms :: "gotime \<Rightarrow> ('ip tables, service_error, nat) tx" where
  "sweep_vms now =
     stmt DatabaseError (\<lambda>t.
       let due = (\<lambda>v. vm_status v \<noteq> sql_status now (vm_last_seen v)) in
       Some (length (filter due (vms t)),
             t\<lparr>vms := update_where due (\<lambda>v. v\<lparr>vm_status := sql_status now (vm_last_seen v)\<rparr>) (vms t)\<rparr>))"

definition agent_UpdateStatuses ::
    "gotime \<Rightarrow> 'ip tables \<times> nat option \<Rightarrow> (service_error + unit) \<times> 'ip tables \<times> nat hub_call list" where
  "agent_UpdateStatuses now s =
     (case transaction DatabaseError (tx_bind (sweep_agents now) (\<lambda>n. tx_bind (sweep_vms now) (\<lambda>m. tx_return (n + m)))) s of
        (Inl e, t) \<Rightarrow> (Inl e, t, [])
      | (Inr updated, t) \<Rightarrow> (Inr (), t, if updated > 0 then [CallBroadcast ''status.changed'' updated] else []))"

section \<open>Inventory assignments\<close>

definition assign_entry :: "'ip pg \<Rightarrow> inventory_entry \<Rightarrow> 'ip tables \<Rightarrow> 'ip tables option" where
  "assign_entry pg e t =
     (case (inet_arg pg (ie_PublicIP e), inet pg (Host e)) of
        (Some public, Some h) \<Rightarrow>
          Some (t\<lparr>vms := update_where (\<lambda>v. vm_private_ip v = Some h) (\<lambda>v.
            v\<lparr>vm_name := Alias e, vm_tenant_id := coalesce (nullIfEmpty (ie_TenantID e)) (vm_tenant_id v),
              vm_project_id := coalesce (nullIfEmpty (ie_ProjectID e)) (vm_project_id v),
              vm_region := coalesce (nullIfEmpty (ie_Region e)) (vm_region v), vm_zone := coalesce (nullIfEmpty (ie_Zone e)) (vm_zone v),
              vm_network_id := coalesce (nullIfEmpty (ie_NetworkID e)) (vm_network_id v),
              vm_subnet_id := coalesce (nullIfEmpty (ie_SubnetID e)) (vm_subnet_id v),
              vm_public_ip := coalesce public (vm_public_ip v), vm_host_id := coalesce (nullIfEmpty (ProviderID e)) (vm_host_id v),
              vm_role := coalesce (nullIfEmpty (ie_Role e)) (vm_role v), vm_host_type := coalesce (nullIfEmpty (ie_Type e)) (vm_host_type v),
              vm_environment := coalesce (nullIfEmpty (ie_Environment e)) (vm_environment v),
              vm_owner := coalesce (nullIfEmpty (ie_Owner e)) (vm_owner v)\<rparr>) (vms t)\<rparr>)
      | _ \<Rightarrow> None)"

text \<open>
  \<open>ApplyToDatabase\<close> sends one statement per entry with an address as host and stops at the first
  failure, keeping the assignments made so far.
\<close>

fun ApplyToDatabase :: "'ip pg \<Rightarrow> inventory_entry list \<Rightarrow> 'ip tables \<times> nat option \<Rightarrow> (service_error + unit) \<times> 'ip tables" where
  "ApplyToDatabase pg [] s = (Inr (), fst s)"
| "ApplyToDatabase pg (e # es) s =
     (if ParseAddr (Host e) = None then ApplyToDatabase pg es s
      else case exec DatabaseError (assign_entry pg e) s of
        Inl err \<Rightarrow> (Inl err, fst s)
      | Inr (_, s') \<Rightarrow> ApplyToDatabase pg es s')"

section \<open>The status sweep\<close>

lemma interval_windows:
  "interval_of agentOnlineWindow = agentOnlineWindow" "interval_of agentStaleWindow = agentStaleWindow"
  by code_simp+

lemma sql_status_eq: "sql_status now ls = agentStatusForLastSeen now ls"
  unfolding sql_status_def agentStatusForLastSeen_def interval_windows
  unfolding agentOnlineWindow_def agentStaleWindow_def duration_defs time_Sub_def Let_def
  by auto

lemma update_status_agents:
  "update_where (\<lambda>a. ag_status a \<noteq> f a) (\<lambda>a. a\<lparr>ag_status := f a\<rparr>) as = map (\<lambda>a. a\<lparr>ag_status := f a\<rparr>) as"
  by (auto simp: update_where_def)

lemma update_status_vms:
  "update_where (\<lambda>v. vm_status v \<noteq> f v) (\<lambda>v. v\<lparr>vm_status := f v\<rparr>) as = map (\<lambda>v. v\<lparr>vm_status := f v\<rparr>) as"
  by (auto simp: update_where_def)

lemma UpdateStatuses_cases:
  obtains (failed) e where "agent_UpdateStatuses now (t, c) = (Inl e, t, [])"
  | (swept) t' n where
      "agent_UpdateStatuses now (t, c) = (Inr (), t', if n > 0 then [CallBroadcast ''status.changed'' n] else [])"
      "t' = t\<lparr>agents := map (\<lambda>a. a\<lparr>ag_status := agentStatusForLastSeen now (ag_last_seen a)\<rparr>) (agents t),
              vms := map (\<lambda>v. v\<lparr>vm_status := agentStatusForLastSeen now (vm_last_seen v)\<rparr>) (vms t)\<rparr>"
      "n = length (filter (\<lambda>a. ag_status a \<noteq> agentStatusForLastSeen now (ag_last_seen a)) (agents t))
         + length (filter (\<lambda>v. vm_status v \<noteq> agentStatusForLastSeen now (vm_last_seen v)) (vms t))"
proof (cases rule: transaction_cases [of DatabaseError
      "tx_bind (sweep_agents now) (\<lambda>n. tx_bind (sweep_vms now) (\<lambda>m. tx_return (n + m)))" t c])
  case (rolled_back e)
  then show ?thesis using failed by (simp add: agent_UpdateStatuses_def)
next
  case (committed n t' c1 c2)
  from committed(2) have
    "n = length (filter (\<lambda>a. ag_status a \<noteq> agentStatusForLastSeen now (ag_last_seen a)) (agents t))
       + length (filter (\<lambda>v. vm_status v \<noteq> agentStatusForLastSeen now (vm_last_seen v)) (vms t))"
    "t' = t\<lparr>agents := map (\<lambda>a. a\<lparr>ag_status := agentStatusForLastSeen now (ag_last_seen a)\<rparr>) (agents t),
            vms := map (\<lambda>v. v\<lparr>vm_status := agentStatusForLastSeen now (vm_last_seen v)\<rparr>) (vms t)\<rparr>"
    by (auto simp: tx_bind_Inr sweep_agents_def sweep_vms_def Let_def sql_status_eq update_status_agents
        update_status_vms dest!: stmt_Inr)
  with committed(1) show ?thesis using swept [of t' n] by (simp add: agent_UpdateStatuses_def)
qed

text \<open>
  C29. The status sweep. When the sweep succeeds, every agent and every VM has the status that the
  Go function \<open>agentStatusForLastSeen\<close> gives for its last sign of life (online within a minute,
  stale within five, offline after that) and nothing else has changed; the change event is
  broadcast exactly when some status changed, with the number of changed rows. When it fails,
  nothing has changed.
\<close>

theorem status_sweep_exact:
  "case agent_UpdateStatuses now (t, c) of
     (Inl e, t', calls) \<Rightarrow> t' = t \<and> calls = []
   | (Inr _, t', calls) \<Rightarrow>
       t' = t\<lparr>agents := map (\<lambda>a. a\<lparr>ag_status := agentStatusForLastSeen now (ag_last_seen a)\<rparr>) (agents t),
              vms := map (\<lambda>v. v\<lparr>vm_status := agentStatusForLastSeen now (vm_last_seen v)\<rparr>) (vms t)\<rparr>
       \<and> (let n = length (filter (\<lambda>a. ag_status a \<noteq> agentStatusForLastSeen now (ag_last_seen a)) (agents t))
                + length (filter (\<lambda>v. vm_status v \<noteq> agentStatusForLastSeen now (vm_last_seen v)) (vms t))
          in calls = (if n > 0 then [CallBroadcast ''status.changed'' n] else []))"
proof (cases rule: UpdateStatuses_cases [of now t c])
  case (failed e)
  then show ?thesis by simp
next
  case (swept t' n)
  show ?thesis unfolding swept(1) prod.case sum.case swept(2) swept(3) Let_def by (intro conjI refl)
qed

section \<open>Identities\<close>

text \<open>
  The invariant of the identity tables: identifiers are unique and not empty, and a machine
  belongs to one VM.
\<close>

definition machines_unique :: "'ip vm_row list \<Rightarrow> bool" where
  "machines_unique rows \<longleftrightarrow>
     (\<forall>v\<in>set rows. \<forall>w\<in>set rows. vm_machine_id v \<noteq> None \<longrightarrow> vm_machine_id v = vm_machine_id w \<longrightarrow> vm_id v = vm_id w)"

definition identities_wf :: "'ip tables \<Rightarrow> bool" where
  "identities_wf t \<longleftrightarrow>
     distinct (map ag_id (agents t)) \<and> distinct (map vm_id (vms t)) \<and> [] \<notin> vm_id ` set (vms t)
     \<and> machines_unique (vms t)"

lemma machines_uniqueD:
  "machines_unique rows \<Longrightarrow> v \<in> set rows \<Longrightarrow> w \<in> set rows \<Longrightarrow> vm_machine_id v = Some m \<Longrightarrow> vm_machine_id w = Some m
   \<Longrightarrow> vm_id v = vm_id w"
  unfolding machines_unique_def by (metis option.distinct(1))

lemma machines_uniqueI:
  "(\<And>v w m. v \<in> set rows \<Longrightarrow> w \<in> set rows \<Longrightarrow> vm_machine_id v = Some m \<Longrightarrow> vm_machine_id w = Some m \<Longrightarrow> vm_id v = vm_id w)
   \<Longrightarrow> machines_unique rows"
  unfolding machines_unique_def by (metis not_None_eq)

definition same_identities :: "'ip tables \<Rightarrow> 'ip tables \<Rightarrow> bool" where
  "same_identities t t' \<longleftrightarrow> agents t' = agents t \<and> vms t' = vms t"

lemma resolveUnknownHost_frame: "resolveUnknownHost pg now v tn ip (t, c) = Inr (u, t', c') \<Longrightarrow> same_identities t t'"
  by (auto simp: resolveUnknownHost_def tx_then_def tx_bind_Inr same_identities_def dest!: exec_Inr)

lemma host_or_skip_frame:
  "(if b then resolveUnknownHost pg now v tn ip else tx_return ()) (t, c) = Inr (u, t', c') \<Longrightarrow> same_identities t t'"
  by (cases b) (simp_all add: resolveUnknownHost_frame, simp add: same_identities_def)

lemma register_interface_frame:
  assumes "register_interface pg now v tn i (t, c) = Inr (u, t', c')"
  shows "same_identities t t'"
proof (cases "if_Name i = []")
  case True
  with assms show ?thesis by (simp add: register_interface_def same_identities_def)
next
  case False
  with assms obtain t1 c1 w where
    step: "exec DatabaseError (\<lambda>t. map_option (\<lambda>ip.
      let x = \<lparr>vi_vm_id = v, vi_name = if_Name i, vi_ip_address = ip, vi_mac_address = nullIfEmpty (if_MACAddress i), vi_updated_at = now\<rparr>
      in t\<lparr>vm_interfaces := upsert (\<lambda>y. y\<lparr>vi_updated_at := now\<rparr> = x) (\<lambda>y. y\<lparr>vi_updated_at := now\<rparr>) x (vm_interfaces t)\<rparr>)
      (inet_arg pg (if_IPAddress i))) (t, c) = Inr (w, t1, c1)" and
    rest: "(if if_IPAddress i \<noteq> [] then resolveUnknownHost pg now v tn (if_IPAddress i) else tx_return ()) (t1, c1) = Inr (u, t', c')"
    unfolding register_interface_def tx_then_def by (auto simp only: tx_bind_Inr if_False)
  from exec_Inr [OF step] have "same_identities t t1" by (auto simp: same_identities_def Let_def)
  with host_or_skip_frame [OF rest] show ?thesis by (simp add: same_identities_def)
qed

lemma tx_each_frame:
  assumes "\<And>x t c u t' c'. f x (t, c) = Inr (u, t', c') \<Longrightarrow> same_identities t t'"
  shows "tx_each f xs (t, c) = Inr (u, t', c') \<Longrightarrow> same_identities t t'"
proof (induction xs arbitrary: t c)
  case (Cons x xs)
  then show ?case using assms by (fastforce simp: tx_then_def tx_bind_Inr same_identities_def)
qed (simp add: same_identities_def)

lemma upsert_set: "set (upsert p f x rows) \<subseteq> (if list_ex p rows then {} else {x}) \<union> f ` {r \<in> set rows. p r} \<union> {r \<in> set rows. \<not> p r}"
  by (auto simp: upsert_def update_where_def list_ex_iff)

lemma upsert_has: "\<exists>r\<in>set (upsert p f x rows). r = x \<and> \<not> list_ex p rows \<or> (\<exists>r0\<in>set rows. p r0 \<and> r = f r0)"
  by (auto simp: upsert_def update_where_def list_ex_iff)

lemma upsert_keys:
  assumes "distinct (map key rows)" "\<And>r. p r \<longleftrightarrow> key r = k" "\<And>r. key (f r) = key r" "key x = k"
  shows "distinct (map key (upsert p f x rows))" "key ` set (upsert p f x rows) = insert k (key ` set rows)"
proof -
  have m: "map key (update_where p f rows) = map key rows" using assms(3) by (simp add: update_where_def)
  show "distinct (map key (upsert p f x rows))"
    using assms m by (auto simp: upsert_def list_ex_iff)
  have "key ` set (update_where p f rows) = key ` set rows" using m by (metis list.set_map)
  moreover have "k \<in> key ` set rows" if "list_ex p rows" using that assms(2) by (auto simp: list_ex_iff)
  ultimately show "key ` set (upsert p f x rows) = insert k (key ` set rows)"
    using assms(4) by (auto simp: upsert_def)
qed

lemma merge_vm_fields [simp]:
  "vm_id (merge_vm now x v) = vm_id v" "vm_machine_id (merge_vm now x v) = coalesce (vm_machine_id x) (vm_machine_id v)"
  by (simp_all add: merge_vm_def)

lemma merge_agent_fields [simp]:
  "ag_id (merge_agent now x a) = ag_id a" "ag_vm_id (merge_agent now x a) = ag_vm_id x" "ag_status (merge_agent now x a) = ''online''"
  by (simp_all add: merge_agent_def)

lemma new_vm_fields [simp]: "vm_id (new_vm now v f p q m reg) = v" "vm_machine_id (new_vm now v f p q m reg) = nullIfEmpty (ar_MachineID reg)"
  by (simp_all add: new_vm_def)

lemma new_agent_fields [simp]: "ag_id (new_agent now v f reg) = ar_AgentID reg" "ag_vm_id (new_agent now v f reg) = Some v" "ag_status (new_agent now v f reg) = ''online''"
  by (simp_all add: new_agent_def)

text \<open>The two identity queries that decide a re-registration.\<close>

lemma vm_where_machine:
  assumes "identities_wf t" "v \<in> set (vms t)" "vm_machine_id v = Some m"
  shows "vm_where (\<lambda>v. vm_machine_id v = Some m) t = Some (vm_id v)"
proof -
  let ?rows = "order_desc vm_last_seen (filter (\<lambda>v. vm_machine_id v = Some m) (vms t))"
  have "v \<in> set ?rows" using assms(2,3) by simp
  then have "?rows \<noteq> []" by (metis list.set(1) empty_iff)
  then obtain w rest where w: "?rows = w # rest" by (cases ?rows) auto
  then have "w \<in> set ?rows" by simp
  then have "w \<in> set (vms t)" "vm_machine_id w = Some m" by simp_all
  then have "vm_id w = vm_id v" using assms machines_uniqueD [of "vms t" w v m] by (simp add: identities_wf_def)
  with w show ?thesis by (simp add: vm_where_def first_row_def)
qed

lemma vm_where_none: "\<forall>v\<in>set (vms t). vm_machine_id v \<noteq> Some m \<Longrightarrow> vm_where (\<lambda>v. vm_machine_id v = Some m) t = None"
  by (simp add: vm_where_def order_desc_def first_row_def)

lemma agent_query:
  assumes "distinct (map ag_id as)" "a \<in> set as" "ag_id a = k" "ag_vm_id a = Some v"
  shows "first_row [v. a \<leftarrow> as, ag_id a = k, v \<leftarrow> (case ag_vm_id a of None \<Rightarrow> [] | Some v \<Rightarrow> [v])] = Some v"
  using assms
proof (induction as)
  case (Cons b as)
  show ?case
  proof (cases "ag_id b = k")
    case True
    then have "b = a" using Cons.prems by (auto intro: rev_image_eqI)
    with Cons.prems show ?thesis by (simp add: first_row_def)
  next
    case False
    then have "a \<in> set as" using Cons.prems by auto
    with False Cons show ?thesis by simp
  qed
qed simp

lemma run_queries_first:
  "q t = Some (Some v) \<Longrightarrow> run_queries (q # qs) (t, c) = Inr (r, t', c') \<Longrightarrow> r = v"
  by (auto simp: tx_bind_Inr dest!: stmt_Inr)

lemma run_queries_same: "run_queries qs (t, c) = Inr (r, t', c') \<Longrightarrow> t' = t"
proof (induction qs arbitrary: c)
  case (Cons q qs)
  then show ?case by (auto simp: tx_bind_Inr dest!: stmt_Inr split: option.splits)
qed simp

lemma run_queries_miss:
  "q t = Some None \<Longrightarrow> run_queries (q # qs) (t, c) = Inr (r, t', c') \<Longrightarrow> \<exists>c2. run_queries qs (t, c2) = Inr (r, t', c')"
  by (auto simp: tx_bind_Inr dest!: stmt_Inr)

lemma resolve_machine:
  assumes "identities_wf t" "v \<in> set (vms t)" "vm_machine_id v = Some (ar_MachineID reg)" "ar_MachineID reg \<noteq> []"
    and "resolveIdentity pg reg ip mac (t, c) = Inr (found, t', c')"
  shows "found = vm_id v"
proof -
  obtain qs where "identity_queries pg reg ip mac = (\<lambda>t. Some (vm_where (\<lambda>v. vm_machine_id v = Some (ar_MachineID reg)) t)) # qs"
    using assms(4) by (simp add: identity_queries_def)
  with assms(5) show ?thesis
    unfolding resolveIdentity_def using run_queries_first vm_where_machine [OF assms(1-3)] by metis
qed

lemma resolve_agent:
  assumes "identities_wf t" "a \<in> set (agents t)" "ag_id a = ar_AgentID reg" "ag_vm_id a = Some v" "ar_MachineID reg = []"
    and "resolveIdentity pg reg ip mac (t, c) = Inr (found, t', c')"
  shows "found = v"
proof -
  obtain qs where "identity_queries pg reg ip mac = (\<lambda>t. Some (vm_of_agent (ar_AgentID reg) t)) # qs"
    using assms(5) by (simp add: identity_queries_def)
  moreover have "vm_of_agent (ar_AgentID reg) t = Some v"
    unfolding vm_of_agent_def using assms(1-4) by (intro agent_query) (simp_all add: identities_wf_def)
  ultimately show ?thesis using assms(6) unfolding resolveIdentity_def by (metis run_queries_first)
qed

lemma upsert_vm_rows:
  fixes x :: "'ip vm_row"
  assumes "x = new_vm now vmID f p q mac reg"
    and "v \<in> set (upsert (\<lambda>v. vm_id v = vmID) (merge_vm now x) x rows)"
  shows "vm_id v = vmID \<and> (ar_MachineID reg \<noteq> [] \<and> vm_machine_id v = Some (ar_MachineID reg)
      \<or> ar_MachineID reg = [] \<and> (vm_machine_id v = None \<or> (\<exists>w\<in>set rows. vm_id w = vmID \<and> vm_machine_id v = vm_machine_id w)))
    \<or> v \<in> set rows \<and> vm_id v \<noteq> vmID"
  using assms(2) subsetD [OF upsert_set assms(2)]
  by (auto simp: assms(1) nullIfEmpty_def coalesce_def split: if_splits)

lemma upsert_vm_wf:
  fixes x :: "'ip vm_row"
  assumes wf: "identities_wf t" and x: "x = new_vm now vmID f p q mac reg" and "vmID \<noteq> []"
    and machine: "ar_MachineID reg \<noteq> [] \<Longrightarrow> \<forall>v\<in>set (vms t). vm_machine_id v = Some (ar_MachineID reg) \<longrightarrow> vm_id v = vmID"
  shows "identities_wf (t\<lparr>vms := upsert (\<lambda>v. vm_id v = vmID) (merge_vm now x) x (vms t)\<rparr>)"
proof -
  let ?rows = "upsert (\<lambda>v. vm_id v = vmID) (merge_vm now x) x (vms t)"
  have d: "distinct (map vm_id (vms t))" and u: "machines_unique (vms t)" using wf by (simp_all add: identities_wf_def)
  have keys: "distinct (map vm_id ?rows)" "vm_id ` set ?rows = insert vmID (vm_id ` set (vms t))"
    using upsert_keys [where key = vm_id and k = vmID and x = x, OF d refl merge_vm_fields(1)] x by simp_all
  have "machines_unique ?rows"
  proof (rule machines_uniqueI)
    fix v w m assume in_rows: "v \<in> set ?rows" "w \<in> set ?rows" and m: "vm_machine_id v = Some m" "vm_machine_id w = Some m"
    note v = upsert_vm_rows [OF x in_rows(1)] and w = upsert_vm_rows [OF x in_rows(2)]
    show "vm_id v = vm_id w"
    proof (cases "ar_MachineID reg = []")
      case True
      then obtain v0 w0 where "v0 \<in> set (vms t)" "vm_id v0 = vm_id v" "vm_machine_id v0 = Some m"
        "w0 \<in> set (vms t)" "vm_id w0 = vm_id w" "vm_machine_id w0 = Some m"
        using v w m by fastforce
      then show ?thesis using machines_uniqueD [OF u, of v0 w0] by simp
    next
      case False
      show ?thesis
      proof (cases "vm_id v = vmID \<or> vm_id w = vmID")
        case True
        then have m': "m = ar_MachineID reg" using v w m False by auto
        note at = machine [OF False, rule_format]
        have "vm_id v = vmID" using v at [of v] m(1) m' by auto
        moreover have "vm_id w = vmID" using w at [of w] m(2) m' by auto
        ultimately show ?thesis by simp
      next
        case neither: False
        then have "v \<in> set (vms t)" "w \<in> set (vms t)" using v w by auto
        then show ?thesis using m machines_uniqueD [OF u] by blast
      qed
    qed
  qed
  then show ?thesis using wf keys assms(3) by (simp add: identities_wf_def)
qed

lemma upsert_agent_wf:
  assumes wf: "identities_wf t"
  shows "identities_wf (t\<lparr>agents := upsert (\<lambda>a. ag_id a = ar_AgentID reg) (merge_agent now (new_agent now v f reg)) (new_agent now v f reg) (agents t)\<rparr>)"
proof -
  have "distinct (map ag_id (agents t))" using wf by (simp add: identities_wf_def)
  from upsert_keys(1) [where key = ag_id and k = "ar_AgentID reg" and x = "new_agent now v f reg", OF this refl merge_agent_fields(1)]
  show ?thesis using wf by (simp add: identities_wf_def)
qed

text \<open>What a successful registration leaves behind.\<close>

lemma register_tx_facts:
  assumes wf: "identities_wf t"
    and ok: "register_tx pg sha inventory now reg ip mac pub (t, c) = Inr (vmID, t', c')"
  shows "identities_wf t'"
    and "\<exists>v\<in>set (vms t'). vm_id v = vmID \<and> (ar_MachineID reg \<noteq> [] \<longrightarrow> vm_machine_id v = Some (ar_MachineID reg))"
    and "\<exists>a\<in>set (agents t'). ag_id a = ar_AgentID reg \<and> ag_vm_id a = Some vmID \<and> ag_status a = ''online''"
proof -
  define f where "f = vm_facts_of inventory reg ip pub"
  from ok obtain found t0 c0 t1 c1 t2 c2 t3 c3 t4 c4 u1 u2 u3 u4 where
    res: "resolveIdentity pg reg ip mac (t, c) = Inr (found, t0, c0)" and
    vmID: "vmID = (if found = [] then stableVMID sha reg ip mac else found)" and
    vm: "upsert_vm pg now vmID f ip mac reg (t0, c0) = Inr (u1, t1, c1)" and
    ag: "upsert_agent now vmID f reg (t1, c1) = Inr (u2, t2, c2)" and
    each: "tx_each (register_interface pg now vmID (vf_tenant f)) (ar_Interfaces reg) (t2, c2) = Inr (u3, t3, c3)" and
    host: "(if ip \<noteq> [] then resolveUnknownHost pg now vmID (vf_tenant f) ip else tx_return ()) (t3, c3) = Inr (u4, t4, c4)" and
    t': "t4 = t'"
    unfolding register_tx_def tx_then_def Let_def f_def by (fastforce simp: tx_bind_Inr)
  have t0: "t0 = t" using res run_queries_same by (simp add: resolveIdentity_def)
  have frame: "agents t' = agents t2" "vms t' = vms t2"
    using tx_each_frame [OF register_interface_frame each] host_or_skip_frame [OF host] t' by (simp_all add: same_identities_def)
  obtain p q where x: "t1 = t\<lparr>vms := upsert (\<lambda>v. vm_id v = vmID) (merge_vm now (new_vm now vmID f p q mac reg)) (new_vm now vmID f p q mac reg) (vms t)\<rparr>"
    using vm t0 by (auto simp: upsert_vm_def Let_def dest!: exec_Inr split: option.splits)
  have y: "t2 = t1\<lparr>agents := upsert (\<lambda>a. ag_id a = ar_AgentID reg) (merge_agent now (new_agent now vmID f reg)) (new_agent now vmID f reg) (agents t1)\<rparr>"
    using ag by (auto simp: upsert_agent_def Let_def dest!: exec_Inr)
  have "vmID \<noteq> []" using vmID by (auto simp: stableVMID_def split: if_splits)
  moreover have "vm_id v = vmID" if "ar_MachineID reg \<noteq> []" "v \<in> set (vms t)" "vm_machine_id v = Some (ar_MachineID reg)" for v
    using resolve_machine [OF wf that(2,3,1) res] vmID that(2) wf unfolding identities_wf_def by (metis image_eqI)
  ultimately have "identities_wf t1" unfolding x using upsert_vm_wf [OF wf refl] by blast
  then have wf2: "identities_wf t2" unfolding y by (rule upsert_agent_wf)
  then show "identities_wf t'" using frame by (simp add: identities_wf_def)
  have "vms t2 = vms t1" "agents t1 = agents t" using y x by simp_all
  moreover obtain v where "v \<in> set (upsert (\<lambda>v. vm_id v = vmID) (merge_vm now (new_vm now vmID f p q mac reg)) (new_vm now vmID f p q mac reg) (vms t))"
      "vm_id v = vmID" "ar_MachineID reg \<noteq> [] \<longrightarrow> vm_machine_id v = Some (ar_MachineID reg)"
    using upsert_has [of "\<lambda>v. vm_id v = vmID" "merge_vm now (new_vm now vmID f p q mac reg)" "new_vm now vmID f p q mac reg" "vms t"]
    by (fastforce simp: nullIfEmpty_def coalesce_def)
  moreover have "vms t' = upsert (\<lambda>v. vm_id v = vmID) (merge_vm now (new_vm now vmID f p q mac reg)) (new_vm now vmID f p q mac reg) (vms t)"
    using frame y x by simp
  ultimately show "\<exists>v\<in>set (vms t'). vm_id v = vmID \<and> (ar_MachineID reg \<noteq> [] \<longrightarrow> vm_machine_id v = Some (ar_MachineID reg))"
    by metis
  obtain a where "a \<in> set (upsert (\<lambda>a. ag_id a = ar_AgentID reg) (merge_agent now (new_agent now vmID f reg)) (new_agent now vmID f reg) (agents t1))"
      "ag_id a = ar_AgentID reg" "ag_vm_id a = Some vmID" "ag_status a = ''online''"
    using upsert_has [of "\<lambda>a. ag_id a = ar_AgentID reg" "merge_agent now (new_agent now vmID f reg)" "new_agent now vmID f reg" "agents t1"]
    by fastforce
  moreover have "agents t' = upsert (\<lambda>a. ag_id a = ar_AgentID reg) (merge_agent now (new_agent now vmID f reg)) (new_agent now vmID f reg) (agents t1)"
    using frame y by simp
  ultimately show "\<exists>a\<in>set (agents t'). ag_id a = ar_AgentID reg \<and> ag_vm_id a = Some vmID \<and> ag_status a = ''online''"
    by metis
qed

lemma register_tx_again:
  assumes wf: "identities_wf t"
    and ok: "register_tx pg sha inventory now reg ip mac pub (t, c) = Inr (vmID, t1, c1)"
    and again: "register_tx pg sha inventory' now' reg ip mac pub' (t1, c2) = Inr (vmID', t2, c3)"
  shows "vmID' = vmID"
proof -
  note facts = register_tx_facts [OF wf ok]
  obtain found t0 c0 where res: "resolveIdentity pg reg ip mac (t1, c2) = Inr (found, t0, c0)"
    and vmID': "vmID' = (if found = [] then stableVMID sha reg ip mac else found)"
    using again unfolding register_tx_def tx_then_def Let_def by (fastforce simp: tx_bind_Inr)
  obtain v where v: "v \<in> set (vms t1)" "vm_id v = vmID" "ar_MachineID reg \<noteq> [] \<longrightarrow> vm_machine_id v = Some (ar_MachineID reg)"
    using facts(2) by blast
  obtain a where a: "a \<in> set (agents t1)" "ag_id a = ar_AgentID reg" "ag_vm_id a = Some vmID"
    using facts(3) by blast
  have "found = vmID"
    using resolve_machine [OF facts(1) v(1) _ _ res] resolve_agent [OF facts(1) a _ res] v by (cases "ar_MachineID reg = []") auto
  moreover have "vmID \<noteq> []" using v facts(1) unfolding identities_wf_def by (metis image_eqI)
  ultimately show ?thesis using vmID' by simp
qed

text \<open>The normalised registration that \<open>agent_Register\<close> works with.\<close>

definition normal_registration :: "agent_registration \<Rightarrow> agent_registration" where
  "normal_registration registration =
     (let r1 = registration\<lparr>ar_AgentID := TrimSpace (ar_AgentID registration), ar_Hostname := TrimSpace (ar_Hostname registration)\<rparr>
      in r1\<lparr>ar_Interfaces := normalizeInterfaces r1\<rparr>)"

lemma agent_Register_ok:
  assumes "agent_Register pg sha inventory now registration (t, c) = (Inr r, t', calls)"
  shows "\<exists>pub c1 c2. register_tx pg sha inventory now (normal_registration registration)
      (firstValidIP (ar_PrivateIPs registration) (ar_Interfaces (normal_registration registration)))
      (svc_firstNonEmpty (ar_MACAddresses registration @ interfaceMACs (ar_Interfaces (normal_registration registration)))) pub
      (t, c1) = Inr (rr_VMID r, t', c2)
    \<and> rr_AgentID r = TrimSpace (ar_AgentID registration) \<and> calls = [CallBroadcast ''agent.registered'' r]"
proof -
  let ?n = "normal_registration registration"
  define pub where "pub = (case ar_PublicIP ?n of None \<Rightarrow> [] | Some p \<Rightarrow> TrimSpace p)"
  define body where "body = register_tx pg sha inventory now ?n (firstValidIP (ar_PrivateIPs ?n) (ar_Interfaces ?n))
      (svc_firstNonEmpty (ar_MACAddresses ?n @ interfaceMACs (ar_Interfaces ?n))) pub"
  have n: "ar_PrivateIPs ?n = ar_PrivateIPs registration" "ar_MACAddresses ?n = ar_MACAddresses registration"
    "ar_AgentID ?n = TrimSpace (ar_AgentID registration)"
    by (simp_all add: normal_registration_def Let_def)
  have reg: "agent_Register pg sha inventory now registration (t, c) =
      (if ar_AgentID ?n = [] \<or> ar_Hostname ?n = [] then (Inl (MissingField ''agent_id and hostname''), t, [])
       else if pub \<noteq> [] \<and> ParseAddr pub = None then (Inl (BadPublicIP pub), t, [])
       else case transaction DatabaseError body (t, c) of
           (Inl err, t) \<Rightarrow> (Inl err, t, [])
         | (Inr vmID, t) \<Rightarrow> (Inr \<lparr>rr_AgentID = ar_AgentID ?n, rr_VMID = vmID, rr_Status = ''online''\<rparr>, t,
             [CallBroadcast ''agent.registered'' \<lparr>rr_AgentID = ar_AgentID ?n, rr_VMID = vmID, rr_Status = ''online''\<rparr>]))"
    by (simp add: agent_Register_def Let_def normal_registration_def pub_def body_def split: prod.split sum.split)
  show ?thesis
  proof (cases rule: transaction_cases [of DatabaseError body t c])
    case (rolled_back e)
    with assms show ?thesis by (simp add: reg split: if_splits)
  next
    case (committed vmID t1 c1 c2)
    with assms have "r = \<lparr>rr_AgentID = ar_AgentID ?n, rr_VMID = vmID, rr_Status = ''online''\<rparr>" "t1 = t'"
      "calls = [CallBroadcast ''agent.registered'' r]"
      by (auto simp: reg split: if_splits)
    with committed(2) show ?thesis unfolding body_def n by (intro exI [of _ pub] exI [of _ c1] exI [of _ c2]) (simp add: n)
  qed
qed

text \<open>
  C28. A machine keeps its identity. Starting from tables in which identifiers are unique and no
  machine has two VMs, a successful registration keeps it so, leaves an online agent row of the
  registering agent that points to the returned VM, and if the same registration is sent
  again, at any later time and with whatever inventory, it is answered with the same VM.
\<close>

theorem registration_stable:
  assumes "identities_wf t" "agent_Register pg sha inventory now reg (t, c) = (Inr r, t', calls)"
  shows "identities_wf t' \<and> calls = [CallBroadcast ''agent.registered'' r]
    \<and> (\<exists>a\<in>set (agents t'). ag_id a = TrimSpace (ar_AgentID reg) \<and> ag_vm_id a = Some (rr_VMID r) \<and> ag_status a = ''online'')
    \<and> rr_VMID r \<in> vm_id ` set (vms t')
    \<and> (\<forall>inventory' now' c' r' t'' calls'.
         agent_Register pg sha inventory' now' reg (t', c') = (Inr r', t'', calls') \<longrightarrow> rr_VMID r' = rr_VMID r)"
proof -
  obtain pub c1 c2 where tx: "register_tx pg sha inventory now (normal_registration reg)
      (firstValidIP (ar_PrivateIPs reg) (ar_Interfaces (normal_registration reg)))
      (svc_firstNonEmpty (ar_MACAddresses reg @ interfaceMACs (ar_Interfaces (normal_registration reg)))) pub
      (t, c1) = Inr (rr_VMID r, t', c2)" and calls: "calls = [CallBroadcast ''agent.registered'' r]"
    using agent_Register_ok [OF assms(2)] by blast
  note facts = register_tx_facts [OF assms(1) tx]
  have "ar_AgentID (normal_registration reg) = TrimSpace (ar_AgentID reg)" by (simp add: normal_registration_def Let_def)
  moreover have "rr_VMID r' = rr_VMID r"
    if again: "agent_Register pg sha inventory' now' reg (t', c') = (Inr r', t'', calls')" for inventory' now' c' r' t'' calls'
    using agent_Register_ok [OF again] register_tx_again [OF assms(1) tx] by blast
  moreover have "rr_VMID r \<in> vm_id ` set (vms t')" using facts(2) by (metis image_eqI)
  ultimately show ?thesis using facts(1,3) calls by simp
qed


definition demo_registration :: agent_registration where
  "demo_registration = \<lparr>ar_AgentID = ''agent-7'', ar_Hostname = ''web'', ar_MachineID = [], ar_TenantID = ''t'',
     ar_ProjectID = [], ar_PrivateIPs = [''10.0.0.9''], ar_PublicIP = None, ar_MACAddresses = [], ar_Interfaces = [],
     ar_OS = [], ar_Kernel = [], ar_AgentVersion = [], ar_Environment = []\<rparr>"

lemma demo_tables_identities: "identities_wf demo_tables"
  by (simp add: identities_wf_def demo_tables_def demo_vm_def machines_unique_def)

lemma demo_register:
  "case agent_Register demo_pg (\<lambda>_. [1, 2, 3, 4, 5, 6, 7, 8]) None 9 demo_registration (demo_tables, None) of
     (Inr r, _) \<Rightarrow> rr_VMID r = ''vm-0102030405060708'' | _ \<Rightarrow> False"
  by code_simp

theorem registration_stable_witness:
  "''vm-0102030405060708'' \<in> vm_id ` set (vms (fst (snd (agent_Register demo_pg (\<lambda>_. [1, 2, 3, 4, 5, 6, 7, 8]) None 9 demo_registration (demo_tables, None)))))"
proof -
  obtain r t calls where ok: "agent_Register demo_pg (\<lambda>_. [1, 2, 3, 4, 5, 6, 7, 8]) None 9 demo_registration (demo_tables, None) = (Inr r, t, calls)"
    and r: "rr_VMID r = ''vm-0102030405060708''"
    using demo_register by (auto split: sum.splits prod.splits)
  from registration_stable [OF demo_tables_identities ok] show ?thesis by (simp add: ok r [symmetric])
qed

section \<open>Resolved hosts can merge two flows\<close>

text \<open>
  Registration rewrites the flows to an address that had no VM. Two such flows may differ in
  their scope only: one was stored while the address belonged to a VM that has been removed
  since, the other one afterwards. Both get the same VM and the same scope, so two stored flows
  share the aggregate key that ingestion keeps unique.
\<close>

definition demo_group :: "string \<Rightarrow> string flow_group" where
  "demo_group scope = \<lparr>gk_src_vm = Some ''vm-1'', gk_dst_vm = None, gk_src_ip = ''10.0.0.1'', gk_dst_ip = ''10.0.0.9'',
     gk_protocol = ''tcp'', gk_dst_port = Some 443, gk_scope = scope, gk_direction = ''egress''\<rparr>"

definition demo_flow_event :: flow_event where
  "demo_flow_event = demo_payload\<lparr>fe_DstIP := ''10.0.0.9'', fe_DstPort := 443, fe_Direction := ''egress''\<rparr>"

definition demo_unresolved :: "string tables" where
  "demo_unresolved = demo_tables\<lparr>network_flows :=
     [new_flow demo_pg 3 3 (demo_group ''internal_same_tenant'') ''u'' demo_flow_event,
      new_flow demo_pg 4 4 (demo_group ''external_private'') ''uu'' demo_flow_event], uuids_used := 2\<rparr>"

lemma registration_can_merge_keys:
  "distinct (map group_of (network_flows demo_unresolved))
   \<and> (case agent_Register demo_pg (\<lambda>_. [1, 2, 3, 4, 5, 6, 7, 8]) None 9 demo_registration (demo_unresolved, None) of
        (Inr r, t, _) \<Rightarrow> \<not> distinct (map group_of (network_flows t)) | _ \<Rightarrow> False)"
  by code_simp

end
