(* ===== verification/Graph.thy ===== *)
theory Graph
  imports Agents "HOL-Library.List_Lexorder" "HOL-Library.Char_ord"
begin

text \<open>
  The backend's graph service (\<open>src/backend/internal/service/graph_service.go\<close>) and the VM
  listing it uses (\<open>vm_service.go\<close>): the rows of flows and probes become the nodes and edges
  the frontend draws. The properties show that the graph is closed (every edge ends in a
  listed node), sorted and free of duplicates, and that edge counters and node traffic are
  exactly the sums over the rows and failed probes that are shown.
\<close>

section \<open>Data\<close>

record vm =
  ID :: string
  vw_Name :: string
  vw_Type :: string
  vw_TenantID :: string
  vw_ProjectID :: string
  vw_Region :: string
  vw_Zone :: string
  vw_PrivateIP :: string
  vw_PublicIP :: string
  vw_NetworkID :: string
  vw_SubnetID :: string
  vw_MACAddress :: string
  vw_HostID :: string
  vw_Role :: string
  vw_Environment :: string
  vw_Owner :: string
  vw_DiscoveredBy :: string
  vw_AgentID :: string
  vw_MachineID :: string
  vw_Status :: string
  vw_FirstSeen :: gotime
  vw_LastSeen :: gotime
  vw_CreatedAt :: gotime
  vw_Interfaces :: "interface list"

record graph_node =
  gn_ID :: string
  gn_Type :: string
  gn_Label :: string
  gn_IP :: string
  gn_Status :: string
  gn_TenantID :: string
  gn_Role :: string
  TrafficIn :: i64
  TrafficOut :: i64

record graph_edge =
  ge_ID :: string
  ge_Source :: string
  ge_Target :: string
  ge_Protocol :: string
  ge_DstPort :: int
  ge_Scope :: string
  ge_BytesSent :: i64
  ge_BytesReceived :: i64
  ge_Packets :: i64
  ge_ConnectionCount :: i64
  ge_RequestCount :: i64
  ge_ErrorCount :: i64
  ge_Retransmissions :: i64
  ge_FirstSeen :: gotime
  ge_LastSeen :: gotime
  ge_LastObservedAt :: gotime
  ge_Active :: bool
  ge_ActiveUntil :: gotime
  ge_Failed :: bool
  ge_FailedUntil :: gotime
  ge_LastErrorAt :: "gotime option"
  ge_Weight :: int
  ge_Kind :: string
  ge_Reachable :: bool
  ge_AvgRTTMs :: f64
  ge_AvgAppDelayMs :: f64
  ge_HTTP2xx :: i64
  ge_HTTP4xx :: i64
  ge_HTTP5xx :: i64
  ge_LastHTTPStatus :: int

record graph =
  Nodes :: "graph_node list"
  Edges :: "graph_edge list"

record graph_filter =
  gf_AgentID :: string
  gf_TenantID :: string
  gf_ProjectID :: string
  gf_VMID :: string
  gf_Scope :: string
  gf_Protocol :: string
  gf_Port :: int
  gf_TimeRange :: duration
  gf_MinBytes :: i64
  gf_Status :: string

record endpoint =
  ep_VMID :: string
  ep_IP :: string
  ep_Port :: int
  ep_Name :: string
  ep_Tenant :: string
  ep_PrivateIP :: string
  ep_Status :: string
  ep_Role :: string
  ep_AgentID :: string

text \<open>
  \<open>graphFlowRow\<close>, with the two groups of nine fields for source and destination kept together,
  and \<open>graphProbeRow\<close> in the same way.
\<close>

record graph_flow_row =
  fr_AgentID :: string
  fr_Src :: endpoint
  fr_Dst :: endpoint
  fr_Protocol :: string
  fr_Direction :: string
  fr_Scope :: string
  fr_BytesSent :: i64
  fr_BytesReceived :: i64
  fr_Packets :: i64
  fr_Connections :: i64
  fr_Requests :: i64
  fr_Errors :: i64
  fr_Retransmits :: i64
  fr_AvgRTTMs :: f64
  fr_AvgAppDelayMs :: f64
  fr_HTTP2xx :: i64
  fr_HTTP4xx :: i64
  fr_HTTP5xx :: i64
  fr_LastHTTPStatus :: int
  fr_FirstSeen :: gotime
  fr_LastSeen :: gotime
  fr_ObservedAt :: gotime
  fr_LastErrorAt :: "gotime option"

record graph_probe_row =
  pr_AgentID :: string
  pr_Src :: endpoint
  pr_Dst :: endpoint
  pr_Protocol :: string
  pr_Scope :: string
  pr_Success :: bool
  pr_RTTMs :: f64
  pr_Error :: string
  pr_FirstSeen :: gotime
  pr_LastSeen :: gotime
  pr_ObservedAt :: gotime

section \<open>Queries\<close>

text \<open>A joined VM; \<open>LEFT JOIN\<close> gives empty strings when there is none.\<close>

definition joined_vm :: "'ip tables \<Rightarrow> string option \<Rightarrow> 'ip vm_row option" where
  "joined_vm t v = find (\<lambda>r. Some (vm_id r) = v) (vms t)"

definition endpoint_of :: "'ip pg \<Rightarrow> string option \<Rightarrow> 'ip \<Rightarrow> int \<Rightarrow> 'ip vm_row option \<Rightarrow> endpoint" where
  "endpoint_of pg v ip port m =
     \<lparr>ep_VMID = text_or_empty v, ep_IP = host pg ip, ep_Port = port,
      ep_Name = (case m of Some r \<Rightarrow> vm_name r | None \<Rightarrow> []),
      ep_Tenant = (case m of Some r \<Rightarrow> text_or_empty (vm_tenant_id r) | None \<Rightarrow> []),
      ep_PrivateIP = (case m of Some r \<Rightarrow> text_or_empty (map_option (host pg) (vm_private_ip r)) | None \<Rightarrow> []),
      ep_Status = (case m of Some r \<Rightarrow> vm_status r | None \<Rightarrow> []),
      ep_Role = (case m of Some r \<Rightarrow> text_or_empty (vm_role r) | None \<Rightarrow> []),
      ep_AgentID = (case m of Some r \<Rightarrow> text_or_empty (vm_agent_id r) | None \<Rightarrow> [])\<rparr>"

definition either_vm :: "('ip vm_row \<Rightarrow> bool) \<Rightarrow> 'ip vm_row option \<Rightarrow> 'ip vm_row option \<Rightarrow> bool" where
  "either_vm p sv dv \<longleftrightarrow> (case sv of Some v \<Rightarrow> p v | None \<Rightarrow> False) \<or> (case dv of Some v \<Rightarrow> p v | None \<Rightarrow> False)"

definition time_range :: "graph_filter \<Rightarrow> duration" where
  "time_range f = (if gf_TimeRange f \<le> 0 then 15 * Minute else gf_TimeRange f)"

definition flow_selected :: "gotime \<Rightarrow> graph_filter \<Rightarrow> 'ip tables \<Rightarrow> 'ip flow_row \<Rightarrow> bool" where
  "flow_selected now f t r \<longleftrightarrow>
     (let sv = joined_vm t (nf_src_vm_id r); dv = joined_vm t (nf_dst_vm_id r) in
      nf_observed_at r \<ge> now - interval_of (time_range f)
      \<and> (gf_AgentID f \<noteq> [] \<longrightarrow> nf_agent_id r = Some (gf_AgentID f))
      \<and> (gf_TenantID f \<noteq> [] \<longrightarrow> either_vm (\<lambda>v. vm_tenant_id v = Some (gf_TenantID f)) sv dv)
      \<and> (gf_ProjectID f \<noteq> [] \<longrightarrow> either_vm (\<lambda>v. vm_project_id v = Some (gf_ProjectID f)) sv dv)
      \<and> (gf_VMID f \<noteq> [] \<longrightarrow> nf_src_vm_id r = Some (gf_VMID f) \<or> nf_dst_vm_id r = Some (gf_VMID f))
      \<and> (gf_Scope f \<noteq> [] \<longrightarrow> nf_scope r = gf_Scope f)
      \<and> (gf_Protocol f \<noteq> [] \<longrightarrow> nf_protocol r = gf_Protocol f)
      \<and> (gf_Port f > 0 \<longrightarrow> nf_dst_port r = Some (gf_Port f))
      \<and> (gf_MinBytes f > 0 \<longrightarrow> nf_bytes_sent r + nf_bytes_received r \<ge> gf_MinBytes f)
      \<and> (gf_Status f \<noteq> [] \<longrightarrow> either_vm (\<lambda>v. vm_status v = gf_Status f) sv dv))"

definition scan_flow :: "'ip pg \<Rightarrow> 'ip tables \<Rightarrow> 'ip flow_row \<Rightarrow> graph_flow_row" where
  "scan_flow pg t r =
     \<lparr>fr_AgentID = text_or_empty (nf_agent_id r),
      fr_Src = endpoint_of pg (nf_src_vm_id r) (nf_src_ip r) (int_or_zero (nf_src_port r)) (joined_vm t (nf_src_vm_id r)),
      fr_Dst = endpoint_of pg (nf_dst_vm_id r) (nf_dst_ip r) (int_or_zero (nf_dst_port r)) (joined_vm t (nf_dst_vm_id r)),
      fr_Protocol = nf_protocol r, fr_Direction = nf_direction r, fr_Scope = nf_scope r,
      fr_BytesSent = nf_bytes_sent r, fr_BytesReceived = nf_bytes_received r, fr_Packets = nf_packets r,
      fr_Connections = nf_connection_count r, fr_Requests = nf_request_count r, fr_Errors = nf_error_count r,
      fr_Retransmits = nf_retransmission_count r, fr_AvgRTTMs = nf_avg_rtt_ms r, fr_AvgAppDelayMs = nf_avg_app_delay_ms r,
      fr_HTTP2xx = nf_http_2xx r, fr_HTTP4xx = nf_http_4xx r, fr_HTTP5xx = nf_http_5xx r,
      fr_LastHTTPStatus = int_or_zero (nf_last_http_status r), fr_FirstSeen = nf_first_seen r, fr_LastSeen = nf_last_seen r,
      fr_ObservedAt = nf_observed_at r, fr_LastErrorAt = nf_last_error_at r\<rparr>"

text \<open>A sum of the byte filter that leaves the BIGINT range is an error of the statement.\<close>

definition flow_rows :: "'ip pg \<Rightarrow> gotime \<Rightarrow> graph_filter \<Rightarrow> ('ip tables, service_error, graph_flow_row list) tx" where
  "flow_rows pg now f =
     stmt DatabaseError (\<lambda>t.
       if gf_MinBytes f > 0 \<and> \<not> list_all (\<lambda>r. in_i64 (nf_bytes_sent r + nf_bytes_received r)) (network_flows t) then None
       else Some (map (scan_flow pg t) (limit 5000 (order_desc nf_observed_at (filter (flow_selected now f t) (network_flows t)))), t))"

definition connectionProbeGraphTTL :: duration where
  "connectionProbeGraphTTL = 30 * Second"

definition probe_selected :: "gotime \<Rightarrow> graph_filter \<Rightarrow> 'ip tables \<Rightarrow> 'ip probe_row \<Rightarrow> bool" where
  "probe_selected now f t r \<longleftrightarrow>
     (let sv = joined_vm t (Some (pb_src_vm_id r)); dv = joined_vm t (pb_dst_vm_id r) in
      sv \<noteq> None \<and> dv \<noteq> None \<and> pb_source r = ''vmlens_probe'' \<and> pb_probe_type r = ''connectivity_check''
      \<and> pb_observed_at r \<ge> now - interval_of connectionProbeGraphTTL
      \<and> (gf_AgentID f \<noteq> [] \<longrightarrow> pb_agent_id r = gf_AgentID f)
      \<and> (gf_TenantID f \<noteq> [] \<longrightarrow> either_vm (\<lambda>v. vm_tenant_id v = Some (gf_TenantID f)) sv dv)
      \<and> (gf_ProjectID f \<noteq> [] \<longrightarrow> either_vm (\<lambda>v. vm_project_id v = Some (gf_ProjectID f)) sv dv)
      \<and> (gf_VMID f \<noteq> [] \<longrightarrow> pb_src_vm_id r = gf_VMID f \<or> pb_dst_vm_id r = Some (gf_VMID f))
      \<and> (gf_Protocol f \<noteq> [] \<longrightarrow> pb_protocol r = gf_Protocol f)
      \<and> (gf_Port f > 0 \<longrightarrow> pb_dst_port r = gf_Port f)
      \<and> (gf_Status f \<noteq> [] \<longrightarrow> either_vm (\<lambda>v. vm_status v = gf_Status f) sv dv))"

definition scan_probe :: "'ip pg \<Rightarrow> 'ip tables \<Rightarrow> 'ip probe_row \<Rightarrow> graph_probe_row" where
  "scan_probe pg t r =
     (let sv = joined_vm t (Some (pb_src_vm_id r)); dv = joined_vm t (pb_dst_vm_id r);
          tenant = (\<lambda>m. case m of Some v \<Rightarrow> text_or_empty (vm_tenant_id v) | None \<Rightarrow> []) in
      \<lparr>pr_AgentID = pb_agent_id r, pr_Src = endpoint_of pg (Some (pb_src_vm_id r)) (pb_src_ip r) 0 sv,
       pr_Dst = endpoint_of pg (pb_dst_vm_id r) (pb_dst_ip r) (pb_dst_port r) dv, pr_Protocol = pb_protocol r,
       pr_Scope = (if tenant sv = tenant dv then ''internal_same_tenant'' else ''internal_cross_tenant''),
       pr_Success = pb_success r, pr_RTTMs = pb_rtt_ms r, pr_Error = text_or_empty (pb_error r),
       pr_FirstSeen = pb_first_seen r, pr_LastSeen = pb_last_seen r, pr_ObservedAt = pb_observed_at r\<rparr>)"

definition connectionProbeRows :: "'ip pg \<Rightarrow> gotime \<Rightarrow> graph_filter \<Rightarrow> ('ip tables, service_error, graph_probe_row list) tx" where
  "connectionProbeRows pg now f =
     query DatabaseError (\<lambda>t.
       map (scan_probe pg t) (limit 1000 (order_desc pb_observed_at (filter (probe_selected now f t) (connection_probes t)))))"

definition scan_vm :: "'ip pg \<Rightarrow> 'ip vm_row \<Rightarrow> vm" where
  "scan_vm pg v =
     \<lparr>ID = vm_id v, vw_Name = vm_name v, vw_Type = text_or_empty (vm_host_type v), vw_TenantID = text_or_empty (vm_tenant_id v),
      vw_ProjectID = text_or_empty (vm_project_id v), vw_Region = text_or_empty (vm_region v), vw_Zone = text_or_empty (vm_zone v),
      vw_PrivateIP = text_or_empty (map_option (host pg) (vm_private_ip v)),
      vw_PublicIP = text_or_empty (map_option (host pg) (vm_public_ip v)), vw_NetworkID = text_or_empty (vm_network_id v),
      vw_SubnetID = text_or_empty (vm_subnet_id v), vw_MACAddress = text_or_empty (vm_mac_address v),
      vw_HostID = text_or_empty (vm_host_id v), vw_Role = text_or_empty (vm_role v), vw_Environment = text_or_empty (vm_environment v),
      vw_Owner = text_or_empty (vm_owner v), vw_DiscoveredBy = vm_discovered_by v, vw_AgentID = text_or_empty (vm_agent_id v),
      vw_MachineID = text_or_empty (vm_machine_id v), vw_Status = vm_status v, vw_FirstSeen = vm_first_seen v,
      vw_LastSeen = vm_last_seen v, vw_CreatedAt = vm_created_at v, vw_Interfaces = []\<rparr>"

text \<open>
  \<open>VMService.List\<close>. The orders by name depend on the database's collation and are the
  parameters \<open>by_name\<close> and \<open>by_iface\<close>, which permute their argument.
\<close>

definition vm_List :: "'ip pg \<Rightarrow> ('ip vm_row list \<Rightarrow> 'ip vm_row list) \<Rightarrow> ('ip iface_row list \<Rightarrow> 'ip iface_row list)
    \<Rightarrow> ('ip tables, service_error, vm list) tx" where
  "vm_List pg by_name by_iface =
     tx_bind (query DatabaseError (\<lambda>t. map (scan_vm pg) (by_name (vms t)))) (\<lambda>vs.
       tx_bind (query DatabaseError (\<lambda>t. by_iface (vm_interfaces t))) (\<lambda>is.
         tx_return (map (\<lambda>v. v\<lparr>vw_Interfaces :=
           map (\<lambda>i. \<lparr>if_Name = vi_name i, if_IPAddress = text_or_empty (map_option (host pg) (vi_ip_address i)),
                     if_MACAddress = text_or_empty (vi_mac_address i)\<rparr>) (filter (\<lambda>i. vi_vm_id i = ID v) is)\<rparr>) vs)))"

section \<open>Building the graph\<close>

definition normalizeGraphRow :: "graph_flow_row \<Rightarrow> graph_flow_row" where
  "normalizeGraphRow row =
     (if \<not> shouldFlipServiceResponse (ep_Port (fr_Src row)) (ep_Port (fr_Dst row)) then row
      else let row' = (if fr_Direction row = ''egress'' then row\<lparr>fr_Connections := 0, fr_Requests := 0\<rparr> else row)
           in row'\<lparr>fr_Src := fr_Dst row, fr_Dst := fr_Src row, fr_BytesSent := fr_BytesReceived row, fr_BytesReceived := fr_BytesSent row\<rparr>)"

definition hideFlow :: "graph_visibility \<Rightarrow> graph_flow_row \<Rightarrow> bool" where
  "hideFlow vis row =
     hiddenByGraphVisibility vis (ep_Port (fr_Src row)) (ep_Port (fr_Dst row)) (ep_IP (fr_Src row)) (ep_IP (fr_Dst row))"

definition vmNode :: "string \<Rightarrow> string \<Rightarrow> string \<Rightarrow> string \<Rightarrow> string \<Rightarrow> string \<Rightarrow> graph_node" where
  "vmNode i name ip status tenant role =
     \<lparr>gn_ID = i, gn_Type = ''vm'', gn_Label = name, gn_IP = ip, gn_Status = status, gn_TenantID = tenant, gn_Role = role,
      TrafficIn = 0, TrafficOut = 0\<rparr>"

definition host_node :: "string \<Rightarrow> string \<Rightarrow> string \<Rightarrow> string \<Rightarrow> graph_node" where
  "host_node i ty ip status =
     \<lparr>gn_ID = i, gn_Type = ty, gn_Label = ip, gn_IP = ip, gn_Status = status, gn_TenantID = [], gn_Role = [],
      TrafficIn = 0, TrafficOut = 0\<rparr>"

definition nodeSafe :: "string \<Rightarrow> string" where
  "nodeSafe s = map (\<lambda>c. if c \<in> {CHR '':'', CHR ''/'', CHR ''%''} then CHR ''_'' else c) s"

definition graphEdgeID :: "string \<Rightarrow> string \<Rightarrow> string \<Rightarrow> string \<Rightarrow> string" where
  "graphEdgeID sourceID targetID protocol scope = sourceID @ ''->'' @ targetID @ '':'' @ protocol @ ''/'' @ scope"

definition preferredGraphPort :: "int \<Rightarrow> int \<Rightarrow> int" where
  "preferredGraphPort current new =
     (if current = 0 then new
      else if isEphemeralPort current \<and> \<not> isEphemeralPort new then new
      else current)"

definition edgeWeight :: "i64 \<Rightarrow> int" where
  "edgeWeight bytes =
     (if bytes \<ge> 100 * 1024 * 1024 then 5
      else if bytes \<ge> 10 * 1024 * 1024 then 4
      else if bytes \<ge> 1024 * 1024 then 3
      else if bytes \<ge> 100 * 1024 then 2
      else 1)"

definition mergeAverageMetric :: "f64 \<Rightarrow> f64 \<Rightarrow> f64" where
  "mergeAverageMetric current new =
     (if new \<le> 0 then current else if current \<le> 0 then new else f64_div (f64_add current new) 2)"

definition visibleVM :: "vm \<Rightarrow> string \<Rightarrow> bool" where
  "visibleVM v requestedStatus =
     (if requestedStatus \<noteq> [] then vw_Status v = requestedStatus else vw_Status v \<noteq> ''deleted'')"

definition vm_listed :: "graph_filter \<Rightarrow> vm \<Rightarrow> bool" where
  "vm_listed f v \<longleftrightarrow>
     \<not> (gf_AgentID f \<noteq> [] \<and> vw_AgentID v \<noteq> gf_AgentID f)
     \<and> \<not> (gf_TenantID f \<noteq> [] \<and> vw_TenantID v \<noteq> gf_TenantID f)
     \<and> \<not> (gf_ProjectID f \<noteq> [] \<and> vw_ProjectID v \<noteq> gf_ProjectID f)
     \<and> \<not> (gf_VMID f \<noteq> [] \<and> ID v \<noteq> gf_VMID f)
     \<and> visibleVM v (gf_Status f)"

type_synonym node_map = "(string \<times> graph_node) list"
type_synonym edge_map = "(string \<times> graph_edge) list"

text \<open>The node of every listed VM, and the identifiers of all VMs.\<close>

definition vm_nodes :: "graph_filter \<Rightarrow> vm list \<Rightarrow> node_map" where
  "vm_nodes f vs =
     foldl (\<lambda>m v. alist_set (ID v) (vmNode (ID v) (vw_Name v) (vw_PrivateIP v) (vw_Status v) (vw_TenantID v) (vw_Role v)) m)
       [] (filter (vm_listed f) vs)"

definition ensure_node :: "graph_node \<Rightarrow> node_map \<Rightarrow> node_map" where
  "ensure_node n m = (case alist_get m (gn_ID n) of None \<Rightarrow> alist_set (gn_ID n) n m | Some _ \<Rightarrow> m)"

definition endpoint_node :: "endpoint \<Rightarrow> graph_node" where
  "endpoint_node e =
     vmNode (ep_VMID e) (valueOr (ep_Name e) (ep_IP e)) (valueOr (ep_PrivateIP e) (ep_IP e)) (valueOr (ep_Status e) ''unknown'')
       (ep_Tenant e) (ep_Role e)"

definition source_node :: "graph_flow_row \<Rightarrow> graph_node" where
  "source_node row =
     (if ep_VMID (fr_Src row) = [] then
        host_node (''unknown-source-'' @ nodeSafe (ep_IP (fr_Src row)))
          (if fr_Scope row = ScopeUnknownInternal \<or> HasPrefix (fr_Scope row) ''internal_'' then ''unknown_internal'' else ''unknown'')
          (ep_IP (fr_Src row)) ''unknown''
      else endpoint_node (fr_Src row))"

definition target_node :: "graph_flow_row \<Rightarrow> graph_node" where
  "target_node row =
     (if ep_VMID (fr_Dst row) \<noteq> [] then endpoint_node (fr_Dst row)
      else if fr_Scope row = ScopeExternalPublic \<or> fr_Scope row = ScopeExternalPrivate
      then host_node (''external-'' @ nodeSafe (ep_IP (fr_Dst row))) ''external'' (ep_IP (fr_Dst row)) ''external''
      else if fr_Scope row = ScopeUnknownInternal
      then host_node (''unknown-internal-'' @ nodeSafe (ep_IP (fr_Dst row))) ''unknown_internal'' (ep_IP (fr_Dst row)) ''unknown''
      else host_node (''unknown-'' @ nodeSafe (ep_IP (fr_Dst row))) ''unknown'' (ep_IP (fr_Dst row)) ''unknown'')"

definition edge_zero :: graph_edge where
  "edge_zero =
     \<lparr>ge_ID = [], ge_Source = [], ge_Target = [], ge_Protocol = [], ge_DstPort = 0, ge_Scope = [], ge_BytesSent = 0,
      ge_BytesReceived = 0, ge_Packets = 0, ge_ConnectionCount = 0, ge_RequestCount = 0, ge_ErrorCount = 0,
      ge_Retransmissions = 0, ge_FirstSeen = 0, ge_LastSeen = 0, ge_LastObservedAt = 0, ge_Active = False, ge_ActiveUntil = 0,
      ge_Failed = False, ge_FailedUntil = 0, ge_LastErrorAt = None, ge_Weight = 0, ge_Kind = [], ge_Reachable = False,
      ge_AvgRTTMs = 0, ge_AvgAppDelayMs = 0, ge_HTTP2xx = 0, ge_HTTP4xx = 0, ge_HTTP5xx = 0, ge_LastHTTPStatus = 0\<rparr>"

definition graphEdgeKindTraffic :: string where [go_const]: "graphEdgeKindTraffic = ''traffic''"
definition graphEdgeKindReachability :: string where [go_const]: "graphEdgeKindReachability = ''reachability''"

definition open_edge :: "string \<Rightarrow> string \<Rightarrow> string \<Rightarrow> graph_flow_row \<Rightarrow> graph_edge option \<Rightarrow> graph_edge" where
  "open_edge edgeID src dst row found =
     (case found of
        None \<Rightarrow> edge_zero\<lparr>ge_ID := edgeID, ge_Source := src, ge_Target := dst, ge_Protocol := fr_Protocol row,
                 ge_DstPort := ep_Port (fr_Dst row), ge_Scope := fr_Scope row, ge_FirstSeen := fr_FirstSeen row,
                 ge_LastSeen := fr_LastSeen row, ge_Kind := graphEdgeKindTraffic\<rparr>
      | Some e \<Rightarrow>
          (let e' = e\<lparr>ge_DstPort := preferredGraphPort (ge_DstPort e) (ep_Port (fr_Dst row))\<rparr>
           in if ge_Kind e' = [] then e'\<lparr>ge_Kind := graphEdgeKindTraffic\<rparr> else e'))"

definition count_row :: "graph_flow_row \<Rightarrow> graph_edge \<Rightarrow> graph_edge" where
  "count_row row e =
     e\<lparr>ge_BytesSent := wrap64 (ge_BytesSent e + fr_BytesSent row), ge_BytesReceived := wrap64 (ge_BytesReceived e + fr_BytesReceived row),
       ge_Packets := wrap64 (ge_Packets e + fr_Packets row), ge_ConnectionCount := wrap64 (ge_ConnectionCount e + fr_Connections row),
       ge_RequestCount := wrap64 (ge_RequestCount e + fr_Requests row), ge_ErrorCount := wrap64 (ge_ErrorCount e + fr_Errors row),
       ge_Retransmissions := wrap64 (ge_Retransmissions e + fr_Retransmits row),
       ge_AvgRTTMs := mergeAverageMetric (ge_AvgRTTMs e) (fr_AvgRTTMs row),
       ge_AvgAppDelayMs := mergeAverageMetric (ge_AvgAppDelayMs e) (fr_AvgAppDelayMs row),
       ge_HTTP2xx := wrap64 (ge_HTTP2xx e + fr_HTTP2xx row), ge_HTTP4xx := wrap64 (ge_HTTP4xx e + fr_HTTP4xx row),
       ge_HTTP5xx := wrap64 (ge_HTTP5xx e + fr_HTTP5xx row)\<rparr>"

definition stamp_row :: "graph_flow_row \<Rightarrow> graph_edge \<Rightarrow> graph_edge" where
  "stamp_row row e =
     e\<lparr>ge_LastHTTPStatus := (if fr_LastHTTPStatus row \<noteq> 0 then fr_LastHTTPStatus row else ge_LastHTTPStatus e),
       ge_LastErrorAt :=
         (case fr_LastErrorAt row of
            None \<Rightarrow> ge_LastErrorAt e
          | Some et \<Rightarrow> (case ge_LastErrorAt e of None \<Rightarrow> Some et | Some old \<Rightarrow> if et > old then Some et else Some old)),
       ge_FirstSeen := (if fr_FirstSeen row < ge_FirstSeen e then fr_FirstSeen row else ge_FirstSeen e),
       ge_LastSeen := (if fr_LastSeen row > ge_LastSeen e then fr_LastSeen row else ge_LastSeen e),
       ge_LastObservedAt := (if fr_ObservedAt row > ge_LastObservedAt e then fr_ObservedAt row else ge_LastObservedAt e),
       ge_Weight := edgeWeight (wrap64 (ge_BytesSent e + ge_BytesReceived e))\<rparr>"

definition add_traffic :: "i64 \<Rightarrow> i64 \<Rightarrow> string \<Rightarrow> node_map \<Rightarrow> node_map" where
  "add_traffic out inn k m =
     (case alist_get m k of
        None \<Rightarrow> m
      | Some n \<Rightarrow> alist_set k (n\<lparr>TrafficOut := wrap64 (TrafficOut n + out), TrafficIn := wrap64 (TrafficIn n + inn)\<rparr>) m)"

definition hidden_vm :: "string list \<Rightarrow> node_map \<Rightarrow> string \<Rightarrow> bool" where
  "hidden_vm registered nodes v \<longleftrightarrow> v \<in> set registered \<and> alist_get nodes v = None"

definition skip_flow :: "graph_visibility \<Rightarrow> string list \<Rightarrow> node_map \<Rightarrow> graph_flow_row \<Rightarrow> bool" where
  "skip_flow vis registered nodes row \<longleftrightarrow>
     hideFlow vis row
     \<or> ep_IP (fr_Src row) = ep_IP (fr_Dst row) \<or> (ep_VMID (fr_Src row) \<noteq> [] \<and> ep_VMID (fr_Src row) = ep_VMID (fr_Dst row))
     \<or> hidden_vm registered nodes (ep_VMID (fr_Src row)) \<or> hidden_vm registered nodes (ep_VMID (fr_Dst row))"

definition flow_edge_id :: "graph_flow_row \<Rightarrow> string" where
  "flow_edge_id row = graphEdgeID (gn_ID (source_node row)) (gn_ID (target_node row)) (fr_Protocol row) (fr_Scope row)"

definition add_row :: "graph_flow_row \<Rightarrow> node_map \<times> edge_map \<Rightarrow> node_map \<times> edge_map" where
  "add_row row st =
     (case st of (nodes, edges) \<Rightarrow>
       let src = source_node row; dst = target_node row;
           nodes1 = ensure_node dst (ensure_node src nodes);
           edgeID = flow_edge_id row;
           edge = stamp_row row (count_row row (open_edge edgeID (gn_ID src) (gn_ID dst) row (alist_get edges edgeID)))
       in (add_traffic (fr_BytesReceived row) (fr_BytesSent row) (gn_ID dst)
             (add_traffic (fr_BytesSent row) (fr_BytesReceived row) (gn_ID src) nodes1),
           alist_set edgeID edge edges))"

definition add_flow :: "graph_visibility \<Rightarrow> string list \<Rightarrow> node_map \<times> edge_map \<Rightarrow> graph_flow_row \<Rightarrow> node_map \<times> edge_map" where
  "add_flow vis registered st raw =
     (let row = normalizeGraphRow raw in if skip_flow vis registered (fst st) row then st else add_row row st)"

text \<open>The edge of a probe: \<open>now\<close> is the time of the request, \<open>window\<close> the active window.\<close>

definition probe_edge :: "string \<Rightarrow> graph_probe_row \<Rightarrow> graph_edge" where
  "probe_edge edgeID row =
     edge_zero\<lparr>ge_ID := edgeID, ge_Source := ep_VMID (pr_Src row), ge_Target := ep_VMID (pr_Dst row), ge_Protocol := pr_Protocol row,
       ge_DstPort := ep_Port (pr_Dst row), ge_Scope := pr_Scope row, ge_FirstSeen := pr_FirstSeen row, ge_LastSeen := pr_LastSeen row,
       ge_LastObservedAt := pr_ObservedAt row, ge_Kind := graphEdgeKindReachability, ge_Reachable := pr_Success row,
       ge_AvgRTTMs := pr_RTTMs row, ge_Weight := 1\<rparr>"

definition merge_probe :: "gotime \<Rightarrow> graph_probe_row \<Rightarrow> graph_edge \<Rightarrow> graph_edge" where
  "merge_probe now row e =
     (let e1 = (if pr_Success row
                then if \<not> ge_Failed e \<and> \<not> ge_FailedUntil e > now
                     then e\<lparr>ge_DstPort := preferredGraphPort (ge_DstPort e) (ep_Port (pr_Dst row))\<rparr> else e
                else e\<lparr>ge_DstPort := ep_Port (pr_Dst row)\<rparr>);
          e2 = (if pr_FirstSeen row < ge_FirstSeen e1 then e1\<lparr>ge_FirstSeen := pr_FirstSeen row\<rparr> else e1);
          e3 = (if pr_LastSeen row > ge_LastSeen e2 then e2\<lparr>ge_LastSeen := pr_LastSeen row\<rparr> else e2);
          e4 = (if pr_ObservedAt row > ge_LastObservedAt e3
                then e3\<lparr>ge_LastObservedAt := pr_ObservedAt row, ge_AvgRTTMs := pr_RTTMs row, ge_Reachable := pr_Success row\<rparr> else e3)
      in e4\<lparr>ge_Kind := graphEdgeKindReachability\<rparr>)"

definition probe_outcome :: "duration \<Rightarrow> graph_probe_row \<Rightarrow> graph_edge \<Rightarrow> graph_edge" where
  "probe_outcome window row e =
     (if pr_Success row then e\<lparr>ge_Reachable := True\<rparr>
      else let e1 = e\<lparr>ge_Failed := True, ge_ErrorCount := wrap64 (ge_ErrorCount e + 1)\<rparr>;
               failedUntil = pr_ObservedAt row + window;
               e2 = (if failedUntil > ge_FailedUntil e1 then e1\<lparr>ge_FailedUntil := failedUntil\<rparr> else e1)
           in if (case ge_LastErrorAt e2 of None \<Rightarrow> True | Some old \<Rightarrow> pr_ObservedAt row > old)
              then e2\<lparr>ge_LastErrorAt := Some (pr_ObservedAt row)\<rparr> else e2)"

definition skip_probe :: "graph_visibility \<Rightarrow> string list \<Rightarrow> node_map \<Rightarrow> graph_probe_row \<Rightarrow> bool" where
  "skip_probe vis registered nodes row \<longleftrightarrow>
     hiddenByGraphIPs vis (ep_IP (pr_Src row)) (ep_IP (pr_Dst row))
     \<or> ep_VMID (pr_Src row) = [] \<or> ep_VMID (pr_Dst row) = [] \<or> ep_VMID (pr_Src row) = ep_VMID (pr_Dst row)
     \<or> ep_IP (pr_Src row) = ep_IP (pr_Dst row)
     \<or> hidden_vm registered nodes (ep_VMID (pr_Src row)) \<or> hidden_vm registered nodes (ep_VMID (pr_Dst row))"

definition probe_edge_id :: "graph_probe_row \<Rightarrow> string" where
  "probe_edge_id row = graphEdgeID (ep_VMID (pr_Src row)) (ep_VMID (pr_Dst row)) (pr_Protocol row) graphEdgeKindReachability"

definition put_probe :: "duration \<Rightarrow> gotime \<Rightarrow> graph_probe_row \<Rightarrow> node_map \<times> edge_map \<Rightarrow> node_map \<times> edge_map" where
  "put_probe window now row st =
     (case st of (nodes, edges) \<Rightarrow>
       let edgeID = probe_edge_id row;
           edge = (case alist_get edges edgeID of None \<Rightarrow> probe_edge edgeID row | Some e \<Rightarrow> merge_probe now row e)
       in (ensure_node (endpoint_node (pr_Dst row)) (ensure_node (endpoint_node (pr_Src row)) nodes),
           alist_set edgeID (probe_outcome window row edge) edges))"

definition add_probe ::
    "graph_visibility \<Rightarrow> duration \<Rightarrow> gotime \<Rightarrow> string list \<Rightarrow> node_map \<times> edge_map \<Rightarrow> graph_probe_row \<Rightarrow> node_map \<times> edge_map" where
  "add_probe vis window now registered st row =
     (if skip_probe vis registered (fst st) row then st else put_probe window now row st)"

definition setEdgeActivity :: "gotime \<Rightarrow> duration \<Rightarrow> graph_edge \<Rightarrow> graph_edge" where
  "setEdgeActivity now window e =
     (let e1 = e\<lparr>ge_ActiveUntil := ge_LastObservedAt e + window, ge_Active := now < ge_LastObservedAt e + window\<rparr>
      in case ge_LastErrorAt e1 of
           Some et \<Rightarrow> if \<not> IsZero et then e1\<lparr>ge_FailedUntil := et + window, ge_Failed := now < et + window\<rparr> else e1
         | None \<Rightarrow> e1)"

text \<open>The last part of \<open>Get\<close>: activity, hiding of idle edges and unconnected hosts, and the order.\<close>

definition finish_graph :: "graph_visibility \<Rightarrow> duration \<Rightarrow> gotime \<Rightarrow> node_map \<times> edge_map \<Rightarrow> graph" where
  "finish_graph vis window now st =
     (let es = filter (\<lambda>e. IncludeIdle vis \<or> ge_Active e) (map (\<lambda>(k, e). setEdgeActivity now window e) (snd st));
          connected = map ge_Source es @ map ge_Target es;
          ns = filter (\<lambda>n. gn_Type n = ''vm'' \<or> gn_ID n \<in> set connected) (map snd (fst st))
      in \<lparr>Nodes = sort_key gn_ID ns, Edges = sort_key ge_ID es\<rparr>)"

definition graph_maps ::
    "graph_visibility \<Rightarrow> duration \<Rightarrow> gotime \<Rightarrow> graph_filter \<Rightarrow> vm list \<Rightarrow> graph_flow_row list \<Rightarrow> graph_probe_row list
     \<Rightarrow> node_map \<times> edge_map" where
  "graph_maps vis window now f vs frows probes =
     foldl (add_probe vis window now (map ID vs)) (foldl (add_flow vis (map ID vs)) (vm_nodes f vs, []) frows) probes"

definition build_graph ::
    "graph_visibility \<Rightarrow> duration \<Rightarrow> gotime \<Rightarrow> graph_filter \<Rightarrow> vm list \<Rightarrow> graph_flow_row list \<Rightarrow> graph_probe_row list \<Rightarrow> graph" where
  "build_graph vis window now f vs frows probes = finish_graph vis window now (graph_maps vis window now f vs frows probes)"

definition graph_Get ::
    "'ip pg \<Rightarrow> ('ip vm_row list \<Rightarrow> 'ip vm_row list) \<Rightarrow> ('ip iface_row list \<Rightarrow> 'ip iface_row list)
     \<Rightarrow> graph_visibility \<Rightarrow> duration \<Rightarrow> gotime \<Rightarrow> gotime \<Rightarrow> graph_filter \<Rightarrow> ('ip tables, service_error, graph) tx" where
  "graph_Get pg by_name by_iface vis window now clock f =
     tx_bind (flow_rows pg now f) (\<lambda>frows.
       tx_bind (connectionProbeRows pg now f) (\<lambda>probes.
         tx_bind (vm_List pg by_name by_iface) (\<lambda>vs.
           tx_return (build_graph vis window clock f vs frows probes))))"

section \<open>The graph is closed\<close>

definition nodes_ok :: "node_map \<Rightarrow> bool" where
  "nodes_ok m \<longleftrightarrow> distinct_keys m \<and> (\<forall>(k, n)\<in>set m. gn_ID n = k)"

definition edge_ok :: "string set \<Rightarrow> string \<Rightarrow> graph_edge \<Rightarrow> bool" where
  "edge_ok K k e \<longleftrightarrow> ge_ID e = k \<and> ge_Source e \<in> K \<and> ge_Target e \<in> K"

definition graph_inv :: "node_map \<times> edge_map \<Rightarrow> bool" where
  "graph_inv st \<longleftrightarrow>
     nodes_ok (fst st) \<and> distinct_keys (snd st) \<and> (\<forall>(k, e)\<in>set (snd st). edge_ok (fst ` set (fst st)) k e)"

lemma open_edge_ids [simp]:
  "ge_ID (open_edge k s d row None) = k" "ge_Source (open_edge k s d row None) = s" "ge_Target (open_edge k s d row None) = d"
  "ge_ID (open_edge k s d row (Some e)) = ge_ID e" "ge_Source (open_edge k s d row (Some e)) = ge_Source e"
  "ge_Target (open_edge k s d row (Some e)) = ge_Target e"
  by (simp_all add: open_edge_def Let_def)

lemma row_ids [simp]:
  "ge_ID (count_row row e) = ge_ID e" "ge_Source (count_row row e) = ge_Source e" "ge_Target (count_row row e) = ge_Target e"
  "ge_ID (stamp_row row e) = ge_ID e" "ge_Source (stamp_row row e) = ge_Source e" "ge_Target (stamp_row row e) = ge_Target e"
  by (simp_all add: count_row_def stamp_row_def)

lemma probe_ids [simp]:
  "ge_ID (probe_edge k row) = k" "ge_Source (probe_edge k row) = ep_VMID (pr_Src row)" "ge_Target (probe_edge k row) = ep_VMID (pr_Dst row)"
  "ge_ID (merge_probe now row e) = ge_ID e" "ge_Source (merge_probe now row e) = ge_Source e" "ge_Target (merge_probe now row e) = ge_Target e"
  "ge_ID (probe_outcome w row e) = ge_ID e" "ge_Source (probe_outcome w row e) = ge_Source e" "ge_Target (probe_outcome w row e) = ge_Target e"
  by (simp_all add: probe_edge_def merge_probe_def probe_outcome_def Let_def split: option.split)

lemma activity_ids [simp]:
  "ge_ID (setEdgeActivity now w e) = ge_ID e" "ge_Source (setEdgeActivity now w e) = ge_Source e"
  "ge_Target (setEdgeActivity now w e) = ge_Target e"
  by (simp_all add: setEdgeActivity_def Let_def split: option.split)

text \<open>Node operations keep the keys and only add to them.\<close>

lemma nodes_ok_set: "nodes_ok m \<Longrightarrow> gn_ID n = k \<Longrightarrow> nodes_ok (alist_set k n m)"
  using set_alist_set [of k n m] by (auto simp: nodes_ok_def)

lemma ensure_node_ok: "nodes_ok m \<Longrightarrow> nodes_ok (ensure_node n m)"
  by (simp add: ensure_node_def nodes_ok_set split: option.split)

lemma ensure_node_keys: "fst ` set (ensure_node n m) = insert (gn_ID n) (fst ` set m)"
  by (auto simp: ensure_node_def keys_alist_set alist_get_None split: option.split dest!: alist_get_in intro: rev_image_eqI)

lemma add_traffic_ok: "nodes_ok m \<Longrightarrow> nodes_ok (add_traffic a b k m)"
proof (cases "alist_get m k")
  case (Some n)
  assume ok: "nodes_ok m"
  then have "gn_ID n = k" using alist_get_in [OF Some] by (auto simp: nodes_ok_def)
  with ok Some show ?thesis by (simp add: add_traffic_def nodes_ok_set)
qed (simp add: add_traffic_def)

lemma add_traffic_keys: "fst ` set (add_traffic a b k m) = fst ` set m"
  by (auto simp: add_traffic_def keys_alist_set split: option.splits dest!: alist_get_in intro: rev_image_eqI)

lemma edge_ok_mono: "edge_ok K k e \<Longrightarrow> K \<subseteq> K' \<Longrightarrow> edge_ok K' k e"
  by (auto simp: edge_ok_def)

lemma graph_inv_set_edge:
  assumes "graph_inv (nodes, edges)" "nodes_ok nodes'" "fst ` set nodes \<subseteq> fst ` set nodes'"
    and e: "edge_ok (fst ` set nodes') k e"
  shows "graph_inv (nodes', alist_set k e edges)"
proof -
  have "edge_ok (fst ` set nodes') k' e'" if mem: "(k', e') \<in> set (alist_set k e edges)" for k' e'
  proof -
    consider "k' = k" "e' = e" | "(k', e') \<in> set edges" using mem set_alist_set [of k e edges] by blast
    then show ?thesis
    proof cases
      case 2
      then have "edge_ok (fst ` set nodes) k' e'" using assms(1) by (auto simp: graph_inv_def)
      then show ?thesis using assms(3) by (rule edge_ok_mono)
    qed (simp add: e)
  qed
  with assms(1,2) show ?thesis by (auto simp: graph_inv_def)
qed

lemma graph_inv_nodes: "graph_inv (nodes, edges) \<Longrightarrow> nodes_ok nodes"
  by (simp add: graph_inv_def)

lemma graph_inv_edge: "graph_inv (nodes, edges) \<Longrightarrow> alist_get edges k = Some e \<Longrightarrow> edge_ok (fst ` set nodes) k e"
  by (auto simp: graph_inv_def dest!: alist_get_in)

lemma add_row_inv:
  assumes "graph_inv st"
  shows "graph_inv (add_row row st)"
proof -
  obtain nodes edges where st: "st = (nodes, edges)" by (cases st)
  let ?s = "source_node row" and ?d = "target_node row" and ?k = "flow_edge_id row"
  let ?n = "add_traffic (fr_BytesReceived row) (fr_BytesSent row) (gn_ID ?d)
      (add_traffic (fr_BytesSent row) (fr_BytesReceived row) (gn_ID ?s) (ensure_node ?d (ensure_node ?s nodes)))"
  let ?e = "stamp_row row (count_row row (open_edge ?k (gn_ID ?s) (gn_ID ?d) row (alist_get edges ?k)))"
  have keys: "fst ` set ?n = insert (gn_ID ?d) (insert (gn_ID ?s) (fst ` set nodes))"
    by (simp add: add_traffic_keys ensure_node_keys)
  have "nodes_ok ?n" using assms st graph_inv_nodes by (intro add_traffic_ok ensure_node_ok) blast
  moreover have "edge_ok (fst ` set ?n) ?k ?e"
    using graph_inv_edge [of nodes edges ?k] assms st unfolding keys by (cases "alist_get edges ?k") (auto simp: edge_ok_def)
  ultimately have "graph_inv (?n, alist_set ?k ?e edges)"
    using assms st keys by (intro graph_inv_set_edge [of nodes]) auto
  then show ?thesis by (simp add: add_row_def st Let_def)
qed

lemma add_flow_inv: "graph_inv st \<Longrightarrow> graph_inv (add_flow vis reg st raw)"
  by (simp add: add_flow_def Let_def add_row_inv)

lemma endpoint_node_ID [simp]: "gn_ID (endpoint_node e) = ep_VMID e"
  by (simp add: endpoint_node_def vmNode_def)

lemma add_probe_inv:
  assumes "graph_inv st"
  shows "graph_inv (add_probe vis w now reg st row)"
proof -
  obtain nodes edges where st: "st = (nodes, edges)" by (cases st)
  let ?k = "graphEdgeID (ep_VMID (pr_Src row)) (ep_VMID (pr_Dst row)) (pr_Protocol row) graphEdgeKindReachability"
  let ?n = "ensure_node (endpoint_node (pr_Dst row)) (ensure_node (endpoint_node (pr_Src row)) nodes)"
  let ?e = "probe_outcome w row (case alist_get edges ?k of None \<Rightarrow> probe_edge ?k row | Some e \<Rightarrow> merge_probe now row e)"
  have keys: "fst ` set ?n = insert (ep_VMID (pr_Dst row)) (insert (ep_VMID (pr_Src row)) (fst ` set nodes))"
    by (simp add: ensure_node_keys)
  have "nodes_ok ?n" using assms st graph_inv_nodes by (intro ensure_node_ok) blast
  moreover have "edge_ok (fst ` set ?n) ?k ?e"
    using graph_inv_edge [of nodes edges ?k] assms st unfolding keys by (cases "alist_get edges ?k") (auto simp: edge_ok_def)
  ultimately have "graph_inv (?n, alist_set ?k ?e edges)"
    using assms st keys by (intro graph_inv_set_edge [of nodes]) auto
  with assms show ?thesis by (simp add: add_probe_def put_probe_def probe_edge_id_def st Let_def)
qed

lemma foldl_inv: "P s \<Longrightarrow> (\<And>s x. P s \<Longrightarrow> P (f s x)) \<Longrightarrow> P (foldl f s xs)"
  by (induction xs arbitrary: s) auto

lemma vm_nodes_ok: "nodes_ok (vm_nodes f vs)"
  unfolding vm_nodes_def by (rule foldl_inv) (auto simp: nodes_ok_def [of "[]"] vmNode_def intro: nodes_ok_set)

lemma built_inv: "graph_inv (graph_maps vis w now f vs frows probes)"
  unfolding graph_maps_def
proof (rule foldl_inv [OF foldl_inv])
  show "graph_inv (vm_nodes f vs, [])" using vm_nodes_ok [of f vs] by (simp add: graph_inv_def)
qed (simp_all add: add_flow_inv add_probe_inv)

text \<open>The order: \<open>sort.Slice\<close> by identifiers that are distinct has one result.\<close>

lemma sorted_ids:
  fixes key :: "'a \<Rightarrow> 'k::linorder"
  assumes "distinct (map key xs)"
  shows "sorted_wrt (<) (map key (sort_key key xs))"
proof -
  have "distinct (map key (sort_key key xs))" using assms by (simp add: distinct_map)
  then show ?thesis by (simp add: strict_sorted_iff)
qed

lemma distinct_part: "map g xs = ys \<Longrightarrow> distinct ys \<Longrightarrow> distinct (map g (filter P xs))"
  using distinct_map_filter [of g xs P] by blast

lemma nodes_ok_ids: "nodes_ok m \<Longrightarrow> map gn_ID (map snd m) = map fst m"
  by (auto simp: nodes_ok_def)

lemma finished_edges:
  assumes "graph_inv st"
  shows "distinct (map ge_ID (filter P (map (\<lambda>(k, e). setEdgeActivity now w e) (snd st))))"
proof -
  have "map ge_ID (map (\<lambda>(k, e). setEdgeActivity now w e) (snd st)) = map fst (snd st)"
    using assms by (auto simp: graph_inv_def edge_ok_def)
  then show ?thesis by (rule distinct_part) (use assms in \<open>simp add: graph_inv_def distinct_keys_def\<close>)
qed

lemma finished_nodes: "nodes_ok m \<Longrightarrow> distinct (map gn_ID (filter P (map snd m)))"
  by (rule distinct_part [OF nodes_ok_ids]) (simp_all add: nodes_ok_def distinct_keys_def)

lemma finished_closed:
  assumes inv: "graph_inv st" and e: "e \<in> set (Edges (finish_graph vis w now st))"
  shows "ge_Source e \<in> gn_ID ` set (Nodes (finish_graph vis w now st))"
    and "ge_Target e \<in> gn_ID ` set (Nodes (finish_graph vis w now st))"
proof -
  let ?es = "filter (\<lambda>e. IncludeIdle vis \<or> ge_Active e) (map (\<lambda>(k, e). setEdgeActivity now w e) (snd st))"
  have es: "e \<in> set ?es" using e by (simp add: finish_graph_def Let_def)
  then obtain k e' where "(k, e') \<in> set (snd st)" "e = setEdgeActivity now w e'" by auto
  then have keys: "ge_Source e \<in> fst ` set (fst st)" "ge_Target e \<in> fst ` set (fst st)"
    using inv by (auto simp: graph_inv_def edge_ok_def)
  have "v \<in> gn_ID ` set (Nodes (finish_graph vis w now st))"
    if v: "v \<in> fst ` set (fst st)" "v \<in> set (map ge_Source ?es @ map ge_Target ?es)" for v
  proof -
    from v obtain n where n: "(v, n) \<in> set (fst st)" by auto
    then have "gn_ID n = v" using inv by (auto simp: graph_inv_def nodes_ok_def)
    with n v show ?thesis unfolding finish_graph_def Let_def by (force intro!: image_eqI [where x = n])
  qed
  then show "ge_Source e \<in> gn_ID ` set (Nodes (finish_graph vis w now st))"
    and "ge_Target e \<in> gn_ID ` set (Nodes (finish_graph vis w now st))" using keys es by auto
qed

text \<open>A listed machine keeps its node.\<close>

definition vm_at :: "string \<Rightarrow> node_map \<Rightarrow> bool" where
  "vm_at k m \<longleftrightarrow> (case alist_get m k of Some n \<Rightarrow> gn_Type n = ''vm'' | None \<Rightarrow> False)"

lemma get_ensure_node:
  "alist_get (ensure_node n m) k = (if k = gn_ID n \<and> alist_get m k = None then Some n else alist_get m k)"
  by (auto simp: ensure_node_def alist_get_set split: option.split)

lemma get_add_traffic:
  "alist_get (add_traffic out inn i m) k =
     (if k = i then map_option (\<lambda>n. n\<lparr>TrafficOut := wrap64 (TrafficOut n + out), TrafficIn := wrap64 (TrafficIn n + inn)\<rparr>)
        (alist_get m k) else alist_get m k)"
  by (simp add: add_traffic_def alist_get_set split: option.split)

lemma vm_at_ensure: "vm_at k m \<Longrightarrow> vm_at k (ensure_node n m)"
  by (simp add: vm_at_def get_ensure_node split: option.splits)

lemma vm_at_traffic: "vm_at k m \<Longrightarrow> vm_at k (add_traffic a b i m)"
  by (auto simp: vm_at_def get_add_traffic split: option.splits)

lemma vm_at_flow: "vm_at k (fst st) \<Longrightarrow> vm_at k (fst (add_flow vis reg st raw))"
  by (cases st) (simp add: add_flow_def add_row_def Let_def vm_at_traffic vm_at_ensure)

lemma vm_at_probe: "vm_at k (fst st) \<Longrightarrow> vm_at k (fst (add_probe vis w now reg st row))"
  by (cases st) (simp add: add_probe_def put_probe_def probe_edge_id_def Let_def vm_at_ensure)

lemma vm_at_set: "gn_Type n = ''vm'' \<Longrightarrow> vm_at k m \<or> k = i \<Longrightarrow> vm_at k (alist_set i n m)"
  by (auto simp: vm_at_def alist_get_set)

lemma vm_at_vm_nodes:
  assumes "v \<in> set vs" "vm_listed f v"
  shows "vm_at (ID v) (vm_nodes f vs)"
proof -
  let ?step = "\<lambda>m v. alist_set (ID v) (vmNode (ID v) (vw_Name v) (vw_PrivateIP v) (vw_Status v) (vw_TenantID v) (vw_Role v)) m"
  obtain us ws where split: "filter (vm_listed f) vs = us @ v # ws" using assms split_list [of v "filter (vm_listed f) vs"] by auto
  have "vm_at (ID v) (foldl ?step (?step (foldl ?step [] us) v) ws)"
    by (rule foldl_inv) (simp_all add: vm_at_set vmNode_def)
  then show ?thesis by (simp add: vm_nodes_def split)
qed

lemma built_vm:
  assumes "v \<in> set vs" "vm_listed f v"
  shows "vm_at (ID v) (fst (graph_maps vis w now f vs frows probes))"
  unfolding graph_maps_def
  by (rule foldl_inv [where P = "\<lambda>s. vm_at (ID v) (fst s)", OF foldl_inv [where P = "\<lambda>s. vm_at (ID v) (fst s)"]])
     (simp_all add: assms vm_at_vm_nodes vm_at_flow vm_at_probe)

lemma finished_vm:
  assumes "graph_inv st" "vm_at k (fst st)"
  shows "k \<in> gn_ID ` set (Nodes (finish_graph vis w now st))"
proof -
  obtain n where get: "alist_get (fst st) k = Some n" and ty: "gn_Type n = ''vm''"
    using assms(2) by (auto simp: vm_at_def split: option.splits)
  then have n: "(k, n) \<in> set (fst st)" by (simp add: alist_get_in)
  then have "gn_ID n = k" using assms(1) by (auto simp: graph_inv_def nodes_ok_def)
  then show ?thesis using n ty unfolding finish_graph_def Let_def by (force intro!: image_eqI [where x = n])
qed

text \<open>
  C16. The graph a request gets is well formed whatever the rows of the database: nodes and
  edges are listed once, in the order of their identifiers; both ends of every edge are listed
  nodes; every machine that matches the filter is there, even without traffic; a node that is
  not a machine is there only as the end of an edge; and unless idle edges are requested every
  edge was observed within the active window.
\<close>

theorem graph_closed_sorted:
  "let g = build_graph vis window now f vs frows probes in
     sorted_wrt (<) (map gn_ID (Nodes g)) \<and> sorted_wrt (<) (map ge_ID (Edges g))
     \<and> ge_Source ` set (Edges g) \<union> ge_Target ` set (Edges g) \<subseteq> gn_ID ` set (Nodes g)
     \<and> ID ` set (filter (vm_listed f) vs) \<subseteq> gn_ID ` set (Nodes g)
     \<and> gn_ID ` set (filter (\<lambda>n. gn_Type n \<noteq> ''vm'') (Nodes g)) \<subseteq> ge_Source ` set (Edges g) \<union> ge_Target ` set (Edges g)
     \<and> set (Edges g) \<subseteq> {e. IncludeIdle vis \<or> now < ge_LastObservedAt e + window}"
proof -
  define st where "st = graph_maps vis window now f vs frows probes"
  have inv: "graph_inv st" unfolding st_def by (rule built_inv)
  let ?g = "finish_graph vis window now st"
  have g: "build_graph vis window now f vs frows probes = ?g" by (simp add: build_graph_def st_def)
  have "sorted_wrt (<) (map gn_ID (Nodes ?g))"
    using inv by (simp add: finish_graph_def Let_def sorted_ids finished_nodes graph_inv_def)
  moreover have "sorted_wrt (<) (map ge_ID (Edges ?g))"
    using inv by (simp add: finish_graph_def Let_def sorted_ids finished_edges)
  moreover have "ge_Source ` set (Edges ?g) \<union> ge_Target ` set (Edges ?g) \<subseteq> gn_ID ` set (Nodes ?g)"
    using finished_closed [OF inv] by auto
  moreover have "ID ` set (filter (vm_listed f) vs) \<subseteq> gn_ID ` set (Nodes ?g)"
    using finished_vm [OF inv] built_vm [of _ vs f vis window now frows probes] by (auto simp: st_def)
  moreover have "gn_ID ` set (filter (\<lambda>n. gn_Type n \<noteq> ''vm'') (Nodes ?g)) \<subseteq> ge_Source ` set (Edges ?g) \<union> ge_Target ` set (Edges ?g)"
    by (auto simp: finish_graph_def Let_def)
  moreover have "set (Edges ?g) \<subseteq> {e. IncludeIdle vis \<or> now < ge_LastObservedAt e + window}"
    by (auto simp: finish_graph_def Let_def setEdgeActivity_def split: option.splits if_splits)
  ultimately show ?thesis unfolding g Let_def by blast
qed

section \<open>The totals of edges and nodes\<close>

text \<open>
  Go's 64-bit counters that a fold adds to, as an interface: an element that touches counter
  \<open>k\<close> adds its contribution with wrap-around, any other leaves it as it is.
\<close>

locale wrapped_counter =
  fixes step :: "'s \<Rightarrow> 'e \<Rightarrow> 's"
    and counter :: "'k \<Rightarrow> 's \<Rightarrow> i64"
    and touches :: "'k \<Rightarrow> 'e \<Rightarrow> bool"
    and contrib :: "'k \<Rightarrow> 'e \<Rightarrow> i64"
  assumes counter_step: "counter k (step s x) = (if touches k x then wrap64 (counter k s + contrib k x) else counter k s)"
begin

lemma counter_fold:
  assumes "in_i64 (counter k s)"
  shows "counter k (foldl step s xs) = wrap64 (counter k s + (\<Sum>x\<leftarrow>filter (touches k) xs. contrib k x))"
  using assms by (induction xs arbitrary: s) (simp_all add: counter_step add.assoc)

lemma counter_fold_zero:
  "counter k s = 0 \<Longrightarrow> counter k (foldl step s xs) = wrap64 (\<Sum>x\<leftarrow>filter (touches k) xs. contrib k x)"
  using counter_fold [of k s xs] by (simp add: in_i64_def)

end

datatype counter = CBytesSent | CBytesReceived | CPackets | CConnections | CRequests | CErrors | CRetransmits | C2xx | C4xx | C5xx

fun edge_counter :: "counter \<Rightarrow> graph_edge \<Rightarrow> i64" where
  "edge_counter CBytesSent e = ge_BytesSent e"
| "edge_counter CBytesReceived e = ge_BytesReceived e"
| "edge_counter CPackets e = ge_Packets e"
| "edge_counter CConnections e = ge_ConnectionCount e"
| "edge_counter CRequests e = ge_RequestCount e"
| "edge_counter CErrors e = ge_ErrorCount e"
| "edge_counter CRetransmits e = ge_Retransmissions e"
| "edge_counter C2xx e = ge_HTTP2xx e"
| "edge_counter C4xx e = ge_HTTP4xx e"
| "edge_counter C5xx e = ge_HTTP5xx e"

fun row_counter :: "counter \<Rightarrow> graph_flow_row \<Rightarrow> i64" where
  "row_counter CBytesSent r = fr_BytesSent r"
| "row_counter CBytesReceived r = fr_BytesReceived r"
| "row_counter CPackets r = fr_Packets r"
| "row_counter CConnections r = fr_Connections r"
| "row_counter CRequests r = fr_Requests r"
| "row_counter CErrors r = fr_Errors r"
| "row_counter CRetransmits r = fr_Retransmits r"
| "row_counter C2xx r = fr_HTTP2xx r"
| "row_counter C4xx r = fr_HTTP4xx r"
| "row_counter C5xx r = fr_HTTP5xx r"

definition edge_at :: "counter \<times> string \<Rightarrow> node_map \<times> edge_map \<Rightarrow> i64" where
  "edge_at ck st = (case alist_get (snd st) (snd ck) of Some e \<Rightarrow> edge_counter (fst ck) e | None \<Rightarrow> 0)"

lemma edge_counter_row:
  "edge_counter c (stamp_row row (count_row row (open_edge k s d row found))) =
     wrap64 ((case found of Some e \<Rightarrow> edge_counter c e | None \<Rightarrow> 0) + row_counter c row)"
  by (cases c; cases found) (simp_all add: stamp_row_def count_row_def open_edge_def edge_zero_def Let_def)

lemma edge_counter_activity [simp]: "edge_counter c (setEdgeActivity now w e) = edge_counter c e"
  by (cases c) (simp_all add: setEdgeActivity_def Let_def split: option.split)

lemma edge_counter_probe:
  "edge_counter c (probe_outcome w row e) = (if c = CErrors \<and> \<not> pr_Success row then wrap64 (edge_counter c e + 1) else edge_counter c e)"
  "edge_counter c (merge_probe now row e) = edge_counter c e"
  "edge_counter c (probe_edge k row) = 0"
  by (cases c; simp add: probe_outcome_def merge_probe_def probe_edge_def edge_zero_def Let_def split: option.split)+

interpretation ec: wrapped_counter "\<lambda>st row. add_row row st" edge_at "\<lambda>ck row. flow_edge_id row = snd ck" "\<lambda>ck. row_counter (fst ck)"
  by unfold_locales
     (auto simp: edge_at_def add_row_def Let_def alist_get_set edge_counter_row split: prod.split)

text \<open>What a row adds to the traffic of a node: it may be the source, the target or both.\<close>

definition row_out :: "string \<Rightarrow> graph_flow_row \<Rightarrow> i64" where
  "row_out k row = (if gn_ID (source_node row) = k then fr_BytesSent row else 0)
                 + (if gn_ID (target_node row) = k then fr_BytesReceived row else 0)"

definition row_in :: "string \<Rightarrow> graph_flow_row \<Rightarrow> i64" where
  "row_in k row = (if gn_ID (source_node row) = k then fr_BytesReceived row else 0)
                + (if gn_ID (target_node row) = k then fr_BytesSent row else 0)"

definition out_at :: "string \<Rightarrow> node_map \<times> edge_map \<Rightarrow> i64" where
  "out_at k st = (case alist_get (fst st) k of Some n \<Rightarrow> TrafficOut n | None \<Rightarrow> 0)"

definition in_at :: "string \<Rightarrow> node_map \<times> edge_map \<Rightarrow> i64" where
  "in_at k st = (case alist_get (fst st) k of Some n \<Rightarrow> TrafficIn n | None \<Rightarrow> 0)"

definition touches_node :: "string \<Rightarrow> graph_flow_row \<Rightarrow> bool" where
  "touches_node k row \<longleftrightarrow> gn_ID (source_node row) = k \<or> gn_ID (target_node row) = k"

lemma fresh_traffic [simp]:
  "TrafficOut (source_node row) = 0" "TrafficIn (source_node row) = 0"
  "TrafficOut (target_node row) = 0" "TrafficIn (target_node row) = 0"
  "TrafficOut (endpoint_node e) = 0" "TrafficIn (endpoint_node e) = 0"
  by (simp_all add: source_node_def target_node_def endpoint_node_def vmNode_def host_node_def)

lemma get_add_row:
  "alist_get (fst (add_row row st)) k =
     (let base = alist_get (ensure_node (target_node row) (ensure_node (source_node row) (fst st))) k
      in if touches_node k row
         then map_option (\<lambda>n. n\<lparr>TrafficOut := wrap64 (TrafficOut n + row_out k row), TrafficIn := wrap64 (TrafficIn n + row_in k row)\<rparr>) base
         else base)"
  by (cases st) (auto simp: add_row_def Let_def get_add_traffic touches_node_def row_out_def row_in_def option.map_comp comp_def ac_simps)

interpretation nout: wrapped_counter "\<lambda>st row. add_row row st" out_at touches_node row_out
  by unfold_locales (auto simp: out_at_def get_add_row Let_def touches_node_def get_ensure_node split: option.splits)

interpretation nin: wrapped_counter "\<lambda>st row. add_row row st" in_at touches_node row_in
  by unfold_locales (auto simp: in_at_def get_add_row Let_def touches_node_def get_ensure_node split: option.splits)

text \<open>Probes count only as errors of their edge, when they failed; then the start state.\<close>

interpretation ep: wrapped_counter "\<lambda>st row. put_probe w now row st" edge_at
  "\<lambda>ck row. probe_edge_id row = snd ck \<and> fst ck = CErrors \<and> \<not> pr_Success row" "\<lambda>ck row. 1" for w now
  by unfold_locales
     (auto simp: edge_at_def put_probe_def Let_def alist_get_set edge_counter_probe edge_counter_probe(2,3) [of CErrors, simplified]
       split: prod.split option.split)

lemma probe_keeps_traffic:
  "out_at k (put_probe w now row st) = out_at k st"
  "in_at k (put_probe w now row st) = in_at k st"
  by (cases st; auto simp: out_at_def in_at_def put_probe_def Let_def get_ensure_node split: option.splits)+

lemma probes_keep_traffic:
  "out_at k (foldl (\<lambda>st row. put_probe w now row st) st probes) = out_at k st"
  "in_at k (foldl (\<lambda>st row. put_probe w now row st) st probes) = in_at k st"
  by (induction probes arbitrary: st) (simp_all add: probe_keeps_traffic)

lemma vm_nodes_silent: "out_at k (vm_nodes f vs, es) = 0 \<and> in_at k (vm_nodes f vs, es) = 0"
  unfolding vm_nodes_def
  by (rule foldl_inv [where P = "\<lambda>m. out_at k (m, es) = 0 \<and> in_at k (m, es) = 0"])
     (auto simp: out_at_def in_at_def alist_get_set vmNode_def)

text \<open>
  Which rows are shown does not depend on the order of the rows: the machine of an endpoint has
  to match the filter when it is registered. Identifiers of machines have to differ from those
  made up for hosts, which begin with \<open>unknown-\<close> or \<open>external-\<close>.
\<close>

definition machine_ids_plain :: "vm list \<Rightarrow> bool" where
  "machine_ids_plain vs = list_all (\<lambda>v. \<not> HasPrefix (ID v) ''unknown-'' \<and> \<not> HasPrefix (ID v) ''external-'') vs"

definition vm_shown :: "graph_filter \<Rightarrow> vm list \<Rightarrow> string \<Rightarrow> bool" where
  "vm_shown f vs v \<longleftrightarrow> v \<notin> ID ` set vs \<or> v \<in> ID ` set (filter (vm_listed f) vs)"

definition row_shown :: "graph_visibility \<Rightarrow> graph_filter \<Rightarrow> vm list \<Rightarrow> graph_flow_row \<Rightarrow> bool" where
  "row_shown vis f vs row \<longleftrightarrow>
     \<not> hideFlow vis row \<and> ep_IP (fr_Src row) \<noteq> ep_IP (fr_Dst row)
     \<and> \<not> (ep_VMID (fr_Src row) \<noteq> [] \<and> ep_VMID (fr_Src row) = ep_VMID (fr_Dst row))
     \<and> vm_shown f vs (ep_VMID (fr_Src row)) \<and> vm_shown f vs (ep_VMID (fr_Dst row))"

definition shown_rows :: "graph_visibility \<Rightarrow> graph_filter \<Rightarrow> vm list \<Rightarrow> graph_flow_row list \<Rightarrow> graph_flow_row list" where
  "shown_rows vis f vs raws = filter (row_shown vis f vs) (map normalizeGraphRow raws)"

definition probe_shown :: "graph_visibility \<Rightarrow> graph_filter \<Rightarrow> vm list \<Rightarrow> graph_probe_row \<Rightarrow> bool" where
  "probe_shown vis f vs row \<longleftrightarrow>
     \<not> hiddenByGraphIPs vis (ep_IP (pr_Src row)) (ep_IP (pr_Dst row))
     \<and> ep_VMID (pr_Src row) \<noteq> [] \<and> ep_VMID (pr_Dst row) \<noteq> [] \<and> ep_VMID (pr_Src row) \<noteq> ep_VMID (pr_Dst row)
     \<and> ep_IP (pr_Src row) \<noteq> ep_IP (pr_Dst row)
     \<and> vm_shown f vs (ep_VMID (pr_Src row)) \<and> vm_shown f vs (ep_VMID (pr_Dst row))"

text \<open>The failed probes that fall on an edge.\<close>

definition failed_probes :: "graph_visibility \<Rightarrow> graph_filter \<Rightarrow> vm list \<Rightarrow> graph_probe_row list \<Rightarrow> string \<Rightarrow> graph_probe_row list" where
  "failed_probes vis f vs probes k = filter (\<lambda>r. probe_shown vis f vs r \<and> probe_edge_id r = k \<and> \<not> pr_Success r) probes"

definition machines_listed :: "graph_filter \<Rightarrow> vm list \<Rightarrow> node_map \<Rightarrow> bool" where
  "machines_listed f vs nodes \<longleftrightarrow> fst ` set nodes \<inter> ID ` set vs = ID ` set (filter (vm_listed f) vs)"

lemma vm_nodes_keys: "fst ` set (vm_nodes f vs) = ID ` set (filter (vm_listed f) vs)"
proof -
  have "fst ` set (foldl (\<lambda>m v. alist_set (ID v) (g v) m) m us) = fst ` set m \<union> ID ` set us"
    for g :: "vm \<Rightarrow> graph_node" and m us by (induction us arbitrary: m) (auto simp: keys_alist_set)
  then show ?thesis by (simp add: vm_nodes_def)
qed

lemma hidden_vm_shown:
  "machines_listed f vs nodes \<Longrightarrow> hidden_vm (map ID vs) nodes v \<longleftrightarrow> \<not> vm_shown f vs v"
  by (auto simp: hidden_vm_def vm_shown_def machines_listed_def alist_get_None)

lemma skip_shown:
  assumes "machines_listed f vs nodes"
  shows "skip_flow vis (map ID vs) nodes row \<longleftrightarrow> \<not> row_shown vis f vs row"
    and "skip_probe vis (map ID vs) nodes probe \<longleftrightarrow> \<not> probe_shown vis f vs probe"
  by (auto simp: skip_flow_def row_shown_def skip_probe_def probe_shown_def hidden_vm_shown [OF assms])

lemma add_row_keys:
  "fst ` set (fst (add_row row st)) = insert (gn_ID (target_node row)) (insert (gn_ID (source_node row)) (fst ` set (fst st)))"
  by (cases st) (simp add: add_row_def Let_def add_traffic_keys ensure_node_keys)

lemma source_node_key:
  "gn_ID (source_node row) = ep_VMID (fr_Src row) \<or> HasPrefix (gn_ID (source_node row)) ''unknown-''"
  by (simp add: source_node_def host_node_def)

lemma target_node_key:
  "gn_ID (target_node row) = ep_VMID (fr_Dst row)
   \<or> HasPrefix (gn_ID (target_node row)) ''unknown-'' \<or> HasPrefix (gn_ID (target_node row)) ''external-''"
  by (simp add: target_node_def host_node_def)

lemma machine_id_plain:
  "machine_ids_plain vs \<Longrightarrow> v \<in> ID ` set vs \<Longrightarrow> \<not> HasPrefix v ''unknown-'' \<and> \<not> HasPrefix v ''external-''"
  unfolding machine_ids_plain_def list_all_iff by blast

lemma add_row_listed:
  assumes "machine_ids_plain vs" "machines_listed f vs (fst st)" "row_shown vis f vs row"
  shows "machines_listed f vs (fst (add_row row st))"
proof -
  have src: "vm_shown f vs (gn_ID (source_node row))"
    using source_node_key [of row] machine_id_plain [OF assms(1)] assms(3) unfolding row_shown_def vm_shown_def by metis
  have dst: "vm_shown f vs (gn_ID (target_node row))"
    using target_node_key [of row] machine_id_plain [OF assms(1)] assms(3) unfolding row_shown_def vm_shown_def by metis
  show ?thesis using assms(2) src dst unfolding machines_listed_def add_row_keys vm_shown_def by blast
qed

lemma flows_as_shown_rows:
  assumes "machine_ids_plain vs" "machines_listed f vs (fst st)"
  shows "foldl (add_flow vis (map ID vs)) st raws = foldl (\<lambda>st row. add_row row st) st (shown_rows vis f vs raws)"
  using assms(2)
proof (induction raws arbitrary: st)
  case (Cons raw raws)
  have "add_flow vis (map ID vs) st raw =
      (if row_shown vis f vs (normalizeGraphRow raw) then add_row (normalizeGraphRow raw) st else st)"
    using skip_shown(1) [OF Cons.prems] by (simp add: add_flow_def Let_def)
  with Cons add_row_listed [OF assms(1)] show ?case by (simp add: shown_rows_def)
qed (simp add: shown_rows_def)

lemma flows_keep_listed:
  assumes "machine_ids_plain vs" "machines_listed f vs (fst st)"
  shows "machines_listed f vs (fst (foldl (add_flow vis (map ID vs)) st raws))"
  using assms(2)
proof (induction raws arbitrary: st)
  case (Cons raw raws)
  then show ?case
    using skip_shown(1) [OF Cons.prems] add_row_listed [OF assms(1) Cons.prems] by (simp add: add_flow_def Let_def)
qed simp

lemma put_probe_listed:
  assumes "machines_listed f vs (fst st)" "probe_shown vis f vs row"
  shows "machines_listed f vs (fst (put_probe w now row st))"
proof -
  have keys: "fst ` set (fst (put_probe w now row st)) =
      insert (ep_VMID (pr_Dst row)) (insert (ep_VMID (pr_Src row)) (fst ` set (fst st)))"
    by (cases st) (simp add: put_probe_def Let_def ensure_node_keys endpoint_node_def vmNode_def)
  have src: "vm_shown f vs (ep_VMID (pr_Src row))" and dst: "vm_shown f vs (ep_VMID (pr_Dst row))"
    using assms(2) by (simp_all add: probe_shown_def)
  show ?thesis using assms(1) src dst unfolding machines_listed_def keys vm_shown_def by blast
qed

lemma probes_as_shown:
  assumes "machines_listed f vs (fst st)"
  shows "foldl (add_probe vis w now (map ID vs)) st probes
    = foldl (\<lambda>st row. put_probe w now row st) st (filter (probe_shown vis f vs) probes)"
  using assms
proof (induction probes arbitrary: st)
  case (Cons probe probes)
  then show ?case
    using skip_shown(2) [OF Cons.prems] put_probe_listed [OF Cons.prems] by (simp add: add_probe_def)
qed simp

lemma built_totals:
  fixes vis w now f frows probes
  assumes "machine_ids_plain vs"
  defines "st \<equiv> graph_maps vis w now f vs frows probes"
  shows "edge_at (c, k) st = wrap64 ((\<Sum>r\<leftarrow>filter (\<lambda>r. flow_edge_id r = k) (shown_rows vis f vs frows). row_counter c r)
      + (if c = CErrors then int (length (failed_probes vis f vs probes k)) else 0))"
    and "out_at k st = wrap64 (\<Sum>r\<leftarrow>filter (touches_node k) (shown_rows vis f vs frows). row_out k r)"
    and "in_at k st = wrap64 (\<Sum>r\<leftarrow>filter (touches_node k) (shown_rows vis f vs frows). row_in k r)"
proof -
  have listed: "machines_listed f vs (vm_nodes f vs)" by (auto simp: machines_listed_def vm_nodes_keys)
  define mid where "mid = foldl (\<lambda>st row. add_row row st) (vm_nodes f vs, []) (shown_rows vis f vs frows)"
  have rows: "foldl (add_flow vis (map ID vs)) (vm_nodes f vs, []) frows = mid"
    using flows_as_shown_rows [OF assms(1), of f "(vm_nodes f vs, [])"] listed by (simp add: mid_def)
  have "machines_listed f vs (fst mid)"
    using flows_keep_listed [OF assms(1), of f "(vm_nodes f vs, [])" vis frows] listed by (simp add: rows)
  then have st: "st = foldl (\<lambda>st row. put_probe w now row st) mid (filter (probe_shown vis f vs) probes)"
    by (simp add: st_def graph_maps_def rows probes_as_shown)
  have mid_edge: "edge_at (c, k) mid = wrap64 (\<Sum>r\<leftarrow>filter (\<lambda>r. flow_edge_id r = k) (shown_rows vis f vs frows). row_counter c r)"
    using ec.counter_fold_zero [of "(c, k)" "(vm_nodes f vs, [])" "shown_rows vis f vs frows"]
    by (simp add: mid_def edge_at_def [of _ "(vm_nodes f vs, [])"])
  then have "in_i64 (edge_at (c, k) mid)" by simp
  from ep.counter_fold [OF this, of w now "filter (probe_shown vis f vs) probes"]
  show "edge_at (c, k) st = wrap64 ((\<Sum>r\<leftarrow>filter (\<lambda>r. flow_edge_id r = k) (shown_rows vis f vs frows). row_counter c r)
      + (if c = CErrors then int (length (failed_probes vis f vs probes k)) else 0))"
    using mid_edge by (cases "c = CErrors") (simp_all add: st failed_probes_def sum_list_triv conj_comms)
  show "out_at k st = wrap64 (\<Sum>r\<leftarrow>filter (touches_node k) (shown_rows vis f vs frows). row_out k r)"
    using vm_nodes_silent by (simp add: st probes_keep_traffic mid_def nout.counter_fold_zero)
  show "in_at k st = wrap64 (\<Sum>r\<leftarrow>filter (touches_node k) (shown_rows vis f vs frows). row_in k r)"
    using vm_nodes_silent by (simp add: st probes_keep_traffic mid_def nin.counter_fold_zero)
qed

lemma finished_edge:
  assumes "graph_inv st" "e \<in> set (Edges (finish_graph vis w now st))"
  shows "edge_counter c e = edge_at (c, ge_ID e) st"
proof -
  obtain k e' where mem: "(k, e') \<in> set (snd st)" and e: "e = setEdgeActivity now w e'"
    using assms(2) by (auto simp: finish_graph_def Let_def)
  have "ge_ID e' = k" using assms(1) mem by (auto simp: graph_inv_def edge_ok_def)
  moreover have "alist_get (snd st) k = Some e'" using assms(1) mem by (simp add: graph_inv_def alist_get_distinct)
  ultimately show ?thesis by (simp add: e edge_at_def)
qed

lemma finished_node:
  assumes "graph_inv st" "n \<in> set (Nodes (finish_graph vis w now st))"
  shows "TrafficOut n = out_at (gn_ID n) st" "TrafficIn n = in_at (gn_ID n) st"
proof -
  obtain k where mem: "(k, n) \<in> set (fst st)" using assms(2) by (auto simp: finish_graph_def Let_def)
  have "gn_ID n = k" using assms(1) mem by (auto simp: graph_inv_def nodes_ok_def)
  moreover have "alist_get (fst st) k = Some n" using assms(1) mem by (simp add: graph_inv_def nodes_ok_def alist_get_distinct)
  ultimately show "TrafficOut n = out_at (gn_ID n) st" "TrafficIn n = in_at (gn_ID n) st" by (simp_all add: out_at_def in_at_def)
qed

text \<open>
  C15. The numbers of the graph are the sums of what it shows. Provided no machine has an
  identifier that begins with \<open>unknown-\<close> or \<open>external-\<close> (the backend gives them
  identifiers that begin with \<open>vm-\<close>), every one of the ten counters of an edge is the sum, with the wrap-around of a 64-bit counter, over
  the shown rows of that edge, to which the error count adds one for every shown probe of the
  edge that failed; and the traffic of a node is the sum over the shown rows it takes part in,
  as source or as target. Which rows and probes are shown is decided for each on its own: hidden
  ports and addresses, a machine with itself, and machines the filter leaves out are not.
\<close>

theorem graph_totals:
  assumes "machine_ids_plain vs"
    and "e \<in> set (Edges (build_graph vis window now f vs frows probes))"
    and "n \<in> set (Nodes (build_graph vis window now f vs frows probes))"
  shows "edge_counter c e = wrap64 ((\<Sum>r\<leftarrow>filter (\<lambda>r. flow_edge_id r = ge_ID e) (shown_rows vis f vs frows). row_counter c r)
        + (if c = CErrors then int (length (failed_probes vis f vs probes (ge_ID e))) else 0))
    \<and> TrafficOut n = wrap64 (\<Sum>r\<leftarrow>filter (touches_node (gn_ID n)) (shown_rows vis f vs frows). row_out (gn_ID n) r)
    \<and> TrafficIn n = wrap64 (\<Sum>r\<leftarrow>filter (touches_node (gn_ID n)) (shown_rows vis f vs frows). row_in (gn_ID n) r)"
  using assms finished_edge [OF built_inv, of e vis window now] finished_node [OF built_inv, of n vis window now]
  by (simp add: build_graph_def built_totals)

definition example_vm :: "string \<Rightarrow> string \<Rightarrow> vm" where
  "example_vm i ip =
     \<lparr>ID = i, vw_Name = i, vw_Type = [], vw_TenantID = [], vw_ProjectID = [], vw_Region = [], vw_Zone = [], vw_PrivateIP = ip,
      vw_PublicIP = [], vw_NetworkID = [], vw_SubnetID = [], vw_MACAddress = [], vw_HostID = [], vw_Role = [], vw_Environment = [],
      vw_Owner = [], vw_DiscoveredBy = ''agent'', vw_AgentID = i, vw_MachineID = [], vw_Status = ''online'', vw_FirstSeen = 0,
      vw_LastSeen = 0, vw_CreatedAt = 0, vw_Interfaces = []\<rparr>"

definition example_row :: "string \<Rightarrow> string \<Rightarrow> int \<Rightarrow> string \<Rightarrow> string \<Rightarrow> int \<Rightarrow> i64 \<Rightarrow> i64 \<Rightarrow> graph_flow_row" where
  "example_row a ipa pa b ipb pb sent received =
     (let ep = \<lambda>v ip port. \<lparr>ep_VMID = v, ep_IP = ip, ep_Port = port, ep_Name = v, ep_Tenant = [], ep_PrivateIP = ip,
                ep_Status = ''online'', ep_Role = [], ep_AgentID = v\<rparr>
      in \<lparr>fr_AgentID = a, fr_Src = ep a ipa pa, fr_Dst = ep b ipb pb, fr_Protocol = ''tcp'', fr_Direction = ''egress'',
          fr_Scope = ''internal_same_tenant'', fr_BytesSent = sent, fr_BytesReceived = received, fr_Packets = 1,
          fr_Connections = 1, fr_Requests = 1, fr_Errors = 0, fr_Retransmits = 0, fr_AvgRTTMs = 0, fr_AvgAppDelayMs = 0,
          fr_HTTP2xx = 0, fr_HTTP4xx = 0, fr_HTTP5xx = 0, fr_LastHTTPStatus = 0, fr_FirstSeen = 1, fr_LastSeen = 2,
          fr_ObservedAt = 3, fr_LastErrorAt = None\<rparr>)"

definition example_filter :: graph_filter where
  "example_filter = \<lparr>gf_AgentID = [], gf_TenantID = [], gf_ProjectID = [], gf_VMID = [], gf_Scope = [], gf_Protocol = [],
     gf_Port = 0, gf_TimeRange = 0, gf_MinBytes = 0, gf_Status = []\<rparr>"

definition example_visibility :: graph_visibility where
  "example_visibility = \<lparr>ExcludedPorts = [], AllowedPorts = [], ExcludedIPs = [], IncludeIdle = False\<rparr>"

definition example_rows :: "graph_flow_row list" where
  "example_rows =
     [example_row ''a'' ''10.0.0.1'' 50000 ''b'' ''10.0.0.2'' 443 300 40,
      example_row ''b'' ''10.0.0.2'' 443 ''a'' ''10.0.0.1'' 50001 7 50]"

definition example_graph :: graph where
  "example_graph =
     build_graph example_visibility 10 5 example_filter [example_vm ''a'' ''10.0.0.1'', example_vm ''b'' ''10.0.0.2''] example_rows []"

text \<open>A request and the answer of its server, seen by both machines, fall on one edge from client to server.\<close>

lemma example_ids:
  "map ge_ID (Edges example_graph) = [''a->b:tcp/internal_same_tenant'']" "map gn_ID (Nodes example_graph) = [''a'', ''b'']"
  by code_simp+

theorem graph_totals_witness:
  "edge_counter CBytesSent (hd (Edges example_graph)) = 350 \<and> TrafficOut (hd (Nodes example_graph)) = 350
   \<and> TrafficIn (hd (Nodes example_graph)) = 47"
proof -
  let ?vs = "[example_vm ''a'' ''10.0.0.1'', example_vm ''b'' ''10.0.0.2'']"
  let ?rows = "shown_rows example_visibility example_filter ?vs example_rows"
  have "machine_ids_plain ?vs" by code_simp
  moreover have "hd (Edges example_graph) \<in> set (Edges example_graph)" "hd (Nodes example_graph) \<in> set (Nodes example_graph)"
    "ge_ID (hd (Edges example_graph)) = ''a->b:tcp/internal_same_tenant''" "gn_ID (hd (Nodes example_graph)) = ''a''"
    using example_ids by auto
  moreover have "(\<Sum>r\<leftarrow>filter (\<lambda>r. flow_edge_id r = ''a->b:tcp/internal_same_tenant'') ?rows. row_counter CBytesSent r) = 350"
    "(\<Sum>r\<leftarrow>filter (touches_node ''a'') ?rows. row_out ''a'' r) = 350"
    "(\<Sum>r\<leftarrow>filter (touches_node ''a'') ?rows. row_in ''a'' r) = 47"
    by code_simp+
  ultimately show ?thesis
    using graph_totals [of ?vs "hd (Edges example_graph)" example_visibility 10 5 example_filter example_rows "[]"
        "hd (Nodes example_graph)" CBytesSent]
    by (simp add: example_graph_def wrap64_def)
qed

end
