(* ===== verification/Connections.thy ===== *)
theory Connections
  imports Graph
begin

text \<open>
  The backend's connectivity probes (\<open>src/backend/internal/service/connection_service.go\<close>): which
  peers an agent is asked to probe, and how the outcome of a probe is recorded. The properties
  show that the targets are exactly the recent internal peers, and that a recorded probe
  replaces the earlier outcome of the same pair, leaves all other probes and all traffic
  counters alone and is announced only when it succeeded.
\<close>

section \<open>Probe targets\<close>

definition probeSource :: string where [go_const]: "probeSource = ''vmlens_probe''"
definition probeTypeConnectivity :: string where [go_const]: "probeTypeConnectivity = ''connectivity_check''"
definition probeDefaultProtocol :: string where [go_const]: "probeDefaultProtocol = ''tcp''"
definition probeDefaultPort :: int where [go_const]: "probeDefaultPort = 18081"
definition probeTargetHistoryWindow :: duration where "probeTargetHistoryWindow = 30 * Minute"

text \<open>The peer of a flow as seen from machine \<open>self\<close> (the \<open>CASE\<close> of \<open>peer_flows\<close>), and the flows it joins.\<close>

definition peer_of :: "string \<Rightarrow> 'ip flow_row \<Rightarrow> string option" where
  "peer_of self r =
     (if nf_src_vm_id r = Some self then nf_dst_vm_id r
      else if nf_dst_vm_id r = Some self then nf_src_vm_id r
      else None)"

definition peer_flow :: "gotime \<Rightarrow> string \<Rightarrow> 'ip flow_row \<Rightarrow> bool" where
  "peer_flow now self r \<longleftrightarrow>
     (nf_scope r = ''internal_same_tenant'' \<or> nf_scope r = ''internal_cross_tenant'')
     \<and> (nf_src_vm_id r = Some self \<or> nf_dst_vm_id r = Some self)
     \<and> nf_observed_at r \<ge> now - interval_of probeTargetHistoryWindow"

definition peer_flows :: "gotime \<Rightarrow> 'ip tables \<Rightarrow> string \<Rightarrow> 'ip flow_row list" where
  "peer_flows now t self = filter (peer_flow now self) (network_flows t)"

text \<open>\<open>MAX(f.observed_at)\<close> of the group of peer \<open>d\<close>.\<close>

definition last_peer_flow :: "string \<Rightarrow> string \<Rightarrow> 'ip flow_row list \<Rightarrow> gotime" where
  "last_peer_flow self d rows = Max (set (map nf_observed_at (filter (\<lambda>r. peer_of self r = Some d) rows)))"

definition target_row :: "'ip pg \<Rightarrow> 'ip tables \<Rightarrow> string \<Rightarrow> string \<Rightarrow> 'ip flow_row list \<Rightarrow> string option \<Rightarrow> probe_target option" where
  "target_row pg t self ip rows d =
     (case d of
        None \<Rightarrow> None
      | Some i \<Rightarrow>
          if i = self \<or> ip = [] then None
          else case joined_vm t (Some i) of
            None \<Rightarrow> None
          | Some peer \<Rightarrow>
              map_option (\<lambda>a. \<lparr>pt_SourceVMID = self, pt_SourceIP = ip, pt_DestVMID = i, pt_DestName = vm_name peer,
                 pt_DestIP = host pg a, pt_Protocol = probeDefaultProtocol, pt_DestPort = probeDefaultPort,
                 pt_LastSeen = last_peer_flow self i rows\<rparr>) (vm_private_ip peer))"

definition target_rows :: "'ip pg \<Rightarrow> gotime \<Rightarrow> string \<Rightarrow> 'ip tables \<Rightarrow> probe_target list" where
  "target_rows pg now agentID t =
     (case source_of_agent agentID t of
        None \<Rightarrow> []
      | Some v \<Rightarrow>
          let rows = peer_flows now t (vm_id v);
              ip = text_or_empty (map_option (host pg) (vm_private_ip v))
          in limit 200 (order_desc pt_LastSeen
               (List.map_filter (target_row pg t (vm_id v) ip rows) (remdups (map (peer_of (vm_id v)) rows)))))"

definition inventory_probe :: "vm_inventory option \<Rightarrow> probe_target \<Rightarrow> probe_target" where
  "inventory_probe i target =
     (case i of
        None \<Rightarrow> target
      | Some _ \<Rightarrow> (case ProbeForIP i (pt_DestIP target) (pt_Protocol target) (pt_DestPort target) of
           (protocol, port) \<Rightarrow> target\<lparr>pt_Protocol := protocol, pt_DestPort := port\<rparr>))"

definition Targets :: "'ip pg \<Rightarrow> vm_inventory option \<Rightarrow> gotime \<Rightarrow> string \<Rightarrow> ('ip tables, service_error, probe_target list) tx" where
  "Targets pg i now agent =
     (let agentID = TrimSpace agent in
      if agentID = [] then tx_fail (MissingField ''agent_id'')
      else tx_bind (query DatabaseError (target_rows pg now agentID)) (\<lambda>rows. tx_return (map (inventory_probe i) rows)))"

section \<open>Recording a probe\<close>

text \<open>The checks before the transaction; \<open>clock\<close> is the backend's time, \<open>ul\<close> lower case beyond ASCII.\<close>

definition trim_probe :: "(string \<Rightarrow> string) \<Rightarrow> probe_event \<Rightarrow> probe_event" where
  "trim_probe ul e =
     e\<lparr>pe_AgentID := TrimSpace (pe_AgentID e), pe_SourceIP := TrimSpace (pe_SourceIP e), pe_DestIP := TrimSpace (pe_DestIP e),
       pe_Protocol := ToLower ul (TrimSpace (pe_Protocol e)), pe_Source := TrimSpace (pe_Source e),
       pe_Type := TrimSpace (pe_Type e), pe_Error := TrimSpace (pe_Error e)\<rparr>"

definition probe_defaults :: "gotime \<Rightarrow> probe_event \<Rightarrow> probe_event" where
  "probe_defaults clock e =
     e\<lparr>pe_DestPort := (if pe_DestPort e \<le> 0 then probeDefaultPort else pe_DestPort e),
       pe_Source := (if pe_Source e = [] then probeSource else pe_Source e),
       pe_Type := (if pe_Type e = [] then probeTypeConnectivity else pe_Type e),
       pe_Timestamp := (if IsZero (pe_Timestamp e) then clock else pe_Timestamp e)\<rparr>"

definition check_probe :: "(string \<Rightarrow> string) \<Rightarrow> gotime \<Rightarrow> probe_event \<Rightarrow> service_error + probe_event" where
  "check_probe ul clock event =
     (let e = trim_probe ul event in
      if pe_AgentID e = [] then Inl (MissingField ''agent_id'')
      else if pe_DestIP e = [] then Inl (MissingField ''dest_ip'')
      else let e1 = (if pe_Protocol e = [] then e\<lparr>pe_Protocol := probeDefaultProtocol\<rparr> else e) in
      if pe_Protocol e1 \<noteq> ''tcp'' \<and> pe_Protocol e1 \<noteq> ''udp'' \<and> pe_Protocol e1 \<noteq> ''icmp'' then Inl (UnsupportedProtocol (pe_Protocol e1))
      else let e2 = probe_defaults clock e1 in
      if pe_Source e2 \<noteq> probeSource \<or> pe_Type e2 \<noteq> probeTypeConnectivity \<or> pe_CountedAsRequest e2 \<or> pe_CountedAsUserTraffic e2
      then Inl CountedProbe
      else Inr e2)"

type_synonym 'ip probe_key = "string \<times> string \<times> string option \<times> 'ip \<times> string \<times> int"

text \<open>The columns of the unique index \<open>uq_connection_probes_pair\<close>, in which NULL equals NULL.\<close>

definition probe_key :: "'ip probe_row \<Rightarrow> 'ip probe_key" where
  "probe_key r = (pb_agent_id r, pb_src_vm_id r, pb_dst_vm_id r, pb_dst_ip r, pb_protocol r, pb_dst_port r)"

definition new_probe :: "'ip pg \<Rightarrow> gotime \<Rightarrow> probe_event \<Rightarrow> string \<Rightarrow> string option \<Rightarrow> 'ip \<Rightarrow> 'ip \<Rightarrow> 'ip probe_row" where
  "new_probe pg now e src dst sip dip =
     \<lparr>pb_agent_id = pe_AgentID e, pb_src_vm_id = src, pb_dst_vm_id = dst, pb_src_ip = sip, pb_dst_ip = dip,
      pb_protocol = pe_Protocol e, pb_dst_port = pe_DestPort e, pb_source = pe_Source e, pb_probe_type = pe_Type e,
      pb_success = pe_Success e, pb_rtt_ms = pe_RTTMs e, pb_error = nullIfEmpty (pe_Error e),
      pb_first_seen = stamp pg (pe_Timestamp e), pb_last_seen = stamp pg (pe_Timestamp e), pb_observed_at = now\<rparr>"

definition update_probe :: "'ip probe_row \<Rightarrow> 'ip probe_row \<Rightarrow> 'ip probe_row" where
  "update_probe excluded r =
     r\<lparr>pb_success := pb_success excluded, pb_rtt_ms := pb_rtt_ms excluded, pb_error := pb_error excluded,
       pb_last_seen := pb_last_seen excluded, pb_observed_at := pb_observed_at excluded\<rparr>"

text \<open>
  The INSERT. It is rejected when an address is not an \<open>inet\<close> (the source of a machine without
  private address is the empty string), the port does not fit INTEGER, or the time is negative
  (\<open>CHECK (rtt_ms >= 0)\<close>).
\<close>

definition upsert_probe :: "'ip pg \<Rightarrow> gotime \<Rightarrow> probe_event \<Rightarrow> string \<Rightarrow> string option \<Rightarrow> 'ip tables \<Rightarrow> 'ip tables option" where
  "upsert_probe pg now e src dst t =
     (case (inet pg (pe_SourceIP e), inet pg (pe_DestIP e)) of
        (Some sip, Some dip) \<Rightarrow>
          if pe_RTTMs e < 0 \<or> pe_DestPort e > 2147483647 then None
          else let new = new_probe pg now e src dst sip dip
               in Some (t\<lparr>connection_probes :=
                    upsert (\<lambda>r. probe_key r = probe_key new) (update_probe new) new (connection_probes t)\<rparr>)
      | _ \<Rightarrow> None)"

definition record_probe_tx :: "'ip pg \<Rightarrow> gotime \<Rightarrow> probe_event \<Rightarrow> ('ip tables, service_error, probe_event) tx" where
  "record_probe_tx pg now e =
     tx_bind (query DatabaseError (source_of_agent (pe_AgentID e))) (\<lambda>src.
       case src of
         None \<Rightarrow> tx_fail (NotRegistered (pe_AgentID e))
       | Some v \<Rightarrow>
           let e' = e\<lparr>pe_SourceIP := text_or_empty (map_option (host pg) (vm_private_ip v))\<rparr>
           in tx_bind (resolveVMByIP pg (pe_DestIP e')) (\<lambda>dst.
                tx_then (exec DatabaseError (upsert_probe pg now e' (vm_id v) (map_option rv_ID dst)))
                  (tx_then (mark_online now (pe_AgentID e') (vm_id v)) (tx_return e'))))"

definition RecordProbe ::
    "'ip pg \<Rightarrow> (string \<Rightarrow> string) \<Rightarrow> gotime \<Rightarrow> gotime \<Rightarrow> probe_event \<Rightarrow> 'ip tables \<times> nat option
     \<Rightarrow> (service_error + unit) \<times> 'ip tables \<times> probe_event hub_call list" where
  "RecordProbe pg ul now clock event s =
     (case check_probe ul clock event of
        Inl err \<Rightarrow> (Inl err, fst s, [])
      | Inr e \<Rightarrow>
          (case transaction DatabaseError (record_probe_tx pg now e) s of
             (Inl err, t) \<Rightarrow> (Inl err, t, [])
           | (Inr e', t) \<Rightarrow>
               (Inr (), t, if pe_Success e' then [CallBroadcastLatest ''connection.probe'' e' (500 * Millisecond)] else [])))"

section \<open>What recording does\<close>

lemma probe_key_update [simp]: "probe_key (update_probe x r) = probe_key r"
  by (simp add: probe_key_def update_probe_def)

lemma upsert_others:
  assumes "\<And>r. p (f r) = p r" "p x"
  shows "filter (\<lambda>r. \<not> p r) (upsert p f x rows) = filter (\<lambda>r. \<not> p r) rows"
proof -
  have "filter (\<lambda>r. \<not> p r) (update_where p f rows) = filter (\<lambda>r. \<not> p r) rows"
    using assms(1) by (induction rows) (simp_all add: update_where_def)
  then show ?thesis using assms(2) by (simp add: upsert_def)
qed

text \<open>The row of a probe after it was recorded: the given outcome under its key.\<close>

definition outcome_of :: "'ip pg \<Rightarrow> gotime \<Rightarrow> probe_event \<Rightarrow> 'ip probe_row \<Rightarrow> bool" where
  "outcome_of pg now e r \<longleftrightarrow>
     pb_agent_id r = pe_AgentID e \<and> pb_protocol r = pe_Protocol e \<and> pb_dst_port r = pe_DestPort e
     \<and> inet pg (pe_DestIP e) = Some (pb_dst_ip r) \<and> pb_success r = pe_Success e \<and> pb_rtt_ms r = pe_RTTMs e
     \<and> pb_error r = nullIfEmpty (pe_Error e) \<and> pb_last_seen r = stamp pg (pe_Timestamp e) \<and> pb_observed_at r = now"

lemma upsert_probe_effect:
  assumes "upsert_probe pg now e src dst t = Some t'" "distinct (map probe_key (connection_probes t))"
  obtains r where "r \<in> set (connection_probes t')" "outcome_of pg now e r" "pb_src_vm_id r = src" "pb_dst_vm_id r = dst"
    "distinct (map probe_key (connection_probes t'))"
    "filter (\<lambda>x. probe_key x \<noteq> probe_key r) (connection_probes t') = filter (\<lambda>x. probe_key x \<noteq> probe_key r) (connection_probes t)"
    "network_flows t' = network_flows t" "flow_observations t' = flow_observations t"
proof -
  obtain sip dip where ip: "inet pg (pe_SourceIP e) = Some sip" "inet pg (pe_DestIP e) = Some dip"
    using assms(1) by (auto simp: upsert_probe_def split: option.splits)
  define new where "new = new_probe pg now e src dst sip dip"
  have t': "t' = t\<lparr>connection_probes := upsert (\<lambda>r. probe_key r = probe_key new) (update_probe new) new (connection_probes t)\<rparr>"
    using assms(1) ip by (simp add: upsert_probe_def Let_def new_def split: if_splits)
  then have rows: "connection_probes t' = upsert (\<lambda>r. probe_key r = probe_key new) (update_probe new) new (connection_probes t)"
    by simp
  obtain r where r: "r \<in> set (connection_probes t')" "r = new \<or> (\<exists>r0. probe_key r0 = probe_key new \<and> r = update_probe new r0)"
    using upsert_has [of "\<lambda>r. probe_key r = probe_key new" "update_probe new" new "connection_probes t"] unfolding rows by blast
  have key: "probe_key r = probe_key new" using r(2) by auto
  have "outcome_of pg now e r" "pb_src_vm_id r = src" "pb_dst_vm_id r = dst"
    using r(2) ip by (auto simp: outcome_of_def new_def new_probe_def update_probe_def probe_key_def)
  moreover have "distinct (map probe_key (connection_probes t'))"
    unfolding rows using assms(2) by (rule upsert_keys(1) [where k = "probe_key new"]) simp_all
  moreover have "filter (\<lambda>x. probe_key x \<noteq> probe_key r) (connection_probes t') = filter (\<lambda>x. probe_key x \<noteq> probe_key r) (connection_probes t)"
    unfolding rows key by (rule upsert_others) simp_all
  ultimately show ?thesis using that r(1) t' by simp
qed

lemma mark_online_probes:
  "mark_online now a v (t, c) = Inr (u, t', c') \<Longrightarrow> connection_probes t' = connection_probes t"
  by (auto simp: mark_online_def tx_then_def tx_bind_Inr dest!: exec_Inr)

lemma record_probe_steps:
  assumes "record_probe_tx pg now e (t, c) = Inr (e', t', c')"
  obtains v dst t1 c1 c2 where "source_of_agent (pe_AgentID e) t = Some v"
    "e' = e\<lparr>pe_SourceIP := text_or_empty (map_option (host pg) (vm_private_ip v))\<rparr>"
    "upsert_probe pg now e' (vm_id v) dst t = Some t1" "mark_online now (pe_AgentID e) (vm_id v) (t1, c1) = Inr ((), t', c2)"
proof -
  from assms obtain src c0 where src: "src = source_of_agent (pe_AgentID e) t"
    "(case src of None \<Rightarrow> tx_fail (NotRegistered (pe_AgentID e))
       | Some v \<Rightarrow>
           let e' = e\<lparr>pe_SourceIP := text_or_empty (map_option (host pg) (vm_private_ip v))\<rparr>
           in tx_bind (resolveVMByIP pg (pe_DestIP e')) (\<lambda>dst.
                tx_then (exec DatabaseError (upsert_probe pg now e' (vm_id v) (map_option rv_ID dst)))
                  (tx_then (mark_online now (pe_AgentID e') (vm_id v)) (tx_return e')))) (t, c0) = Inr (e', t', c')"
    unfolding record_probe_tx_def tx_bind_Inr [of "query DatabaseError (source_of_agent (pe_AgentID e))"]
    by (auto dest!: query_Inr)
  then obtain v where v: "source_of_agent (pe_AgentID e) t = Some v" by (cases "source_of_agent (pe_AgentID e) t") auto
  define w where "w = e\<lparr>pe_SourceIP := text_or_empty (map_option (host pg) (vm_private_ip v))\<rparr>"
  have w: "pe_AgentID w = pe_AgentID e" "pe_DestIP w = pe_DestIP e" by (simp_all add: w_def)
  have "tx_bind (resolveVMByIP pg (pe_DestIP w)) (\<lambda>dst.
      tx_then (exec DatabaseError (upsert_probe pg now w (vm_id v) (map_option rv_ID dst)))
        (tx_then (mark_online now (pe_AgentID w) (vm_id v)) (tx_return w))) (t, c0) = Inr (e', t', c')"
    using src v by (simp add: w_def Let_def)
  then obtain dst t0 ca t1 cb where dst: "resolveVMByIP pg (pe_DestIP w) (t, c0) = Inr (dst, t0, ca)"
    and up: "upsert_probe pg now w (vm_id v) (map_option rv_ID dst) t0 = Some t1"
    and on: "mark_online now (pe_AgentID w) (vm_id v) (t1, cb) = Inr ((), t', c')" and e': "e' = w"
    by (auto simp: tx_bind_Inr tx_then_def dest!: exec_Inr)
  have "t0 = t" using dst by (auto simp: resolveVMByIP_def dest!: stmt_Inr split: option.splits)
  with that v up on e' w show ?thesis by (simp add: w_def)
qed

lemma probe_steps_success [simp]: "pe_Success (trim_probe ul e) = pe_Success e" "pe_Success (probe_defaults clock e) = pe_Success e"
  by (simp_all add: trim_probe_def probe_defaults_def Let_def)

lemma check_probe_success: "check_probe ul clock event = Inr e \<Longrightarrow> pe_Success e = pe_Success event"
  unfolding check_probe_def Let_def by (auto split: if_splits)

text \<open>
  C27. A recorded probe is the newest outcome of its pair and nothing else. When \<open>RecordProbe\<close>
  succeeds on a database whose probes are unique per pair, they still are, the probed pair has
  one row with the reported outcome under the machine of the agent, every other probe is as it
  was, and no traffic counter or observation changes: probes are never counted as traffic. The
  dashboard is notified exactly when the probe succeeded. When it fails, nothing changed and
  nobody is notified.
\<close>

theorem probe_recorded:
  assumes "distinct (map probe_key (connection_probes t))"
    and "RecordProbe pg ul now clock event (t, c) = (res, t', calls)"
  shows "(case res of
      Inl err \<Rightarrow> t' = t \<and> calls = []
    | Inr _ \<Rightarrow> \<exists>e v r. check_probe ul clock event = Inr e \<and> source_of_agent (pe_AgentID e) t = Some v
        \<and> r \<in> set (connection_probes t') \<and> outcome_of pg now e r \<and> pb_src_vm_id r = vm_id v
        \<and> distinct (map probe_key (connection_probes t'))
        \<and> filter (\<lambda>x. probe_key x \<noteq> probe_key r) (connection_probes t') = filter (\<lambda>x. probe_key x \<noteq> probe_key r) (connection_probes t)
        \<and> network_flows t' = network_flows t \<and> flow_observations t' = flow_observations t
        \<and> (calls \<noteq> [] \<longleftrightarrow> pe_Success event))"
proof (cases "check_probe ul clock event")
  case (Inl err)
  then show ?thesis using assms(2) by (auto simp: RecordProbe_def)
next
  case (Inr e)
  have succ: "pe_Success e = pe_Success event"
    using check_probe_success [OF Inr] .
  show ?thesis
  proof (cases rule: transaction_cases [of DatabaseError "record_probe_tx pg now e" t c])
    case (rolled_back err)
    then show ?thesis using assms(2) Inr by (auto simp: RecordProbe_def)
  next
    case (committed e' u c1 c2)
    then have res: "res = Inr ()" "t' = u" "calls \<noteq> [] \<longleftrightarrow> pe_Success e'" using assms(2) Inr by (auto simp: RecordProbe_def split: if_splits)
    from committed(2) obtain v dst t1 ca cb where v: "source_of_agent (pe_AgentID e) t = Some v"
      and e': "e' = e\<lparr>pe_SourceIP := text_or_empty (map_option (host pg) (vm_private_ip v))\<rparr>"
      and up: "upsert_probe pg now e' (vm_id v) dst t = Some t1"
      and on: "mark_online now (pe_AgentID e) (vm_id v) (t1, ca) = Inr ((), u, cb)"
      by (rule record_probe_steps)
    from up assms(1) obtain r where r: "r \<in> set (connection_probes t1)" "outcome_of pg now e' r" "pb_src_vm_id r = vm_id v"
      "distinct (map probe_key (connection_probes t1))"
      "filter (\<lambda>x. probe_key x \<noteq> probe_key r) (connection_probes t1) = filter (\<lambda>x. probe_key x \<noteq> probe_key r) (connection_probes t)"
      "network_flows t1 = network_flows t" "flow_observations t1 = flow_observations t"
      by (rule upsert_probe_effect)
    have "outcome_of pg now e r" using r(2) by (simp add: outcome_of_def e')
    moreover have "pe_Success e' = pe_Success event" using succ by (simp add: e')
    ultimately show ?thesis
      using r v Inr res mark_online_frame [OF on] mark_online_probes [OF on] by auto
  qed
qed

definition demo_probe :: probe_event where
  "demo_probe = \<lparr>pe_AgentID = '' a '', pe_SourceIP = [], pe_DestIP = ''10.0.0.2'', pe_Protocol = ''TCP'', pe_DestPort = 0, pe_Success = True,
     pe_RTTMs = 3, pe_Error = [], pe_Source = [], pe_Type = [], pe_CountedAsRequest = False, pe_CountedAsUserTraffic = False,
     pe_Timestamp = 0\<rparr>"

theorem probe_recorded_witness:
  "snd (snd (RecordProbe demo_pg id 5 9 demo_probe (demo_tables, None))) \<noteq> []
   \<and> distinct (map probe_key (connection_probes (fst (snd (RecordProbe demo_pg id 5 9 demo_probe (demo_tables, None))))))"
proof -
  have ok: "case RecordProbe demo_pg id 5 9 demo_probe (demo_tables, None) of (Inr _, _) \<Rightarrow> True | _ \<Rightarrow> False" by code_simp
  obtain res t calls where call: "RecordProbe demo_pg id 5 9 demo_probe (demo_tables, None) = (res, t, calls)"
    by (cases "RecordProbe demo_pg id 5 9 demo_probe (demo_tables, None)")
  have "distinct (map probe_key (connection_probes demo_tables))" by (simp add: demo_tables_def)
  moreover have "pe_Success demo_probe" by (simp add: demo_probe_def)
  moreover obtain u where "res = Inr u" using ok by (cases res) (simp_all add: call)
  ultimately show ?thesis using probe_recorded [OF _ call] by (auto simp: call)
qed

section \<open>Which peers are probed\<close>

definition peers :: "'ip pg \<Rightarrow> gotime \<Rightarrow> 'ip tables \<Rightarrow> 'ip vm_row \<Rightarrow> string set" where
  "peers pg now t v =
     {d. d \<noteq> vm_id v \<and> text_or_empty (map_option (host pg) (vm_private_ip v)) \<noteq> []
       \<and> (\<exists>r\<in>set (network_flows t). peer_flow now (vm_id v) r \<and> peer_of (vm_id v) r = Some d)
       \<and> (\<exists>w. joined_vm t (Some d) = Some w \<and> vm_private_ip w \<noteq> None)}"

lemma target_row_dest: "target_row pg t self ip rows d = Some x \<Longrightarrow> d = Some (pt_DestVMID x)"
  by (auto simp: target_row_def split: option.splits if_splits)

lemma target_row_some:
  "(\<exists>x. target_row pg t self ip rows (Some i) = Some x) \<longleftrightarrow>
   i \<noteq> self \<and> ip \<noteq> [] \<and> (\<exists>w. joined_vm t (Some i) = Some w \<and> vm_private_ip w \<noteq> None)"
  by (auto simp: target_row_def split: option.splits if_splits)

lemma map_filter_dest:
  assumes "\<And>d x. f d = Some x \<Longrightarrow> d = Some (key x)"
  shows "map (\<lambda>x. Some (key x)) (List.map_filter f ds) = filter (\<lambda>d. f d \<noteq> None) ds"
proof (induction ds)
  case (Cons d ds)
  show ?case
  proof (cases "f d")
    case (Some x)
    then show ?thesis using Cons assms [OF Some] by (simp add: List.map_filter_simps)
  qed (use Cons in \<open>simp add: List.map_filter_simps\<close>)
qed (simp add: List.map_filter_simps)

lemma inventory_probe_keeps [simp]:
  "pt_DestVMID (inventory_probe i x) = pt_DestVMID x" "pt_LastSeen (inventory_probe i x) = pt_LastSeen x"
  by (simp_all add: inventory_probe_def split: option.split prod.split)

definition all_targets :: "'ip pg \<Rightarrow> gotime \<Rightarrow> 'ip tables \<Rightarrow> 'ip vm_row \<Rightarrow> probe_target list" where
  "all_targets pg now t v =
     (let rows = peer_flows now t (vm_id v)
      in List.map_filter (target_row pg t (vm_id v) (text_or_empty (map_option (host pg) (vm_private_ip v))) rows)
           (remdups (map (peer_of (vm_id v)) rows)))"

lemma all_targets_dest:
  "distinct (map pt_DestVMID (all_targets pg now t v))" "pt_DestVMID ` set (all_targets pg now t v) = peers pg now t v"
proof -
  let ?f = "target_row pg t (vm_id v) (text_or_empty (map_option (host pg) (vm_private_ip v))) (peer_flows now t (vm_id v))"
  let ?ds = "remdups (map (peer_of (vm_id v)) (peer_flows now t (vm_id v)))"
  have dests: "map (\<lambda>x. Some (pt_DestVMID x)) (all_targets pg now t v) = filter (\<lambda>d. ?f d \<noteq> None) ?ds"
    unfolding all_targets_def Let_def by (rule map_filter_dest) (rule target_row_dest)
  then have "distinct (map Some (map pt_DestVMID (all_targets pg now t v)))" by (simp add: comp_def)
  then show "distinct (map pt_DestVMID (all_targets pg now t v))"
    using distinct_map [of Some "map pt_DestVMID (all_targets pg now t v)"] by blast
  have "d \<in> pt_DestVMID ` set (all_targets pg now t v) \<longleftrightarrow> d \<in> peers pg now t v" for d
  proof -
    have "d \<in> pt_DestVMID ` set (all_targets pg now t v) \<longleftrightarrow> Some d \<in> set (map (\<lambda>x. Some (pt_DestVMID x)) (all_targets pg now t v))"
      by auto
    also have "\<dots> \<longleftrightarrow> Some d \<in> set ?ds \<and> (\<exists>x. ?f (Some d) = Some x)" unfolding dests by simp
    also have "Some d \<in> set ?ds \<longleftrightarrow> (\<exists>r\<in>set (network_flows t). peer_flow now (vm_id v) r \<and> peer_of (vm_id v) r = Some d)"
      unfolding peer_flows_def set_remdups set_map set_filter image_iff by (auto simp: eq_commute)
    finally show ?thesis unfolding target_row_some peers_def by blast
  qed
  then show "pt_DestVMID ` set (all_targets pg now t v) = peers pg now t v" by blast
qed

lemma Targets_result:
  assumes "Targets pg i now agent (t, c) = Inr (ts, t', c')"
  shows "t' = t" "ts = map (inventory_probe i) (case source_of_agent (TrimSpace agent) t of None \<Rightarrow> []
     | Some v \<Rightarrow> limit 200 (order_desc pt_LastSeen (all_targets pg now t v)))"
  using assms by (auto simp: Targets_def Let_def tx_bind_Inr target_rows_def all_targets_def dest!: query_Inr split: if_splits option.splits)

text \<open>
  An agent is asked to probe exactly its recent internal peers. The targets are at most
  200 different machines, the most recently seen first; each has a private address, differs
  from the agent's own machine and had an internal flow with it within the last 30 minutes;
  and when fewer than 200 are returned, every such machine is among them. Asking changes
  nothing in the database.
\<close>

theorem targets_exact:
  assumes "Targets pg i now agent (t, c) = Inr (ts, t', c')" and "source_of_agent (TrimSpace agent) t = Some v"
  shows "t' = t \<and> length ts \<le> 200 \<and> distinct (map pt_DestVMID ts) \<and> sorted_wrt (\<ge>) (map pt_LastSeen ts)
    \<and> pt_DestVMID ` set ts \<subseteq> peers pg now t v \<and> (length ts < 200 \<longrightarrow> pt_DestVMID ` set ts = peers pg now t v)"
proof -
  let ?all = "order_desc pt_LastSeen (all_targets pg now t v)"
  have ts: "map pt_DestVMID ts = take 200 (map pt_DestVMID ?all)" "map pt_LastSeen ts = take 200 (map pt_LastSeen ?all)"
    using Targets_result(2) [OF assms(1)] assms(2) by (simp_all add: limit_def take_map comp_def)
  have "distinct (map pt_DestVMID ?all)" using all_targets_dest(1) [of pg now t v] by (simp add: order_desc_def distinct_map)
  then have "distinct (map pt_DestVMID ts)" unfolding ts by (rule distinct_take)
  moreover have "sorted_wrt (\<ge>) (map pt_LastSeen ts)" unfolding ts by (intro sorted_wrt_take sorted_order_desc)
  moreover have dest: "pt_DestVMID ` set ts = set (take 200 (map pt_DestVMID ?all))" using ts(1) by (metis set_map)
  moreover have all: "set (map pt_DestVMID ?all) = peers pg now t v" by (simp add: all_targets_dest(2))
  moreover have "length ts = min 200 (length ?all)" using arg_cong [OF ts(1), of length] by simp
  ultimately show ?thesis
    using Targets_result(1) [OF assms(1)] set_take_subset [of 200 "map pt_DestVMID ?all"] by auto
qed

definition demo_peers :: "string tables" where
  "demo_peers = demo_tables\<lparr>vms := [demo_vm, demo_vm\<lparr>vm_id := ''vm-2'', vm_private_ip := Some ''10.0.0.2''\<rparr>],
     network_flows := [(new_flow demo_pg 3 3 (demo_group ''internal_same_tenant'') ''u'' demo_flow_event)\<lparr>nf_dst_vm_id := Some ''vm-2''\<rparr>]\<rparr>"

theorem targets_exact_witness: "peers demo_pg 5 demo_peers demo_vm = {''vm-2''}"
proof -
  have ok: "case Targets demo_pg None 5 ''a'' (demo_peers, None) of Inr (ts, t, c) \<Rightarrow> map pt_DestVMID ts = [''vm-2''] | _ \<Rightarrow> False"
    by code_simp
  then obtain ts t c where call: "Targets demo_pg None 5 ''a'' (demo_peers, None) = Inr (ts, t, c)" and dest: "map pt_DestVMID ts = [''vm-2'']"
    by (auto split: sum.splits prod.splits)
  have "source_of_agent (TrimSpace ''a'') demo_peers = Some demo_vm" by code_simp
  from targets_exact [OF call this] have "length ts < 200 \<longrightarrow> pt_DestVMID ` set ts = peers demo_pg 5 demo_peers demo_vm" by blast
  moreover have "length ts < 200" using arg_cong [OF dest, of length] by simp
  moreover have "pt_DestVMID ` set ts = {''vm-2''}" using arg_cong [OF dest, of set] by simp
  ultimately show ?thesis by simp
qed

end
