(* ===== verification/Connection_Views.thy ===== *)
theory Connection_Views
  imports Connections
begin

text \<open>
  The connection views of the backend (\<open>src/backend/internal/service/connection_state_service.go\<close>):
  declared intents, synced configurations, observed flows and probes of the same connection are
  merged into one view with its states. The properties show that there is exactly one view per
  connection, what it takes from each source, and what a healthy or validated state means.
\<close>

section \<open>Data\<close>

record connection_intent =
  ci_ID :: string
  ci_TenantID :: string
  ci_ProjectID :: string
  ci_SourceVMID :: string
  ci_DestVMID :: string
  ci_Protocol :: string
  ci_Port :: int
  ci_Purpose :: string
  ci_Exposure :: string
  ci_Required :: bool
  ci_Status :: string
  ci_CreatedBy :: string
  ci_CreatedAt :: gotime
  ci_UpdatedAt :: gotime

record connection_configuration =
  cc_ID :: string
  cc_TenantID :: string
  cc_ProjectID :: string
  cc_IntentID :: string
  cc_SourceVMID :: string
  cc_DestVMID :: string
  cc_Protocol :: string
  cc_Port :: int
  cc_FirewallRuleID :: string
  cc_RouteID :: string
  cc_NetworkID :: string
  cc_ConfigState :: string
  cc_SecurityState :: string
  cc_LastSyncedAt :: "gotime option"

record connection_observed =
  co_SourceVMID :: string
  co_DestVMID :: string
  co_Protocol :: string
  co_Port :: int
  co_Scope :: string
  co_Observed :: bool
  co_Reachable :: bool
  co_Active :: bool
  co_Failed :: bool
  co_RequestCount :: i64
  co_ErrorCount :: i64
  co_BytesTotal :: i64
  co_AvgRTTMs :: f64
  co_LastObservedAt :: "gotime option"
  co_LastErrorAt :: "gotime option"

record connection_view =
  cv_ID :: string
  cv_TenantID :: string
  cv_ProjectID :: string
  cv_SourceVMID :: string
  cv_SourceName :: string
  cv_SourceIP :: string
  cv_DestVMID :: string
  cv_DestName :: string
  cv_DestIP :: string
  cv_Protocol :: string
  cv_Port :: int
  cv_Scope :: string
  cv_Intent :: "connection_intent option"
  cv_Configuration :: "connection_configuration option"
  cv_Observed :: connection_observed
  cv_IntendedState :: string
  cv_ConfigurationState :: string
  cv_ObservedState :: string
  cv_ValidationState :: string
  cv_HealthState :: string
  cv_SecurityState :: string
  cv_Description :: string
  cv_LastChangedAt :: "gotime option"

record view_filter =
  vf_TenantID :: string
  vf_ProjectID :: string
  vf_VMID :: string
  vf_TimeRange :: duration

record observed_row =
  or_SourceVMID :: string
  or_DestVMID :: string
  or_SourceName :: string
  or_DestName :: string
  or_SourceIP :: string
  or_DestIP :: string
  or_TenantID :: string
  or_ProjectID :: string
  or_Protocol :: string
  or_Port :: int
  or_Scope :: string
  or_RequestCount :: i64
  or_ErrorCount :: i64
  or_BytesTotal :: i64
  or_LastObservedAt :: gotime
  or_LastErrorAt :: "gotime option"

record probe_state_row =
  ps_SourceVMID :: string
  ps_DestVMID :: string
  ps_Protocol :: string
  ps_Port :: int
  ps_Success :: bool
  ps_RTTMs :: f64
  ps_ObservedAt :: gotime
  ps_LastErrorText :: string

text \<open>The two tables of declared connections, next to the tables of the other services.\<close>

record intent_row =
  ir_id :: string
  ir_tenant_id :: "string option"
  ir_project_id :: "string option"
  ir_source_vm_id :: string
  ir_dest_vm_id :: string
  ir_protocol :: string
  ir_port :: int
  ir_purpose :: "string option"
  ir_exposure :: string
  ir_required :: bool
  ir_status :: string
  ir_created_by :: "string option"
  ir_created_at :: gotime
  ir_updated_at :: gotime

record config_row =
  cr_id :: string
  cr_tenant_id :: "string option"
  cr_project_id :: "string option"
  cr_intent_id :: "string option"
  cr_source_vm_id :: string
  cr_dest_vm_id :: string
  cr_protocol :: string
  cr_port :: int
  cr_firewall_rule_id :: "string option"
  cr_route_id :: "string option"
  cr_network_id :: "string option"
  cr_config_state :: string
  cr_security_state :: string
  cr_last_synced_at :: "gotime option"
  cr_updated_at :: gotime

record 'ip catalog =
  core :: "'ip tables"
  connection_intents :: "intent_row list"
  connection_configurations :: "config_row list"

section \<open>Queries\<close>

definition defaultConnectionViewWindow :: duration where
  "defaultConnectionViewWindow = 15 * Minute"

definition view_range :: "view_filter \<Rightarrow> duration" where
  "view_range f = (if vf_TimeRange f \<le> 0 then defaultConnectionViewWindow else vf_TimeRange f)"

text \<open>The condition \<open>addConnectionFilter\<close> appends to a query: none when the value is blank.\<close>

definition addConnectionFilter :: "string \<Rightarrow> string option \<Rightarrow> bool" where
  "addConnectionFilter val column \<longleftrightarrow> (let v = TrimSpace val in v = [] \<or> column = Some v)"

definition intent_selected :: "view_filter \<Rightarrow> intent_row \<Rightarrow> bool" where
  "intent_selected f r \<longleftrightarrow>
     addConnectionFilter (vf_TenantID f) (ir_tenant_id r) \<and> addConnectionFilter (vf_ProjectID f) (ir_project_id r)
     \<and> (vf_VMID f \<noteq> [] \<longrightarrow> ir_source_vm_id r = vf_VMID f \<or> ir_dest_vm_id r = vf_VMID f)"

definition scan_intent :: "intent_row \<Rightarrow> connection_intent" where
  "scan_intent r =
     \<lparr>ci_ID = ir_id r, ci_TenantID = text_or_empty (ir_tenant_id r), ci_ProjectID = text_or_empty (ir_project_id r),
      ci_SourceVMID = ir_source_vm_id r, ci_DestVMID = ir_dest_vm_id r, ci_Protocol = ir_protocol r, ci_Port = ir_port r,
      ci_Purpose = text_or_empty (ir_purpose r), ci_Exposure = ir_exposure r, ci_Required = ir_required r, ci_Status = ir_status r,
      ci_CreatedBy = text_or_empty (ir_created_by r), ci_CreatedAt = ir_created_at r, ci_UpdatedAt = ir_updated_at r\<rparr>"

definition listIntents :: "view_filter \<Rightarrow> ('ip catalog, service_error, connection_intent list) tx" where
  "listIntents f =
     query DatabaseError (\<lambda>t. map scan_intent (limit 2000 (order_desc ir_updated_at (filter (intent_selected f) (connection_intents t)))))"

definition config_selected :: "view_filter \<Rightarrow> config_row \<Rightarrow> bool" where
  "config_selected f r \<longleftrightarrow>
     addConnectionFilter (vf_TenantID f) (cr_tenant_id r) \<and> addConnectionFilter (vf_ProjectID f) (cr_project_id r)
     \<and> (vf_VMID f \<noteq> [] \<longrightarrow> cr_source_vm_id r = vf_VMID f \<or> cr_dest_vm_id r = vf_VMID f)"

definition scan_config :: "config_row \<Rightarrow> connection_configuration" where
  "scan_config r =
     \<lparr>cc_ID = cr_id r, cc_TenantID = text_or_empty (cr_tenant_id r), cc_ProjectID = text_or_empty (cr_project_id r),
      cc_IntentID = text_or_empty (cr_intent_id r), cc_SourceVMID = cr_source_vm_id r, cc_DestVMID = cr_dest_vm_id r,
      cc_Protocol = cr_protocol r, cc_Port = cr_port r, cc_FirewallRuleID = text_or_empty (cr_firewall_rule_id r),
      cc_RouteID = text_or_empty (cr_route_id r), cc_NetworkID = text_or_empty (cr_network_id r),
      cc_ConfigState = cr_config_state r, cc_SecurityState = cr_security_state r, cc_LastSyncedAt = cr_last_synced_at r\<rparr>"

definition listConfigurations :: "view_filter \<Rightarrow> ('ip catalog, service_error, connection_configuration list) tx" where
  "listConfigurations f =
     query DatabaseError (\<lambda>t. map scan_config (limit 2000 (order_desc cr_updated_at (filter (config_selected f) (connection_configurations t)))))"

definition vms_selected :: "view_filter \<Rightarrow> 'ip vm_row option \<Rightarrow> 'ip vm_row option \<Rightarrow> bool" where
  "vms_selected f sv dv \<longleftrightarrow>
     sv \<noteq> None \<and> dv \<noteq> None
     \<and> (vf_TenantID f \<noteq> [] \<longrightarrow> either_vm (\<lambda>v. vm_tenant_id v = Some (vf_TenantID f)) sv dv)
     \<and> (vf_ProjectID f \<noteq> [] \<longrightarrow> either_vm (\<lambda>v. vm_project_id v = Some (vf_ProjectID f)) sv dv)"

definition observed_selected :: "gotime \<Rightarrow> view_filter \<Rightarrow> 'ip tables \<Rightarrow> 'ip flow_row \<Rightarrow> bool" where
  "observed_selected now f t r \<longleftrightarrow>
     vms_selected f (joined_vm t (nf_src_vm_id r)) (joined_vm t (nf_dst_vm_id r))
     \<and> nf_observed_at r \<ge> now - interval_of (view_range f)
     \<and> (vf_VMID f \<noteq> [] \<longrightarrow> nf_src_vm_id r = Some (vf_VMID f) \<or> nf_dst_vm_id r = Some (vf_VMID f))"

text \<open>\<open>GROUP BY\<close>: the names, tenant and project are those of the two machines of the key.\<close>

definition observed_group :: "'ip flow_row \<Rightarrow> string option \<times> string option \<times> 'ip \<times> 'ip \<times> string \<times> int option \<times> string" where
  "observed_group r =
     (nf_src_vm_id r, nf_dst_vm_id r, nf_src_ip r, nf_dst_ip r, nf_protocol r, nf_dst_port r, nf_scope r)"

definition group_rows :: "('r \<Rightarrow> 'k) \<Rightarrow> 'r list \<Rightarrow> 'r list list" where
  "group_rows g rows = map (\<lambda>k. filter (\<lambda>r. g r = k) rows) (remdups (map g rows))"

definition last_observed :: "'ip flow_row list \<Rightarrow> gotime" where
  "last_observed g = Max (set (map nf_observed_at g))"

definition last_error :: "'ip flow_row list \<Rightarrow> gotime option" where
  "last_error g = (let es = List.map_filter nf_last_error_at g in if es = [] then None else Some (Max (set es)))"

definition sum_in_range :: "('r \<Rightarrow> int) \<Rightarrow> 'r list \<Rightarrow> bool" where
  "sum_in_range h g \<longleftrightarrow> in_i64 (\<Sum>r\<leftarrow>g. h r)"

definition flow_bytes :: "'ip flow_row \<Rightarrow> int" where
  "flow_bytes r = nf_bytes_sent r + nf_bytes_received r"

definition scan_observed :: "'ip pg \<Rightarrow> 'ip tables \<Rightarrow> 'ip flow_row list \<Rightarrow> observed_row" where
  "scan_observed pg t g =
     (let r = hd g; sv = joined_vm t (nf_src_vm_id r); dv = joined_vm t (nf_dst_vm_id r) in
      \<lparr>or_SourceVMID = text_or_empty (nf_src_vm_id r), or_DestVMID = text_or_empty (nf_dst_vm_id r),
       or_SourceName = (case sv of Some v \<Rightarrow> vm_name v | None \<Rightarrow> []), or_DestName = (case dv of Some v \<Rightarrow> vm_name v | None \<Rightarrow> []),
       or_SourceIP = host pg (nf_src_ip r), or_DestIP = host pg (nf_dst_ip r),
       or_TenantID = (case sv of Some v \<Rightarrow> text_or_empty (vm_tenant_id v) | None \<Rightarrow> []),
       or_ProjectID = (case sv of Some v \<Rightarrow> text_or_empty (vm_project_id v) | None \<Rightarrow> []),
       or_Protocol = nf_protocol r, or_Port = int_or_zero (nf_dst_port r), or_Scope = nf_scope r,
       or_RequestCount = (\<Sum>x\<leftarrow>g. nf_request_count x), or_ErrorCount = (\<Sum>x\<leftarrow>g. nf_error_count x),
       or_BytesTotal = (\<Sum>x\<leftarrow>g. flow_bytes x), or_LastObservedAt = last_observed g, or_LastErrorAt = last_error g\<rparr>)"

text \<open>
  The sum of the two byte counters of a row is a BIGINT and fails on overflow; the sums over a
  group are NUMERIC and fail when they are scanned into an \<open>int64\<close>.
\<close>

definition listObserved :: "'ip pg \<Rightarrow> gotime \<Rightarrow> view_filter \<Rightarrow> ('ip catalog, service_error, observed_row list) tx" where
  "listObserved pg now f =
     stmt DatabaseError (\<lambda>t.
       let rows = filter (observed_selected now f (core t)) (network_flows (core t));
           gs = limit 5000 (order_desc last_observed (group_rows observed_group rows))
       in if \<not> list_all (\<lambda>r. in_i64 (flow_bytes r)) rows
            \<or> \<not> list_all (\<lambda>g. sum_in_range nf_request_count g \<and> sum_in_range nf_error_count g \<and> sum_in_range flow_bytes g) gs
          then None
          else Some (map (scan_observed pg (core t)) gs, t))"

definition probe_view_selected :: "gotime \<Rightarrow> view_filter \<Rightarrow> 'ip tables \<Rightarrow> 'ip probe_row \<Rightarrow> bool" where
  "probe_view_selected now f t r \<longleftrightarrow>
     vms_selected f (joined_vm t (Some (pb_src_vm_id r))) (joined_vm t (pb_dst_vm_id r))
     \<and> pb_source r = ''vmlens_probe'' \<and> pb_probe_type r = ''connectivity_check''
     \<and> pb_observed_at r \<ge> now - interval_of (view_range f)
     \<and> (vf_VMID f \<noteq> [] \<longrightarrow> pb_src_vm_id r = vf_VMID f \<or> pb_dst_vm_id r = Some (vf_VMID f))"

definition scan_probe_state :: "'ip probe_row \<Rightarrow> probe_state_row" where
  "scan_probe_state r =
     \<lparr>ps_SourceVMID = pb_src_vm_id r, ps_DestVMID = text_or_empty (pb_dst_vm_id r), ps_Protocol = pb_protocol r, ps_Port = pb_dst_port r,
      ps_Success = pb_success r, ps_RTTMs = pb_rtt_ms r, ps_ObservedAt = pb_observed_at r, ps_LastErrorText = text_or_empty (pb_error r)\<rparr>"

definition listProbes :: "gotime \<Rightarrow> view_filter \<Rightarrow> ('ip catalog, service_error, probe_state_row list) tx" where
  "listProbes now f =
     query DatabaseError (\<lambda>t. map scan_probe_state
       (limit 5000 (order_desc pb_observed_at (filter (probe_view_selected now f (core t)) (connection_probes (core t))))))"

section \<open>Merging\<close>

definition connectionStateKey :: "string \<Rightarrow> string \<Rightarrow> string \<Rightarrow> int \<Rightarrow> string" where
  "connectionStateKey sourceVMID destVMID protocol port =
     sourceVMID @ ''|'' @ destVMID @ ''|'' @ protocol @ ''|'' @ itoa port"

definition maxTimePtr :: "gotime option \<Rightarrow> gotime \<Rightarrow> gotime option" where
  "maxTimePtr current candidate =
     (case current of None \<Rightarrow> Some candidate | Some c \<Rightarrow> if candidate > c then Some candidate else current)"

definition observed_zero :: connection_observed where
  "observed_zero =
     \<lparr>co_SourceVMID = [], co_DestVMID = [], co_Protocol = [], co_Port = 0, co_Scope = [], co_Observed = False, co_Reachable = False,
      co_Active = False, co_Failed = False, co_RequestCount = 0, co_ErrorCount = 0, co_BytesTotal = 0, co_AvgRTTMs = 0,
      co_LastObservedAt = None, co_LastErrorAt = None\<rparr>"

text \<open>The view \<open>ensureConnectionView\<close> makes when there is none for the key.\<close>

definition new_view :: "string \<Rightarrow> string \<Rightarrow> string \<Rightarrow> int \<Rightarrow> connection_view" where
  "new_view sourceVMID destVMID protocol port =
     \<lparr>cv_ID = sourceVMID @ ''->'' @ destVMID @ '':'' @ protocol @ ''/'' @ itoa port, cv_TenantID = [], cv_ProjectID = [],
      cv_SourceVMID = sourceVMID, cv_SourceName = [], cv_SourceIP = [], cv_DestVMID = destVMID, cv_DestName = [], cv_DestIP = [],
      cv_Protocol = protocol, cv_Port = port, cv_Scope = [], cv_Intent = None, cv_Configuration = None, cv_Observed = observed_zero,
      cv_IntendedState = ''not_declared'', cv_ConfigurationState = ''unknown'', cv_ObservedState = ''not_observed'',
      cv_ValidationState = ''unknown'', cv_HealthState = ''unknown'', cv_SecurityState = ''unknown'', cv_Description = [],
      cv_LastChangedAt = None\<rparr>"

type_synonym view_map = "(string \<times> connection_view) list"

definition ensureConnectionView :: "view_map \<Rightarrow> string \<Rightarrow> string \<Rightarrow> string \<Rightarrow> string \<Rightarrow> int \<Rightarrow> connection_view" where
  "ensureConnectionView views key sourceVMID destVMID protocol port =
     (case alist_get views key of Some view \<Rightarrow> view | None \<Rightarrow> new_view sourceVMID destVMID protocol port)"

definition intent_key :: "connection_intent \<Rightarrow> string" where
  "intent_key i = connectionStateKey (ci_SourceVMID i) (ci_DestVMID i) (ci_Protocol i) (ci_Port i)"

definition config_key :: "connection_configuration \<Rightarrow> string" where
  "config_key c = connectionStateKey (cc_SourceVMID c) (cc_DestVMID c) (cc_Protocol c) (cc_Port c)"

definition observed_key :: "observed_row \<Rightarrow> string" where
  "observed_key r = connectionStateKey (or_SourceVMID r) (or_DestVMID r) (or_Protocol r) (or_Port r)"

definition probe_state_key :: "probe_state_row \<Rightarrow> string" where
  "probe_state_key p = connectionStateKey (ps_SourceVMID p) (ps_DestVMID p) (ps_Protocol p) (ps_Port p)"

definition with_intent :: "connection_view \<Rightarrow> connection_intent \<Rightarrow> connection_view" where
  "with_intent v i =
     v\<lparr>cv_Intent := Some i, cv_TenantID := valueOr (cv_TenantID v) (ci_TenantID i), cv_ProjectID := valueOr (cv_ProjectID v) (ci_ProjectID i),
       cv_IntendedState := ci_Status i, cv_SecurityState := ci_Exposure i, cv_LastChangedAt := maxTimePtr (cv_LastChangedAt v) (ci_UpdatedAt i)\<rparr>"

definition with_config :: "connection_view \<Rightarrow> connection_configuration \<Rightarrow> connection_view" where
  "with_config v c =
     v\<lparr>cv_Configuration := Some c, cv_TenantID := valueOr (cv_TenantID v) (cc_TenantID c), cv_ProjectID := valueOr (cv_ProjectID v) (cc_ProjectID c),
       cv_ConfigurationState := cc_ConfigState c, cv_SecurityState := valueOr (cv_SecurityState v) (cc_SecurityState c),
       cv_LastChangedAt := (case cc_LastSyncedAt c of Some t \<Rightarrow> maxTimePtr (cv_LastChangedAt v) t | None \<Rightarrow> cv_LastChangedAt v)\<rparr>"

definition observed_of_row :: "duration \<Rightarrow> gotime \<Rightarrow> observed_row \<Rightarrow> connection_observed" where
  "observed_of_row window now r =
     (let base = observed_zero\<lparr>co_SourceVMID := or_SourceVMID r, co_DestVMID := or_DestVMID r, co_Protocol := or_Protocol r, co_Port := or_Port r,
            co_Scope := or_Scope r, co_Observed := True, co_Active := time_Sub now (or_LastObservedAt r) \<le> window,
            co_RequestCount := or_RequestCount r, co_ErrorCount := or_ErrorCount r, co_BytesTotal := or_BytesTotal r,
            co_LastObservedAt := Some (or_LastObservedAt r)\<rparr>
      in case or_LastErrorAt r of
           None \<Rightarrow> base
         | Some et \<Rightarrow> base\<lparr>co_LastErrorAt := Some et, co_Failed := time_Sub now et \<le> window\<rparr>)"

definition with_observed :: "duration \<Rightarrow> gotime \<Rightarrow> connection_view \<Rightarrow> observed_row \<Rightarrow> connection_view" where
  "with_observed window now v r =
     v\<lparr>cv_SourceName := valueOr (cv_SourceName v) (or_SourceName r), cv_DestName := valueOr (cv_DestName v) (or_DestName r),
       cv_SourceIP := valueOr (cv_SourceIP v) (or_SourceIP r), cv_DestIP := valueOr (cv_DestIP v) (or_DestIP r),
       cv_TenantID := valueOr (cv_TenantID v) (or_TenantID r), cv_ProjectID := valueOr (cv_ProjectID v) (or_ProjectID r),
       cv_Scope := valueOr (cv_Scope v) (or_Scope r), cv_Observed := observed_of_row window now r,
       cv_LastChangedAt := maxTimePtr (cv_LastChangedAt v) (or_LastObservedAt r)\<rparr>"

definition probe_observed :: "connection_observed \<Rightarrow> probe_state_row \<Rightarrow> connection_observed" where
  "probe_observed o1 p =
     (let o2 = o1\<lparr>co_SourceVMID := ps_SourceVMID p, co_DestVMID := ps_DestVMID p, co_Protocol := ps_Protocol p, co_Port := ps_Port p,
            co_Observed := True, co_Reachable := ps_Success p, co_AvgRTTMs := ps_RTTMs p\<rparr>;
          o3 = (if ps_Success p then o2
                else o2\<lparr>co_Failed := True, co_ErrorCount := wrap64 (co_ErrorCount o2 + 1), co_LastErrorAt := Some (ps_ObservedAt p)\<rparr>)
      in if (case co_LastObservedAt o3 of None \<Rightarrow> True | Some t \<Rightarrow> ps_ObservedAt p > t)
         then o3\<lparr>co_LastObservedAt := Some (ps_ObservedAt p)\<rparr> else o3)"

definition with_probe :: "connection_view \<Rightarrow> probe_state_row \<Rightarrow> connection_view" where
  "with_probe v p =
     v\<lparr>cv_Observed := probe_observed (cv_Observed v) p, cv_LastChangedAt := maxTimePtr (cv_LastChangedAt v) (ps_ObservedAt p)\<rparr>"

definition merge_intent :: "view_map \<Rightarrow> connection_intent \<Rightarrow> view_map" where
  "merge_intent views i =
     alist_set (intent_key i) (with_intent (ensureConnectionView views (intent_key i) (ci_SourceVMID i) (ci_DestVMID i) (ci_Protocol i) (ci_Port i)) i) views"

definition merge_config :: "view_map \<Rightarrow> connection_configuration \<Rightarrow> view_map" where
  "merge_config views c =
     alist_set (config_key c) (with_config (ensureConnectionView views (config_key c) (cc_SourceVMID c) (cc_DestVMID c) (cc_Protocol c) (cc_Port c)) c) views"

definition merge_observed :: "duration \<Rightarrow> gotime \<Rightarrow> view_map \<Rightarrow> observed_row \<Rightarrow> view_map" where
  "merge_observed window now views r =
     alist_set (observed_key r)
       (with_observed window now (ensureConnectionView views (observed_key r) (or_SourceVMID r) (or_DestVMID r) (or_Protocol r) (or_Port r)) r) views"

definition merge_probe_state :: "view_map \<Rightarrow> probe_state_row \<Rightarrow> view_map" where
  "merge_probe_state views p =
     alist_set (probe_state_key p)
       (with_probe (ensureConnectionView views (probe_state_key p) (ps_SourceVMID p) (ps_DestVMID p) (ps_Protocol p) (ps_Port p)) p) views"

section \<open>States\<close>

definition connectionDescription :: "connection_view \<Rightarrow> string" where
  "connectionDescription v =
     (if cv_Intent v = None \<and> co_Observed (cv_Observed v)
      then ''Active but undocumented: VMLens observed traffic/probe, but no connection intent exists yet.''
      else if cv_Intent v \<noteq> None \<and> \<not> co_Observed (cv_Observed v)
      then ''Intended but inactive: connection exists in the model, but VMLens has not observed recent traffic or probe evidence.''
      else if cv_Configuration v = None
      then ''Observed connectivity exists, but firewall/route configuration has not been synced from a cloud provider yet.''
      else if cv_HealthState v = ''degraded'' then ''Connection is reachable, but latency is above the configured slow RTT threshold.''
      else if cv_HealthState v = ''failed'' then ''Recent connection evidence contains failed attempts or probe failures.''
      else if cv_HealthState v = ''blocked'' then ''Connection is blocked by intended/configured network state.''
      else ''Connection has model context and recent observability evidence.'')"

definition declared_states :: "connection_view \<Rightarrow> connection_view" where
  "declared_states v =
     (let v1 = (case cv_Intent v of Some i \<Rightarrow> if cv_IntendedState v = [] then v\<lparr>cv_IntendedState := ci_Status i\<rparr> else v | None \<Rightarrow> v)
      in case cv_Configuration v1 of
           Some c \<Rightarrow> v1\<lparr>cv_ConfigurationState := valueOr (cv_ConfigurationState v1) (cc_ConfigState c),
                        cv_SecurityState := valueOr (cv_SecurityState v1) (cc_SecurityState c)\<rparr>
         | None \<Rightarrow> v1)"

definition observed_states :: "f64 \<Rightarrow> connection_view \<Rightarrow> connection_view" where
  "observed_states slow v =
     (let o1 = cv_Observed v in
      if co_Observed o1 then
        let v1 = (if co_Failed o1 \<or> co_ErrorCount o1 > 0
                  then v\<lparr>cv_ObservedState := ''failed'', cv_ValidationState := ''failed'', cv_HealthState := ''failed''\<rparr>
                  else if co_Reachable o1 \<or> co_Active o1 \<or> co_RequestCount o1 > 0
                  then v\<lparr>cv_ObservedState := ''active'', cv_ValidationState := ''connectivity_validated'', cv_HealthState := ''healthy''\<rparr>
                  else v\<lparr>cv_ObservedState := ''inactive'', cv_ValidationState := ''not_recently_validated'', cv_HealthState := ''inactive''\<rparr>)
        in if co_AvgRTTMs o1 \<ge> slow then v1\<lparr>cv_HealthState := ''degraded'', cv_ValidationState := ''connectivity_slow''\<rparr> else v1
      else if cv_Intent v \<noteq> None
      then v\<lparr>cv_ObservedState := ''not_observed'', cv_ValidationState := ''not_validated'', cv_HealthState := ''inactive''\<rparr>
      else v)"

definition finalizeConnectionView :: "f64 \<Rightarrow> connection_view \<Rightarrow> connection_view" where
  "finalizeConnectionView slow view =
     (let v = observed_states slow (declared_states view);
          v1 = (if cv_ConfigurationState v = ''denied'' \<or> cv_ConfigurationState v = ''blocked'' \<or> cv_IntendedState v = ''blocked''
                then v\<lparr>cv_HealthState := ''blocked'', cv_ValidationState := ''blocked_by_config''\<rparr> else v)
      in v1\<lparr>cv_Description := connectionDescription v1\<rparr>)"

definition merge_all :: "duration \<Rightarrow> gotime \<Rightarrow> connection_intent list \<Rightarrow> connection_configuration list \<Rightarrow> observed_row list
    \<Rightarrow> probe_state_row list \<Rightarrow> view_map" where
  "merge_all window now is cs os ps =
     foldl merge_probe_state (foldl (merge_observed window now) (foldl merge_config (foldl merge_intent [] is) cs) os) ps"

text \<open>\<open>configByKey\<close>, and the lookup in it for views without a configuration.\<close>

definition view_key :: "connection_view \<Rightarrow> string" where
  "view_key v = connectionStateKey (cv_SourceVMID v) (cv_DestVMID v) (cv_Protocol v) (cv_Port v)"

definition config_map :: "connection_configuration list \<Rightarrow> (string \<times> connection_configuration) list" where
  "config_map cs = foldl (\<lambda>m c. alist_set (config_key c) c m) [] cs"

definition attach_config :: "connection_configuration list \<Rightarrow> connection_view \<Rightarrow> connection_view" where
  "attach_config cs v =
     (case cv_Configuration v of
        Some _ \<Rightarrow> v
      | None \<Rightarrow> (case alist_get (config_map cs) (view_key v) of Some c \<Rightarrow> v\<lparr>cv_Configuration := Some c\<rparr> | None \<Rightarrow> v))"

definition build_views :: "duration \<Rightarrow> f64 \<Rightarrow> gotime \<Rightarrow> connection_intent list \<Rightarrow> connection_configuration list \<Rightarrow> observed_row list
    \<Rightarrow> probe_state_row list \<Rightarrow> connection_view list" where
  "build_views window slow now is cs os ps =
     map (\<lambda>(k, v). finalizeConnectionView slow (attach_config cs v)) (merge_all window now is cs os ps)"

text \<open>
  \<open>NewConnectionStateService\<close>: the window and the slow threshold. \<open>List\<close>: the iteration order of
  the map and \<open>sort.Slice\<close> (whose comparison is by time and falls back to the identifier) are
  the parameter \<open>arrange\<close>, which permutes; the clock readings of one request are one instant.
\<close>

definition view_window :: "duration \<Rightarrow> duration" where
  "view_window activeWindow = (if activeWindow \<le> 0 then 5 * Second else activeWindow)"

definition slowRTTMS :: f64 where
  "slowRTTMS = 100"

definition connection_List ::
    "'ip pg \<Rightarrow> (connection_view list \<Rightarrow> connection_view list) \<Rightarrow> duration \<Rightarrow> gotime \<Rightarrow> gotime \<Rightarrow> view_filter
     \<Rightarrow> ('ip catalog, service_error, connection_view list) tx" where
  "connection_List pg arrange activeWindow now clock f =
     tx_bind (listIntents f) (\<lambda>is.
       tx_bind (listConfigurations f) (\<lambda>cs.
         tx_bind (listObserved pg now f) (\<lambda>os.
           tx_bind (listProbes now f) (\<lambda>ps.
             tx_return (arrange (build_views (view_window activeWindow) slowRTTMS clock is cs os ps))))))"

section \<open>One view per connection\<close>

text \<open>
  A map filled by a loop, as an interface: every element has a key, and updates the value of
  its key, or a new one. Its clients get the value at a key as a fold over the elements of
  that key alone.
\<close>

locale keyed_fold =
  fixes step :: "('k \<times> 'v) list \<Rightarrow> 'x \<Rightarrow> ('k \<times> 'v) list"
    and key :: "'x \<Rightarrow> 'k"
    and new :: "'x \<Rightarrow> 'v"
    and upd :: "'v \<Rightarrow> 'x \<Rightarrow> 'v"
  assumes step: "step m x = alist_set (key x) (upd (case alist_get m (key x) of Some v \<Rightarrow> v | None \<Rightarrow> new x) x) m"
begin

definition at_key :: "'v option \<Rightarrow> 'x list \<Rightarrow> 'v option" where
  "at_key v xs = foldl (\<lambda>v x. Some (upd (case v of Some u \<Rightarrow> u | None \<Rightarrow> new x) x)) v xs"

lemma get_fold: "alist_get (foldl step m xs) k = at_key (alist_get m k) (filter (\<lambda>x. key x = k) xs)"
  by (induction xs arbitrary: m) (auto simp: at_key_def step alist_get_set)

lemma distinct_fold: "distinct_keys m \<Longrightarrow> distinct_keys (foldl step m xs)"
  by (induction xs arbitrary: m) (simp_all add: step)

lemma keys_fold: "fst ` set (foldl step m xs) = fst ` set m \<union> key ` set xs"
  by (induction xs arbitrary: m) (auto simp: step keys_alist_set)

text \<open>A field that the update sets from the element holds the last element; one it leaves alone is kept.\<close>

lemma at_key_last:
  assumes "\<And>v x. f (upd v x) = g x"
  shows "(case at_key v xs of Some u \<Rightarrow> f u | None \<Rightarrow> d) = (if xs = [] then case v of Some u \<Rightarrow> f u | None \<Rightarrow> d else g (last xs))"
  by (induction xs arbitrary: v) (auto simp: at_key_def assms)

lemma at_key_keep:
  assumes "\<And>v x. f (upd v x) = f v" "\<And>x. f (new x) = d"
  shows "(case at_key v xs of Some u \<Rightarrow> f u | None \<Rightarrow> d) = (case v of Some u \<Rightarrow> f u | None \<Rightarrow> d)"
  by (induction xs arbitrary: v) (auto simp: at_key_def assms split: option.splits)

lemma at_key_fold:
  assumes "\<And>v x. f (upd v x) = h (f v) x" "\<And>x. f (new x) = d"
  shows "(case at_key v xs of Some u \<Rightarrow> f u | None \<Rightarrow> d) = foldl h (case v of Some u \<Rightarrow> f u | None \<Rightarrow> d) xs"
  by (induction xs arbitrary: v) (auto simp: at_key_def assms split: option.splits)

lemma at_key_inv:
  assumes "\<And>v x. Q v \<Longrightarrow> Q (upd v x)" "\<And>x. Q (new x)"
  shows "pred_option Q v \<Longrightarrow> pred_option Q (at_key v xs)"
  by (induction xs arbitrary: v) (auto simp: at_key_def assms split: option.splits)

lemma fold_inv:
  assumes "\<And>k v x. P k v \<Longrightarrow> P k (upd v x)" "\<And>x. P (key x) (new x)"
  shows "list_all (\<lambda>(k, v). P k v) m \<Longrightarrow> list_all (\<lambda>(k, v). P k v) (foldl step m xs)"
proof (induction xs arbitrary: m)
  case (Cons x xs)
  have "P (key x) (upd (case alist_get m (key x) of Some v \<Rightarrow> v | None \<Rightarrow> new x) x)"
    using Cons.prems assms by (cases "alist_get m (key x)") (auto simp: list_all_iff dest!: alist_get_in)
  then have "list_all (\<lambda>(k, v). P k v) (step m x)"
    using Cons.prems set_alist_set [of "key x" _ m] unfolding step list_all_iff by blast
  then show ?case using Cons.IH by simp
qed simp

end

interpretation ki: keyed_fold merge_intent intent_key
    "\<lambda>i. new_view (ci_SourceVMID i) (ci_DestVMID i) (ci_Protocol i) (ci_Port i)" with_intent
  by unfold_locales (simp add: merge_intent_def ensureConnectionView_def)

interpretation kc: keyed_fold merge_config config_key
    "\<lambda>c. new_view (cc_SourceVMID c) (cc_DestVMID c) (cc_Protocol c) (cc_Port c)" with_config
  by unfold_locales (simp add: merge_config_def ensureConnectionView_def)

interpretation ko: keyed_fold "merge_observed window now" observed_key
    "\<lambda>r. new_view (or_SourceVMID r) (or_DestVMID r) (or_Protocol r) (or_Port r)" "with_observed window now" for window now
  by unfold_locales (simp add: merge_observed_def ensureConnectionView_def)

interpretation kp: keyed_fold merge_probe_state probe_state_key
    "\<lambda>p. new_view (ps_SourceVMID p) (ps_DestVMID p) (ps_Protocol p) (ps_Port p)" with_probe
  by unfold_locales (simp add: merge_probe_state_def ensureConnectionView_def)

lemma merged_keys:
  "distinct_keys (merge_all window now is cs os ps)"
  "fst ` set (merge_all window now is cs os ps) =
     intent_key ` set is \<union> config_key ` set cs \<union> observed_key ` set os \<union> probe_state_key ` set ps"
  by (simp_all add: merge_all_def ki.distinct_fold kc.distinct_fold ko.distinct_fold kp.distinct_fold
      ki.keys_fold kc.keys_fold ko.keys_fold kp.keys_fold)

definition last_of :: "('a \<Rightarrow> string) \<Rightarrow> string \<Rightarrow> 'a list \<Rightarrow> 'a option" where
  "last_of key k xs = (let ys = filter (\<lambda>x. key x = k) xs in if ys = [] then None else Some (last ys))"

lemma new_view_fields [simp]:
  "cv_Intent (new_view a b c d) = None" "cv_Configuration (new_view a b c d) = None" "cv_Observed (new_view a b c d) = observed_zero"
  "cv_SecurityState (new_view a b c d) = ''unknown''" "view_key (new_view a b c d) = connectionStateKey a b c d"
  by (simp_all add: new_view_def view_key_def)

lemma merge_fields [simp]:
  "cv_Intent (with_intent v i) = Some i" "cv_Intent (with_config v c) = cv_Intent v"
  "cv_Intent (with_observed w n v r) = cv_Intent v" "cv_Intent (with_probe v p) = cv_Intent v"
  "cv_Configuration (with_intent v i) = cv_Configuration v" "cv_Configuration (with_config v c) = Some c"
  "cv_Configuration (with_observed w n v r) = cv_Configuration v" "cv_Configuration (with_probe v p) = cv_Configuration v"
  "cv_Observed (with_intent v i) = cv_Observed v" "cv_Observed (with_config v c) = cv_Observed v"
  "cv_Observed (with_observed w n v r) = observed_of_row w n r" "cv_Observed (with_probe v p) = probe_observed (cv_Observed v) p"
  "view_key (with_intent v i) = view_key v" "view_key (with_config v c) = view_key v"
  "view_key (with_observed w n v r) = view_key v" "view_key (with_probe v p) = view_key v"
  by (simp_all add: with_intent_def with_config_def with_observed_def with_probe_def view_key_def)

lemma merged_at:
  "alist_get (merge_all window now is cs os ps) k =
     kp.at_key (ko.at_key window now (kc.at_key (ki.at_key None (filter (\<lambda>i. intent_key i = k) is)) (filter (\<lambda>c. config_key c = k) cs))
       (filter (\<lambda>r. observed_key r = k) os)) (filter (\<lambda>p. probe_state_key p = k) ps)"
  by (simp add: merge_all_def ki.get_fold kc.get_fold ko.get_fold kp.get_fold)

lemma merged_intent:
  "(case alist_get (merge_all window now is cs os ps) k of Some v \<Rightarrow> cv_Intent v | None \<Rightarrow> None) = last_of intent_key k is"
  unfolding merged_at
  by (simp add: kp.at_key_keep ko.at_key_keep kc.at_key_keep ki.at_key_last [where g = Some] last_of_def Let_def)

lemma merged_config:
  "(case alist_get (merge_all window now is cs os ps) k of Some v \<Rightarrow> cv_Configuration v | None \<Rightarrow> None) = last_of config_key k cs"
  unfolding merged_at
  by (simp add: kp.at_key_keep ko.at_key_keep kc.at_key_last [where g = Some] ki.at_key_keep last_of_def Let_def)

lemma merged_observed:
  "(case alist_get (merge_all window now is cs os ps) k of Some v \<Rightarrow> cv_Observed v | None \<Rightarrow> observed_zero) =
     foldl probe_observed (case last_of observed_key k os of Some r \<Rightarrow> observed_of_row window now r | None \<Rightarrow> observed_zero)
       (filter (\<lambda>p. probe_state_key p = k) ps)"
  unfolding merged_at
  by (simp add: kp.at_key_fold [where h = probe_observed] ko.at_key_last [where g = "observed_of_row window now"] kc.at_key_keep
      ki.at_key_keep last_of_def Let_def)

interpretation km: keyed_fold "\<lambda>m c. alist_set (config_key c) c m" config_key "\<lambda>c. c" "\<lambda>_ c. c"
  by unfold_locales simp

lemma config_map_get: "alist_get (config_map cs) k = last_of config_key k cs"
proof -
  have "km.at_key None xs = (if xs = [] then None else Some (last xs))" for xs
    using km.at_key_last [where f = Some and g = Some and v = None and d = None and xs = xs]
    by (cases "km.at_key None xs") (simp_all split: if_splits)
  then show ?thesis by (simp add: config_map_def km.get_fold last_of_def Let_def)
qed

text \<open>What every merged view keeps from \<open>ensureConnectionView\<close>: its key, and states that are still unknown.\<close>

definition fresh_states :: "string \<Rightarrow> connection_view \<Rightarrow> bool" where
  "fresh_states k v \<longleftrightarrow> view_key v = k \<and> cv_HealthState v = ''unknown'' \<and> cv_ValidationState v = ''unknown''"

lemma fresh_states_new [simp]: "fresh_states k (new_view a b c d) \<longleftrightarrow> k = connectionStateKey a b c d"
  by (auto simp: fresh_states_def new_view_def view_key_def)

lemma fresh_states_merge:
  "fresh_states k v \<Longrightarrow> fresh_states k (with_intent v i)" "fresh_states k v \<Longrightarrow> fresh_states k (with_config v c)"
  "fresh_states k v \<Longrightarrow> fresh_states k (with_observed w n v r)" "fresh_states k v \<Longrightarrow> fresh_states k (with_probe v p)"
  by (simp_all add: fresh_states_def) (simp_all add: with_intent_def with_config_def with_observed_def with_probe_def)

lemma merged_fresh: "list_all (\<lambda>(k, v). fresh_states k v) (merge_all window now is cs os ps)"
  unfolding merge_all_def
  by (intro ki.fold_inv kc.fold_inv ko.fold_inv kp.fold_inv)
     (simp_all add: fresh_states_merge intent_key_def config_key_def observed_key_def probe_state_key_def)

lemma merged_view:
  assumes "(k, v) \<in> set (merge_all window now is cs os ps)"
  shows "view_key v = k" "alist_get (merge_all window now is cs os ps) k = Some v"
    and "cv_HealthState v = ''unknown''" "cv_ValidationState v = ''unknown''"
  using assms merged_fresh [of window now "is" cs os ps] merged_keys(1) [of window now "is" cs os ps]
  by (auto simp: list_all_iff fresh_states_def alist_get_distinct)

text \<open>The second lookup of the configuration never finds one.\<close>

lemma attach_config_redundant:
  assumes "(k, v) \<in> set (merge_all window now is cs os ps)"
  shows "attach_config cs v = v"
  using merged_view [OF assms] merged_config [of window now "is" cs os ps k]
  by (auto simp: attach_config_def config_map_get split: option.split)

lemma kept_by_states:
  "cv_Intent (declared_states v) = cv_Intent v" "cv_Configuration (declared_states v) = cv_Configuration v"
  "cv_Observed (declared_states v) = cv_Observed v" "cv_SourceVMID (declared_states v) = cv_SourceVMID v"
  "cv_DestVMID (declared_states v) = cv_DestVMID v" "cv_Protocol (declared_states v) = cv_Protocol v" "cv_Port (declared_states v) = cv_Port v"
  "cv_HealthState (declared_states v) = cv_HealthState v" "cv_ValidationState (declared_states v) = cv_ValidationState v"
  "cv_Intent (observed_states slow v) = cv_Intent v" "cv_Configuration (observed_states slow v) = cv_Configuration v"
  "cv_Observed (observed_states slow v) = cv_Observed v" "cv_SourceVMID (observed_states slow v) = cv_SourceVMID v"
  "cv_DestVMID (observed_states slow v) = cv_DestVMID v" "cv_Protocol (observed_states slow v) = cv_Protocol v"
  "cv_Port (observed_states slow v) = cv_Port v"
  "cv_IntendedState (observed_states slow v) = cv_IntendedState v" "cv_ConfigurationState (observed_states slow v) = cv_ConfigurationState v"
  by (simp_all add: observed_states_def declared_states_def Let_def split: option.split)

lemma finalize_fields [simp]:
  "cv_Intent (finalizeConnectionView slow v) = cv_Intent v" "cv_Configuration (finalizeConnectionView slow v) = cv_Configuration v"
  "cv_Observed (finalizeConnectionView slow v) = cv_Observed v" "view_key (finalizeConnectionView slow v) = view_key v"
  by (simp_all add: finalizeConnectionView_def Let_def kept_by_states view_key_def)

lemma build_views_cases:
  assumes "v \<in> set (build_views window slow now is cs os ps)"
  obtains k u where "(k, u) \<in> set (merge_all window now is cs os ps)" "v = finalizeConnectionView slow u" "view_key v = k"
  using assms merged_view(1) by (auto simp: build_views_def attach_config_redundant)

lemma build_views_keys: "map view_key (build_views window slow now is cs os ps) = map fst (merge_all window now is cs os ps)"
  by (auto simp: build_views_def attach_config_redundant merged_view(1))

section \<open>What a view says\<close>

lemma probes_observed:
  "co_RequestCount (foldl probe_observed o1 ps) = co_RequestCount o1"
  "co_BytesTotal (foldl probe_observed o1 ps) = co_BytesTotal o1"
  "co_Observed (foldl probe_observed o1 ps) \<longleftrightarrow> co_Observed o1 \<or> ps \<noteq> []"
  "co_Failed (foldl probe_observed o1 ps) \<longleftrightarrow> co_Failed o1 \<or> (\<exists>p\<in>set ps. \<not> ps_Success p)"
  "co_Reachable (foldl probe_observed o1 ps) = (if ps = [] then co_Reachable o1 else ps_Success (last ps))"
  by (induction ps arbitrary: o1) (auto simp: probe_observed_def Let_def split: option.split)

lemma probes_errors:
  "in_i64 (co_ErrorCount o1) \<Longrightarrow>
   co_ErrorCount (foldl probe_observed o1 ps) = wrap64 (co_ErrorCount o1 + int (length (filter (\<lambda>p. \<not> ps_Success p) ps)))"
proof (induction ps arbitrary: o1)
  case (Cons p ps)
  have "co_ErrorCount (probe_observed o1 p) = (if ps_Success p then co_ErrorCount o1 else wrap64 (co_ErrorCount o1 + 1))"
    by (simp add: probe_observed_def Let_def split: option.split)
  then show ?case using Cons by (simp add: ac_simps)
qed simp

lemma view_parts:
  assumes "v \<in> set (build_views window slow now is cs os ps)"
  shows "cv_Intent v = last_of intent_key (view_key v) is" "cv_Configuration v = last_of config_key (view_key v) cs"
    and "cv_Observed v = foldl probe_observed
           (case last_of observed_key (view_key v) os of Some r \<Rightarrow> observed_of_row window now r | None \<Rightarrow> observed_zero)
           (filter (\<lambda>p. probe_state_key p = view_key v) ps)"
proof -
  obtain k u where mem: "(k, u) \<in> set (merge_all window now is cs os ps)" and v: "v = finalizeConnectionView slow u" "view_key v = k"
    using assms by (rule build_views_cases)
  have get: "alist_get (merge_all window now is cs os ps) k = Some u" using mem by (rule merged_view(2))
  show "cv_Intent v = last_of intent_key (view_key v) is" "cv_Configuration v = last_of config_key (view_key v) cs"
    "cv_Observed v = foldl probe_observed
           (case last_of observed_key (view_key v) os of Some r \<Rightarrow> observed_of_row window now r | None \<Rightarrow> observed_zero)
           (filter (\<lambda>p. probe_state_key p = view_key v) ps)"
    using merged_intent [of window now "is" cs os ps k] merged_config [of window now "is" cs os ps k]
      merged_observed [of window now "is" cs os ps k] by (simp_all add: get v(2)) (simp_all add: v(1))
qed

text \<open>
  C17. There is exactly one view per connection, and what it shows comes from that connection
  alone. The views have different keys, and the keys are those of all intents, configurations,
  observed flows and probes. A view shows the last listed intent and configuration of its
  connection; it is observed when there is a flow or a probe; its request count is that of the
  last listed flow group; and its error count is that of the group plus the failed probes.
\<close>

theorem connection_views_exact:
  assumes "v \<in> set (build_views window slow now is cs os ps)"
  defines "k \<equiv> view_key v"
  defines "row \<equiv> last_of observed_key k os" and "probed \<equiv> filter (\<lambda>p. probe_state_key p = k) ps"
  shows "distinct (map view_key (build_views window slow now is cs os ps))
    \<and> view_key ` set (build_views window slow now is cs os ps)
        = intent_key ` set is \<union> config_key ` set cs \<union> observed_key ` set os \<union> probe_state_key ` set ps
    \<and> cv_Intent v = last_of intent_key k is \<and> cv_Configuration v = last_of config_key k cs
    \<and> (co_Observed (cv_Observed v) \<longleftrightarrow> row \<noteq> None \<or> probed \<noteq> [])
    \<and> co_RequestCount (cv_Observed v) = (case row of Some r \<Rightarrow> or_RequestCount r | None \<Rightarrow> 0)
    \<and> ((case row of Some r \<Rightarrow> in_i64 (or_ErrorCount r) | None \<Rightarrow> True) \<longrightarrow>
        co_ErrorCount (cv_Observed v) =
          wrap64 ((case row of Some r \<Rightarrow> or_ErrorCount r | None \<Rightarrow> 0) + int (length (filter (\<lambda>p. \<not> ps_Success p) probed))))"
proof -
  have keys: "map view_key (build_views window slow now is cs os ps) = map fst (merge_all window now is cs os ps)"
    by (rule build_views_keys)
  have "distinct (map view_key (build_views window slow now is cs os ps))"
    unfolding keys using merged_keys(1) by (simp add: distinct_keys_def)
  moreover have "view_key ` set (build_views window slow now is cs os ps) = fst ` set (merge_all window now is cs os ps)"
    using arg_cong [OF keys, of set] by simp
  moreover have "cv_Intent v = last_of intent_key k is" "cv_Configuration v = last_of config_key k cs"
    using view_parts(1,2) [OF assms(1)] by (simp_all add: k_def)
  moreover have obs: "cv_Observed v = foldl probe_observed (case row of Some r \<Rightarrow> observed_of_row window now r | None \<Rightarrow> observed_zero) probed"
    using view_parts(3) [OF assms(1)] by (simp add: k_def row_def probed_def)
  moreover have row: "co_Observed (observed_of_row window now r)" "co_RequestCount (observed_of_row window now r) = or_RequestCount r"
    "co_ErrorCount (observed_of_row window now r) = or_ErrorCount r" for r
    by (simp_all add: observed_of_row_def Let_def split: option.split)
  moreover have "\<not> co_Observed observed_zero" "co_RequestCount observed_zero = 0" "co_ErrorCount observed_zero = 0"
    by (simp_all add: observed_zero_def)
  ultimately show ?thesis
    by (cases row) (simp_all add: merged_keys(2) probes_observed probes_errors in_i64_def)
qed

definition blocked_by_config :: "connection_view \<Rightarrow> bool" where
  "blocked_by_config v \<longleftrightarrow>
     cv_ConfigurationState v = ''denied'' \<or> cv_ConfigurationState v = ''blocked'' \<or> cv_IntendedState v = ''blocked''"

lemma finalize_health:
  fixes slow :: f64
  assumes "cv_HealthState u = ''unknown''" "cv_ValidationState u = ''unknown''"
  defines "v \<equiv> finalizeConnectionView slow u"
  defines "good \<equiv> co_Observed (cv_Observed v) \<and> \<not> co_Failed (cv_Observed v) \<and> co_ErrorCount (cv_Observed v) \<le> 0
      \<and> (co_Reachable (cv_Observed v) \<or> co_Active (cv_Observed v) \<or> co_RequestCount (cv_Observed v) > 0)
      \<and> co_AvgRTTMs (cv_Observed v) < slow \<and> \<not> blocked_by_config v"
  shows "cv_HealthState v = ''healthy'' \<longleftrightarrow> good" "cv_ValidationState v = ''connectivity_validated'' \<longleftrightarrow> good"
proof -
  define d where "d = declared_states u"
  have d: "cv_HealthState d = ''unknown''" "cv_ValidationState d = ''unknown''" "cv_Observed d = cv_Observed u"
    using assms(1,2) by (simp_all add: d_def kept_by_states)
  have v: "cv_ConfigurationState v = cv_ConfigurationState d" "cv_IntendedState v = cv_IntendedState d" "cv_Observed v = cv_Observed u"
    by (simp_all add: v_def finalizeConnectionView_def Let_def kept_by_states d_def)
  have "cv_HealthState v = (if blocked_by_config v then ''blocked'' else cv_HealthState (observed_states slow d))"
    "cv_ValidationState v = (if blocked_by_config v then ''blocked_by_config'' else cv_ValidationState (observed_states slow d))"
    by (simp_all add: v_def finalizeConnectionView_def Let_def kept_by_states d_def blocked_by_config_def)
  then show "cv_HealthState v = ''healthy'' \<longleftrightarrow> good" "cv_ValidationState v = ''connectivity_validated'' \<longleftrightarrow> good"
    using d unfolding good_def v(3) observed_states_def Let_def by auto
qed

text \<open>
  C18. A connection is called healthy, and its connectivity validated, exactly when the evidence
  says so: it was observed, nothing failed and no error was counted, it was reached, active or
  requested, the round-trip time is below the slow threshold, and neither the configuration nor
  the intent blocks it.
\<close>

theorem connection_health_exact:
  assumes "v \<in> set (build_views window slow now is cs os ps)"
  shows "(cv_HealthState v = ''healthy'' \<longleftrightarrow>
      co_Observed (cv_Observed v) \<and> \<not> co_Failed (cv_Observed v) \<and> co_ErrorCount (cv_Observed v) \<le> 0
      \<and> (co_Reachable (cv_Observed v) \<or> co_Active (cv_Observed v) \<or> co_RequestCount (cv_Observed v) > 0)
      \<and> co_AvgRTTMs (cv_Observed v) < slow \<and> \<not> blocked_by_config v)
    \<and> (cv_ValidationState v = ''connectivity_validated'' \<longleftrightarrow> cv_HealthState v = ''healthy'')"
proof -
  obtain k u where mem: "(k, u) \<in> set (merge_all window now is cs os ps)" and v: "v = finalizeConnectionView slow u"
    using assms by (rule build_views_cases)
  show ?thesis using finalize_health [OF merged_view(3,4) [OF mem]] unfolding v by blast
qed

definition example_probe :: "bool \<Rightarrow> f64 \<Rightarrow> probe_state_row" where
  "example_probe ok rtt = \<lparr>ps_SourceVMID = ''a'', ps_DestVMID = ''b'', ps_Protocol = ''tcp'', ps_Port = 7, ps_Success = ok,
     ps_RTTMs = rtt, ps_ObservedAt = 9, ps_LastErrorText = []\<rparr>"

definition example_observed :: "string \<Rightarrow> gotime \<Rightarrow> i64 \<Rightarrow> observed_row" where
  "example_observed ip seen requests = \<lparr>or_SourceVMID = ''a'', or_DestVMID = ''b'', or_SourceName = [], or_DestName = [], or_SourceIP = ip,
     or_DestIP = ''10.0.0.2'', or_TenantID = [], or_ProjectID = [], or_Protocol = ''tcp'', or_Port = 7, or_Scope = ''internal_same_tenant'',
     or_RequestCount = requests, or_ErrorCount = 0, or_BytesTotal = 0, or_LastObservedAt = seen, or_LastErrorAt = None\<rparr>"

lemmas view_eval = build_views_def merge_all_def merge_observed_def merge_probe_state_def observed_key_def probe_state_key_def
  example_observed_def example_probe_def ensureConnectionView_def attach_config_def config_map_def finalizeConnectionView_def
  kept_by_states with_observed_def with_probe_def new_view_def declared_states_def Let_def

lemmas observed_eval = probe_observed_def observed_of_row_def observed_zero_def example_observed_def example_probe_def

definition example_views :: "connection_view list" where
  "example_views = build_views 5 100 10 [] [] [example_observed ''10.0.0.1'' 8 3] [example_probe True 7]"

lemma example_views_shown:
  "map (\<lambda>v. (view_key v, cv_Observed v, cv_ConfigurationState v, cv_IntendedState v)) example_views =
    [(connectionStateKey ''a'' ''b'' ''tcp'' 7,
      probe_observed (observed_of_row 5 10 (example_observed ''10.0.0.1'' 8 3)) (example_probe True 7), ''unknown'', ''not_declared'')]"
  by (simp add: example_views_def view_eval view_key_def)

lemma example_view:
  obtains v where "example_views = [v]" "v \<in> set (build_views 5 100 10 [] [] [example_observed ''10.0.0.1'' 8 3] [example_probe True 7])"
    "view_key v = connectionStateKey ''a'' ''b'' ''tcp'' 7"
    "cv_Observed v = probe_observed (observed_of_row 5 10 (example_observed ''10.0.0.1'' 8 3)) (example_probe True 7)"
    "cv_ConfigurationState v = ''unknown''" "cv_IntendedState v = ''not_declared''"
proof -
  obtain v where v: "example_views = [v]" using example_views_shown by (cases example_views) auto
  then show ?thesis using that example_views_shown unfolding v example_views_def [symmetric] by simp
qed

theorem connection_views_exact_witness:
  "co_RequestCount (cv_Observed (hd example_views)) = 3 \<and> co_ErrorCount (cv_Observed (hd example_views)) = 0"
proof -
  obtain v where v: "example_views = [v]"
    "v \<in> set (build_views 5 100 10 [] [] [example_observed ''10.0.0.1'' 8 3] [example_probe True 7])"
    "view_key v = connectionStateKey ''a'' ''b'' ''tcp'' 7" by (rule example_view)
  have "last_of observed_key (view_key v) [example_observed ''10.0.0.1'' 8 3] = Some (example_observed ''10.0.0.1'' 8 3)"
    by (simp add: v(3) last_of_def observed_key_def example_observed_def)
  then show ?thesis
    using connection_views_exact [OF v(2)] by (simp add: v(1) example_observed_def example_probe_def in_i64_def)
qed

theorem connection_health_exact_witness:
  "cv_HealthState (hd example_views) = ''healthy'' \<and> cv_ValidationState (hd example_views) = ''connectivity_validated''"
proof -
  obtain v where v: "example_views = [v]"
    "v \<in> set (build_views 5 100 10 [] [] [example_observed ''10.0.0.1'' 8 3] [example_probe True 7])"
    "cv_Observed v = probe_observed (observed_of_row 5 10 (example_observed ''10.0.0.1'' 8 3)) (example_probe True 7)"
    "cv_ConfigurationState v = ''unknown''" "cv_IntendedState v = ''not_declared''" by (rule example_view)
  have "co_Observed (cv_Observed v)" "\<not> co_Failed (cv_Observed v)" "co_ErrorCount (cv_Observed v) = 0" "co_Reachable (cv_Observed v)"
    "co_AvgRTTMs (cv_Observed v) = 7" "\<not> blocked_by_config v"
    unfolding v(3) by (simp_all add: observed_eval v(4,5) blocked_by_config_def Let_def)
  then show ?thesis using connection_health_exact [OF v(2)] by (simp add: v(1))
qed

section \<open>Observations on the code\<close>

text \<open>
  The observed groups of one connection (one per pair of addresses and scope) are listed the
  most recent first, and each overwrites the one before: the view shows the oldest group.
\<close>

lemma oldest_group_shown:
  "map (\<lambda>v. (co_RequestCount (cv_Observed v), co_Active (cv_Observed v)))
     (build_views 5 100 10 [] [] [example_observed ''10.0.0.1'' 9 30, example_observed ''10.0.0.7'' 2 1] []) = [(1, False)]"
  by (simp add: view_eval observed_eval time_Sub_def)

text \<open>A failed probe that took long is reported as degraded.\<close>

lemma slow_failure_degraded:
  "map (\<lambda>v. (cv_ObservedState v, cv_HealthState v, cv_ValidationState v)) (build_views 5 100 10 [] [] [] [example_probe False 150])
     = [(''failed'', ''degraded'', ''connectivity_slow'')]"
  by (simp add: view_eval observed_eval observed_states_def)

text \<open>The security state of a configuration never reaches a view: it is \<open>unknown\<close> unless an intent sets it.\<close>

lemma security_without_intent:
  assumes "v \<in> set (build_views window slow now is cs os ps)" "view_key v \<notin> intent_key ` set is"
  shows "cv_SecurityState v = ''unknown''"
proof -
  obtain k u where mem: "(k, u) \<in> set (merge_all window now is cs os ps)" and v: "v = finalizeConnectionView slow u" "view_key v = k"
    using assms(1) by (rule build_views_cases)
  let ?Q = "\<lambda>u. cv_SecurityState u = ''unknown''"
  have none: "filter (\<lambda>i. intent_key i = k) is = []" using assms(2) unfolding v(2) filter_empty_conv by blast
  have "pred_option ?Q (alist_get (merge_all window now is cs os ps) k)"
    unfolding merged_at none
    by (intro kp.at_key_inv ko.at_key_inv kc.at_key_inv)
       (simp_all add: with_config_def with_observed_def with_probe_def valueOr_def ki.at_key_def)
  then have "?Q u" using merged_view(2) [OF mem] by simp
  then show ?thesis
    unfolding v(1) finalizeConnectionView_def observed_states_def declared_states_def Let_def by (simp add: valueOr_def split: option.split)
qed

end
