(* ===== verification/Cloud_Context.thy ===== *)
theory Cloud_Context
  imports Connection_Views
begin

text \<open>
  The cloud context of the backend: the provider interface (\<open>src/backend/internal/cloud/provider.go\<close>)
  and \<open>CloudContextService\<close> (\<open>src/backend/internal/service/cloud_context_service.go\<close>), which lists
  the hosts, public addresses, firewall rules, routes and policies of an owner. The property is
  the isolation of owners: a context asked for a tenant or a project contains nothing of another.
\<close>

section \<open>Data\<close>

record ownership_scope =
  os_TenantID :: string
  os_ProjectID :: string

record cloud_filter =
  cx_TenantID :: string
  cx_ProjectID :: string
  cx_VMID :: string

record provider_status =
  ps_Name :: string
  ps_Mode :: string
  ps_Connected :: bool
  ps_Capabilities :: "string list"
  ps_LastSyncAt :: "gotime option"
  ps_Error :: string

record cloud_host =
  ch_ID :: string
  ch_ProviderID :: string
  ch_Name :: string
  ch_Hostname :: string
  ch_TenantID :: string
  ch_ProjectID :: string
  ch_Region :: string
  ch_Zone :: string
  ch_Role :: string
  ch_Type :: string
  ch_Environment :: string
  ch_Owner :: string
  ch_PrivateIP :: string
  ch_PublicIP :: string
  ch_NetworkID :: string
  ch_SubnetID :: string
  ch_Status :: string
  ch_LastSeen :: gotime
  ch_Interfaces :: "interface list"
  ch_ObservedOnly :: bool

record public_ip =
  pi_ID :: string
  pi_TenantID :: string
  pi_ProjectID :: string
  pi_VMID :: string
  pi_IPAddress :: string
  pi_ProviderID :: string
  pi_Status :: string
  pi_AssignedAt :: "gotime option"
  pi_LastSeenAt :: "gotime option"

record firewall_rule =
  fw_ID :: string
  fw_TenantID :: string
  fw_ProjectID :: string
  fw_ProviderID :: string
  fw_Name :: string
  fw_Direction :: string
  fw_Protocol :: string
  fw_PortMin :: int
  fw_PortMax :: int
  fw_SourceCIDR :: string
  fw_DestCIDR :: string
  fw_SourceVMID :: string
  fw_DestVMID :: string
  fw_Action :: string
  fw_Scope :: string
  fw_Description :: string
  fw_LastSyncedAt :: "gotime option"

record network_route =
  rt_ID :: string
  rt_TenantID :: string
  rt_ProjectID :: string
  rt_ProviderID :: string
  rt_NetworkID :: string
  rt_SubnetID :: string
  rt_Destination :: string
  rt_NextHop :: string
  rt_RouteType :: string
  rt_Description :: string
  rt_LastSyncedAt :: "gotime option"

record network_policy =
  np_ID :: string
  np_TenantID :: string
  np_ProjectID :: string
  np_Name :: string
  np_Zone :: string
  np_SourceVMID :: string
  np_DestVMID :: string
  np_Protocol :: string
  np_Port :: int
  np_Action :: string
  np_Description :: string
  np_LastSyncedAt :: "gotime option"

record cloud_context =
  ctx_Provider :: provider_status
  ctx_Hosts :: "cloud_host list"
  ctx_PublicIPs :: "public_ip list"
  ctx_FirewallRules :: "firewall_rule list"
  ctx_Routes :: "network_route list"
  ctx_NetworkPolicies :: "network_policy list"

section \<open>Providers\<close>

record provider =
  pv_Name :: string
  pv_Status :: "string + provider_status"
  pv_ListHosts :: "ownership_scope \<Rightarrow> string + cloud_host list"
  pv_ListPublicIPs :: "ownership_scope \<Rightarrow> string + public_ip list"
  pv_ListFirewallRules :: "ownership_scope \<Rightarrow> string + firewall_rule list"
  pv_ListRoutes :: "ownership_scope \<Rightarrow> string + network_route list"
  pv_ListNetworkPolicies :: "ownership_scope \<Rightarrow> string + network_policy list"

definition noop_Status :: provider_status where
  "noop_Status =
     \<lparr>ps_Name = ''local-db'', ps_Mode = ''read_only_model'', ps_Connected = True,
      ps_Capabilities = [''vm_inventory_model'', ''public_ip_model'', ''firewall_rule_model'', ''route_model'', ''network_policy_model'',
        ''connection_intent_model'', ''observed_connection_model''],
      ps_LastSyncAt = None, ps_Error = []\<rparr>"

definition NoopProvider :: provider where
  "NoopProvider =
     \<lparr>pv_Name = ''local-db'', pv_Status = Inr noop_Status, pv_ListHosts = (\<lambda>_. Inr []), pv_ListPublicIPs = (\<lambda>_. Inr []),
      pv_ListFirewallRules = (\<lambda>_. Inr []), pv_ListRoutes = (\<lambda>_. Inr []), pv_ListNetworkPolicies = (\<lambda>_. Inr [])\<rparr>"

section \<open>Tables\<close>

text \<open>The columns of type CIDR are kept as the text their cast gives.\<close>

record 'ip public_ip_row =
  pr_id :: string
  pr_tenant_id :: "string option"
  pr_project_id :: "string option"
  pr_vm_id :: "string option"
  pr_ip_address :: 'ip
  pr_provider_id :: "string option"
  pr_status :: string
  pr_assigned_at :: "gotime option"
  pr_last_seen_at :: "gotime option"
  pr_updated_at :: gotime

record firewall_row =
  fr_id :: string
  fr_tenant_id :: "string option"
  fr_project_id :: "string option"
  fr_provider_id :: "string option"
  fr_name :: "string option"
  fr_direction :: string
  fr_protocol :: string
  fr_port_min :: "int option"
  fr_port_max :: "int option"
  fr_source_cidr :: "string option"
  fr_dest_cidr :: "string option"
  fr_source_vm_id :: "string option"
  fr_dest_vm_id :: "string option"
  fr_action :: string
  fr_scope :: string
  fr_description :: "string option"
  fr_last_synced_at :: "gotime option"
  fr_updated_at :: gotime

record 'ip route_row =
  rr_id :: string
  rr_tenant_id :: "string option"
  rr_project_id :: "string option"
  rr_provider_id :: "string option"
  rr_network_id :: "string option"
  rr_subnet_id :: "string option"
  rr_destination :: string
  rr_next_hop :: "'ip option"
  rr_route_type :: string
  rr_description :: "string option"
  rr_last_synced_at :: "gotime option"
  rr_updated_at :: gotime

record policy_row =
  po_id :: string
  po_tenant_id :: "string option"
  po_project_id :: "string option"
  po_name :: string
  po_zone :: "string option"
  po_source_vm_id :: "string option"
  po_dest_vm_id :: "string option"
  po_protocol :: "string option"
  po_port :: "int option"
  po_action :: string
  po_description :: "string option"
  po_last_synced_at :: "gotime option"
  po_updated_at :: gotime

text \<open>The log of changes; no service reads or writes it.\<close>

record change_row =
  ce_id :: string
  ce_tenant_id :: "string option"
  ce_project_id :: "string option"
  ce_connection_id :: "string option"
  ce_change_type :: string
  ce_actor :: "string option"
  ce_before_state :: "string option"
  ce_after_state :: "string option"
  ce_affected_source_vm_id :: "string option"
  ce_affected_dest_vm_id :: "string option"
  ce_validation_state :: "string option"
  ce_created_at :: gotime

record 'ip database =
  db_catalog :: "'ip catalog"
  cloud_public_ips :: "'ip public_ip_row list"
  cloud_firewall_rules :: "firewall_row list"
  cloud_routes :: "'ip route_row list"
  cloud_network_policies :: "policy_row list"
  connection_change_events :: "change_row list"

datatype cloud_error = ProviderFailed string | QueryFailed

section \<open>The service\<close>

definition cloud_Status :: "provider option \<Rightarrow> string + provider_status" where
  "cloud_Status p = (case p of None \<Rightarrow> pv_Status NoopProvider | Some q \<Rightarrow> pv_Status q)"

text \<open>The condition \<open>addCloudFilter\<close> appends to a query: none when the value is blank.\<close>

definition addCloudFilter :: "string option \<Rightarrow> string \<Rightarrow> bool" where
  "addCloudFilter column val \<longleftrightarrow> (let v = TrimSpace val in if v = [] then True else column = Some v)"

definition host_selected :: "cloud_filter \<Rightarrow> 'ip vm_row \<Rightarrow> bool" where
  "host_selected f v \<longleftrightarrow>
     addCloudFilter (vm_tenant_id v) (cx_TenantID f) \<and> addCloudFilter (vm_project_id v) (cx_ProjectID f)
     \<and> addCloudFilter (Some (vm_id v)) (cx_VMID f)"

definition scan_host :: "'ip pg \<Rightarrow> 'ip vm_row \<Rightarrow> cloud_host" where
  "scan_host pg v =
     \<lparr>ch_ID = vm_id v, ch_ProviderID = text_or_empty (vm_host_id v), ch_Name = vm_name v, ch_Hostname = vm_name v,
      ch_TenantID = text_or_empty (vm_tenant_id v), ch_ProjectID = text_or_empty (vm_project_id v),
      ch_Region = text_or_empty (vm_region v), ch_Zone = text_or_empty (vm_zone v), ch_Role = text_or_empty (vm_role v),
      ch_Type = (case vm_host_type v of None \<Rightarrow> ''virtual_machine'' | Some x \<Rightarrow> x),
      ch_Environment = text_or_empty (vm_environment v), ch_Owner = text_or_empty (vm_owner v),
      ch_PrivateIP = text_or_empty (map_option (host pg) (vm_private_ip v)),
      ch_PublicIP = text_or_empty (map_option (host pg) (vm_public_ip v)),
      ch_NetworkID = text_or_empty (vm_network_id v), ch_SubnetID = text_or_empty (vm_subnet_id v), ch_Status = vm_status v,
      ch_LastSeen = vm_last_seen v, ch_Interfaces = [], ch_ObservedOnly = (vm_discovered_by v = ''agent'')\<rparr>"

text \<open>\<open>by_name\<close> is the collation of \<open>ORDER BY name\<close>, which permutes its argument.\<close>

definition cloud_hosts :: "'ip pg \<Rightarrow> ('ip vm_row list \<Rightarrow> 'ip vm_row list) \<Rightarrow> cloud_filter \<Rightarrow> ('ip database, cloud_error, cloud_host list) tx" where
  "cloud_hosts pg by_name f =
     query QueryFailed (\<lambda>t. map (scan_host pg) (by_name (filter (host_selected f) (vms (core (db_catalog t))))))"

definition ip_selected :: "cloud_filter \<Rightarrow> 'ip public_ip_row \<Rightarrow> bool" where
  "ip_selected f r \<longleftrightarrow>
     addCloudFilter (pr_tenant_id r) (cx_TenantID f) \<and> addCloudFilter (pr_project_id r) (cx_ProjectID f)
     \<and> addCloudFilter (pr_vm_id r) (cx_VMID f)"

definition scan_ip :: "'ip pg \<Rightarrow> 'ip public_ip_row \<Rightarrow> public_ip" where
  "scan_ip pg r =
     \<lparr>pi_ID = pr_id r, pi_TenantID = text_or_empty (pr_tenant_id r), pi_ProjectID = text_or_empty (pr_project_id r),
      pi_VMID = text_or_empty (pr_vm_id r), pi_IPAddress = host pg (pr_ip_address r), pi_ProviderID = text_or_empty (pr_provider_id r),
      pi_Status = pr_status r, pi_AssignedAt = pr_assigned_at r, pi_LastSeenAt = pr_last_seen_at r\<rparr>"

definition publicIPs :: "'ip pg \<Rightarrow> cloud_filter \<Rightarrow> ('ip database, cloud_error, public_ip list) tx" where
  "publicIPs pg f =
     query QueryFailed (\<lambda>t. map (scan_ip pg) (limit 1000 (order_desc pr_updated_at (filter (ip_selected f) (cloud_public_ips t)))))"

text \<open>Rules and policies compare the requested machine as it was given, without trimming it.\<close>

definition rule_selected :: "cloud_filter \<Rightarrow> firewall_row \<Rightarrow> bool" where
  "rule_selected f r \<longleftrightarrow>
     addCloudFilter (fr_tenant_id r) (cx_TenantID f) \<and> addCloudFilter (fr_project_id r) (cx_ProjectID f)
     \<and> (cx_VMID f \<noteq> [] \<longrightarrow> fr_source_vm_id r = Some (cx_VMID f) \<or> fr_dest_vm_id r = Some (cx_VMID f))"

definition scan_rule :: "firewall_row \<Rightarrow> firewall_rule" where
  "scan_rule r =
     \<lparr>fw_ID = fr_id r, fw_TenantID = text_or_empty (fr_tenant_id r), fw_ProjectID = text_or_empty (fr_project_id r),
      fw_ProviderID = text_or_empty (fr_provider_id r), fw_Name = text_or_empty (fr_name r), fw_Direction = fr_direction r,
      fw_Protocol = fr_protocol r, fw_PortMin = int_or_zero (fr_port_min r), fw_PortMax = int_or_zero (fr_port_max r),
      fw_SourceCIDR = text_or_empty (fr_source_cidr r), fw_DestCIDR = text_or_empty (fr_dest_cidr r),
      fw_SourceVMID = text_or_empty (fr_source_vm_id r), fw_DestVMID = text_or_empty (fr_dest_vm_id r), fw_Action = fr_action r,
      fw_Scope = fr_scope r, fw_Description = text_or_empty (fr_description r), fw_LastSyncedAt = fr_last_synced_at r\<rparr>"

definition firewallRules :: "cloud_filter \<Rightarrow> ('ip database, cloud_error, firewall_rule list) tx" where
  "firewallRules f =
     query QueryFailed (\<lambda>t. map scan_rule (limit 2000 (order_desc fr_updated_at (filter (rule_selected f) (cloud_firewall_rules t)))))"

definition route_selected :: "cloud_filter \<Rightarrow> 'ip route_row \<Rightarrow> bool" where
  "route_selected f r \<longleftrightarrow> addCloudFilter (rr_tenant_id r) (cx_TenantID f) \<and> addCloudFilter (rr_project_id r) (cx_ProjectID f)"

definition scan_route :: "'ip pg \<Rightarrow> 'ip route_row \<Rightarrow> network_route" where
  "scan_route pg r =
     \<lparr>rt_ID = rr_id r, rt_TenantID = text_or_empty (rr_tenant_id r), rt_ProjectID = text_or_empty (rr_project_id r),
      rt_ProviderID = text_or_empty (rr_provider_id r), rt_NetworkID = text_or_empty (rr_network_id r),
      rt_SubnetID = text_or_empty (rr_subnet_id r), rt_Destination = rr_destination r,
      rt_NextHop = text_or_empty (map_option (host pg) (rr_next_hop r)), rt_RouteType = rr_route_type r,
      rt_Description = text_or_empty (rr_description r), rt_LastSyncedAt = rr_last_synced_at r\<rparr>"

definition cloud_list_routes :: "'ip pg \<Rightarrow> cloud_filter \<Rightarrow> ('ip database, cloud_error, network_route list) tx" where
  "cloud_list_routes pg f =
     query QueryFailed (\<lambda>t. map (scan_route pg) (limit 2000 (order_desc rr_updated_at (filter (route_selected f) (cloud_routes t)))))"

definition policy_selected :: "cloud_filter \<Rightarrow> policy_row \<Rightarrow> bool" where
  "policy_selected f r \<longleftrightarrow>
     addCloudFilter (po_tenant_id r) (cx_TenantID f) \<and> addCloudFilter (po_project_id r) (cx_ProjectID f)
     \<and> (cx_VMID f \<noteq> [] \<longrightarrow> po_source_vm_id r = Some (cx_VMID f) \<or> po_dest_vm_id r = Some (cx_VMID f))"

definition scan_policy :: "policy_row \<Rightarrow> network_policy" where
  "scan_policy r =
     \<lparr>np_ID = po_id r, np_TenantID = text_or_empty (po_tenant_id r), np_ProjectID = text_or_empty (po_project_id r), np_Name = po_name r,
      np_Zone = text_or_empty (po_zone r), np_SourceVMID = text_or_empty (po_source_vm_id r), np_DestVMID = text_or_empty (po_dest_vm_id r),
      np_Protocol = text_or_empty (po_protocol r), np_Port = int_or_zero (po_port r), np_Action = po_action r,
      np_Description = text_or_empty (po_description r), np_LastSyncedAt = po_last_synced_at r\<rparr>"

definition networkPolicies :: "cloud_filter \<Rightarrow> ('ip database, cloud_error, network_policy list) tx" where
  "networkPolicies f =
     query QueryFailed (\<lambda>t. map scan_policy (limit 2000 (order_desc po_updated_at (filter (policy_selected f) (cloud_network_policies t)))))"

definition cloud_Context ::
    "'ip pg \<Rightarrow> ('ip vm_row list \<Rightarrow> 'ip vm_row list) \<Rightarrow> provider option \<Rightarrow> cloud_filter \<Rightarrow> ('ip database, cloud_error, cloud_context) tx" where
  "cloud_Context pg by_name p f =
     (case cloud_Status p of
        Inl e \<Rightarrow> tx_fail (ProviderFailed e)
      | Inr status \<Rightarrow>
          tx_bind (cloud_hosts pg by_name f) (\<lambda>hosts.
          tx_bind (publicIPs pg f) (\<lambda>ips.
          tx_bind (firewallRules f) (\<lambda>rules.
          tx_bind (cloud_list_routes pg f) (\<lambda>routes.
          tx_bind (networkPolicies f) (\<lambda>policies.
          tx_return \<lparr>ctx_Provider = status, ctx_Hosts = hosts, ctx_PublicIPs = ips, ctx_FirewallRules = rules, ctx_Routes = routes,
            ctx_NetworkPolicies = policies\<rparr>))))))"

section \<open>Isolation of owners\<close>

text \<open>An owner, as a tenant and a project, that a request for \<open>a\<close> and \<open>b\<close> may see.\<close>

definition owned :: "string \<Rightarrow> string \<Rightarrow> string \<times> string \<Rightarrow> bool" where
  "owned a b owner \<longleftrightarrow> (TrimSpace a \<noteq> [] \<longrightarrow> fst owner = TrimSpace a) \<and> (TrimSpace b \<noteq> [] \<longrightarrow> snd owner = TrimSpace b)"

text \<open>
  What the five listings share: rows with a tenant and a project column, and a scan that copies
  the two into the item.
\<close>

locale owned_listing =
  fixes tenant project :: "'row \<Rightarrow> string option" and scan :: "'row \<Rightarrow> 'item" and owner_of :: "'item \<Rightarrow> string \<times> string"
  assumes scan_owner: "owner_of (scan r) = (text_or_empty (tenant r), text_or_empty (project r))"
begin

lemma isolated:
  assumes "x \<in> set (map scan rows)" "\<forall>r\<in>set rows. addCloudFilter (tenant r) a \<and> addCloudFilter (project r) b"
  shows "owned a b (owner_of x)"
  using assms by (auto simp: owned_def scan_owner addCloudFilter_def Let_def text_or_empty_def split: if_splits)

lemma listing_isolated:
  assumes "\<forall>r\<in>set rows. sel r \<longrightarrow> addCloudFilter (tenant r) a \<and> addCloudFilter (project r) b"
  shows "\<forall>x\<in>set (map scan (limit n (order_desc key (filter sel rows)))). owned a b (owner_of x)"
  by (rule ballI, erule isolated) (use assms in \<open>auto simp: limit_def dest: in_set_takeD\<close>)

lemma listing_complete:
  assumes "length (filter sel rows) \<le> n"
  shows "set (map scan (limit n (order_desc key (filter sel rows)))) = scan ` {r \<in> set rows. sel r}"
  using assms by (simp add: limit_def order_desc_def)

end

interpretation hosts_listing: owned_listing vm_tenant_id vm_project_id "scan_host pg" "\<lambda>x. (ch_TenantID x, ch_ProjectID x)" for pg
  by unfold_locales (simp add: scan_host_def)

interpretation ips_listing: owned_listing pr_tenant_id pr_project_id "scan_ip pg" "\<lambda>x. (pi_TenantID x, pi_ProjectID x)" for pg
  by unfold_locales (simp add: scan_ip_def)

interpretation rules_listing: owned_listing fr_tenant_id fr_project_id scan_rule "\<lambda>x. (fw_TenantID x, fw_ProjectID x)"
  by unfold_locales (simp add: scan_rule_def)

interpretation routes_listing: owned_listing rr_tenant_id rr_project_id "scan_route pg" "\<lambda>x. (rt_TenantID x, rt_ProjectID x)" for pg
  by unfold_locales (simp add: scan_route_def)

interpretation policies_listing: owned_listing po_tenant_id po_project_id scan_policy "\<lambda>x. (np_TenantID x, np_ProjectID x)"
  by unfold_locales (simp add: scan_policy_def)

lemmas selections = host_selected_def ip_selected_def rule_selected_def route_selected_def policy_selected_def

lemma cloud_Context_Inr:
  assumes "cloud_Context pg by_name p f (t, c) = Inr (ctx, t', c')"
  shows "t' = t" "cloud_Status p = Inr (ctx_Provider ctx)"
    "ctx_Hosts ctx = map (scan_host pg) (by_name (filter (host_selected f) (vms (core (db_catalog t)))))"
    "ctx_PublicIPs ctx = map (scan_ip pg) (limit 1000 (order_desc pr_updated_at (filter (ip_selected f) (cloud_public_ips t))))"
    "ctx_FirewallRules ctx = map scan_rule (limit 2000 (order_desc fr_updated_at (filter (rule_selected f) (cloud_firewall_rules t))))"
    "ctx_Routes ctx = map (scan_route pg) (limit 2000 (order_desc rr_updated_at (filter (route_selected f) (cloud_routes t))))"
    "ctx_NetworkPolicies ctx = map scan_policy (limit 2000 (order_desc po_updated_at (filter (policy_selected f) (cloud_network_policies t))))"
  using assms
  by (auto simp: cloud_Context_def tx_bind_Inr cloud_hosts_def publicIPs_def firewallRules_def cloud_list_routes_def networkPolicies_def
      dest!: query_Inr split: sum.splits)

text \<open>
  C24. The cloud context keeps owners apart. A context asked for a tenant, a project or both
  contains only hosts, public addresses, firewall rules, routes and policies that carry this
  tenant and project; a row without an owner is never shown to one. Its hosts are exactly the
  matching machines, its rules are exactly the matching ones as long as these fit in the limit,
  and reading it changes nothing.
\<close>

theorem cloud_context_isolated:
  assumes "cloud_Context pg by_name p f (t, c) = Inr (ctx, t', c')" and by_name: "\<And>rows. set (by_name rows) = set rows"
  shows "t' = t
    \<and> (\<forall>x\<in>set (ctx_Hosts ctx). owned (cx_TenantID f) (cx_ProjectID f) (ch_TenantID x, ch_ProjectID x))
    \<and> (\<forall>x\<in>set (ctx_PublicIPs ctx). owned (cx_TenantID f) (cx_ProjectID f) (pi_TenantID x, pi_ProjectID x))
    \<and> (\<forall>x\<in>set (ctx_FirewallRules ctx). owned (cx_TenantID f) (cx_ProjectID f) (fw_TenantID x, fw_ProjectID x))
    \<and> (\<forall>x\<in>set (ctx_Routes ctx). owned (cx_TenantID f) (cx_ProjectID f) (rt_TenantID x, rt_ProjectID x))
    \<and> (\<forall>x\<in>set (ctx_NetworkPolicies ctx). owned (cx_TenantID f) (cx_ProjectID f) (np_TenantID x, np_ProjectID x))
    \<and> set (ctx_Hosts ctx) = scan_host pg ` {v \<in> set (vms (core (db_catalog t))). host_selected f v}
    \<and> (length (filter (rule_selected f) (cloud_firewall_rules t)) \<le> 2000
         \<longrightarrow> set (ctx_FirewallRules ctx) = scan_rule ` {r \<in> set (cloud_firewall_rules t). rule_selected f r})"
proof -
  note res = cloud_Context_Inr [OF assms(1)]
  have "\<forall>x\<in>set (ctx_Hosts ctx). owned (cx_TenantID f) (cx_ProjectID f) (ch_TenantID x, ch_ProjectID x)"
    unfolding res by (rule ballI, erule hosts_listing.isolated) (auto simp: by_name selections)
  moreover have "set (ctx_Hosts ctx) = scan_host pg ` {v \<in> set (vms (core (db_catalog t))). host_selected f v}"
    unfolding res by (simp add: by_name)
  moreover have "\<forall>x\<in>set (ctx_PublicIPs ctx). owned (cx_TenantID f) (cx_ProjectID f) (pi_TenantID x, pi_ProjectID x)"
    unfolding res by (rule ips_listing.listing_isolated) (simp add: selections)
  moreover have "\<forall>x\<in>set (ctx_FirewallRules ctx). owned (cx_TenantID f) (cx_ProjectID f) (fw_TenantID x, fw_ProjectID x)"
    unfolding res by (rule rules_listing.listing_isolated) (simp add: selections)
  moreover have "\<forall>x\<in>set (ctx_Routes ctx). owned (cx_TenantID f) (cx_ProjectID f) (rt_TenantID x, rt_ProjectID x)"
    unfolding res by (rule routes_listing.listing_isolated) (simp add: selections)
  moreover have "\<forall>x\<in>set (ctx_NetworkPolicies ctx). owned (cx_TenantID f) (cx_ProjectID f) (np_TenantID x, np_ProjectID x)"
    unfolding res by (rule policies_listing.listing_isolated) (simp add: selections)
  moreover have "length (filter (rule_selected f) (cloud_firewall_rules t)) \<le> 2000
      \<longrightarrow> set (ctx_FirewallRules ctx) = scan_rule ` {r \<in> set (cloud_firewall_rules t). rule_selected f r}"
    unfolding res by (intro impI rules_listing.listing_complete)
  ultimately show ?thesis using res(1) by (intro conjI)
qed

text \<open>
  Observation on the code: hosts are found by the trimmed identifier of a machine, its firewall
  rules only by the identifier as given, so a padded one lists the host without any rule.
\<close>

lemma padded_machine_has_no_rules:
  assumes "cloud_Context pg by_name p f (t, c) = Inr (ctx, t', c')" "TrimSpace (cx_VMID f) \<noteq> cx_VMID f"
    and "\<forall>r\<in>set (cloud_firewall_rules t). (\<forall>i. fr_source_vm_id r = Some i \<or> fr_dest_vm_id r = Some i \<longrightarrow> TrimSpace i = i)"
    and "cx_VMID f \<noteq> []"
  shows "ctx_FirewallRules ctx = []"
proof -
  have "filter (rule_selected f) (cloud_firewall_rules t) = []"
    using assms(2-4) by (auto simp: filter_empty_conv rule_selected_def)
  then show ?thesis unfolding cloud_Context_Inr(5) [OF assms(1)] by (simp add: limit_def order_desc_def)
qed

definition demo_rule :: "string \<Rightarrow> string option \<Rightarrow> firewall_row" where
  "demo_rule i tenant =
     \<lparr>fr_id = i, fr_tenant_id = tenant, fr_project_id = None, fr_provider_id = None, fr_name = None, fr_direction = ''ingress'',
      fr_protocol = ''tcp'', fr_port_min = Some 22, fr_port_max = Some 22, fr_source_cidr = Some ''10.0.0.0/8'', fr_dest_cidr = None,
      fr_source_vm_id = None, fr_dest_vm_id = None, fr_action = ''allow'', fr_scope = ''private'', fr_description = None,
      fr_last_synced_at = None, fr_updated_at = 1\<rparr>"

definition demo_database :: "string database" where
  "demo_database =
     \<lparr>db_catalog = \<lparr>core = demo_tables, connection_intents = [], connection_configurations = []\<rparr>, cloud_public_ips = [],
      cloud_firewall_rules = [demo_rule ''r1'' (Some ''blue''), demo_rule ''r2'' None], cloud_routes = [], cloud_network_policies = [],
      connection_change_events = []\<rparr>"

definition demo_cloud_filter :: cloud_filter where
  "demo_cloud_filter = \<lparr>cx_TenantID = '' blue'', cx_ProjectID = [], cx_VMID = []\<rparr>"

theorem cloud_context_isolated_witness:
  "\<exists>ctx c. cloud_Context demo_pg (\<lambda>rows. rows) None demo_cloud_filter (demo_database, None) = Inr (ctx, demo_database, c)
     \<and> (\<forall>x\<in>set (ctx_Hosts ctx). owned '' blue'' [] (ch_TenantID x, ch_ProjectID x))
     \<and> set (ctx_FirewallRules ctx) = {scan_rule (demo_rule ''r1'' (Some ''blue''))}"
proof -
  have trim: "TrimSpace '' blue'' = ''blue''" "TrimSpace [] = []" by code_simp+
  have "\<exists>r. cloud_Context demo_pg (\<lambda>rows. rows) None demo_cloud_filter (demo_database, None) = Inr r"
    by (simp add: cloud_Context_def cloud_Status_def NoopProvider_def tx_bind_def cloud_hosts_def publicIPs_def firewallRules_def
        cloud_list_routes_def networkPolicies_def query_def tx_return_def)
  then obtain ctx t' c' where run: "cloud_Context demo_pg (\<lambda>rows. rows) None demo_cloud_filter (demo_database, None) = Inr (ctx, t', c')"
    by auto
  have sel: "rule_selected demo_cloud_filter (demo_rule i tenant) \<longleftrightarrow> tenant = Some ''blue''" for i tenant
    by (simp add: rule_selected_def demo_cloud_filter_def demo_rule_def addCloudFilter_def trim)
  have rules: "{r \<in> set (cloud_firewall_rules demo_database). rule_selected demo_cloud_filter r} = {demo_rule ''r1'' (Some ''blue'')}"
    by (auto simp: demo_database_def sel)
  have few: "length (filter (rule_selected demo_cloud_filter) (cloud_firewall_rules demo_database)) \<le> 2000"
    by (simp add: demo_database_def sel)
  have tenant: "cx_TenantID demo_cloud_filter = '' blue''" "cx_ProjectID demo_cloud_filter = []" by (simp_all add: demo_cloud_filter_def)
  note seen = cloud_context_isolated [OF run refl, unfolded rules tenant image_insert image_empty]
  show ?thesis
  proof (intro exI conjI)
    show "cloud_Context demo_pg (\<lambda>rows. rows) None demo_cloud_filter (demo_database, None) = Inr (ctx, demo_database, c')"
      using run seen by simp
    show "\<forall>x\<in>set (ctx_Hosts ctx). owned '' blue'' [] (ch_TenantID x, ch_ProjectID x)" using seen by (elim conjE)
    show "set (ctx_FirewallRules ctx) = {scan_rule (demo_rule ''r1'' (Some ''blue''))}" using seen few by (elim conjE) (rule mp)
  qed
qed

end
