(* ===== verification/Expiry.thy ===== *)
theory Expiry
  imports Cloud_Context
begin

text \<open>
  The removal of machines that have fallen silent (\<open>DeleteExpired\<close> of
  \<open>src/backend/internal/service/agent_service.go\<close>), with the actions of the foreign keys that the
  migrations declare for a deleted agent and a deleted VM, over all tables of the database. The
  property gives the result exactly, table by table.
\<close>

section \<open>Definitions\<close>

definition with_core :: "'ip tables \<Rightarrow> 'ip database \<Rightarrow> 'ip database" where
  "with_core t d = d\<lparr>db_catalog := (db_catalog d)\<lparr>core := t\<rparr>\<rparr>"

text \<open>\<open>ON DELETE SET NULL\<close> on a nullable reference.\<close>

definition forget :: "string list \<Rightarrow> string option \<Rightarrow> string option" where
  "forget ids v = (case v of Some x \<Rightarrow> if x \<in> set ids then None else v | None \<Rightarrow> None)"

text \<open>
  \<open>DELETE FROM agents\<close>: migrations 001 and 004 set the agent of flows and observations to NULL,
  007 deletes the agent's probes.
\<close>

definition delete_agents :: "(agent_row \<Rightarrow> bool) \<Rightarrow> 'ip tables \<Rightarrow> 'ip tables" where
  "delete_agents p t =
     (let gone = map ag_id (filter p (agents t)) in
      t\<lparr>agents := filter (\<lambda>a. \<not> p a) (agents t),
        network_flows := map (\<lambda>r. r\<lparr>nf_agent_id := forget gone (nf_agent_id r)\<rparr>) (network_flows t),
        flow_observations := map (\<lambda>r. r\<lparr>ob_agent_id := forget gone (ob_agent_id r)\<rparr>) (flow_observations t),
        connection_probes := filter (\<lambda>r. pb_agent_id r \<notin> set gone) (connection_probes t)\<rparr>)"

text \<open>
  \<open>DELETE FROM vms\<close>. Migrations 001, 004 and 007: the interfaces of a VM and the probes from it
  are deleted; flows, observations, probes to it and resolved hosts lose their reference.
\<close>

definition delete_vm_rows :: "string list \<Rightarrow> 'ip tables \<Rightarrow> 'ip tables" where
  "delete_vm_rows ids t =
     t\<lparr>vms := filter (\<lambda>v. vm_id v \<notin> set ids) (vms t),
       vm_interfaces := filter (\<lambda>i. vi_vm_id i \<notin> set ids) (vm_interfaces t),
       network_flows := map (\<lambda>r. r\<lparr>nf_src_vm_id := forget ids (nf_src_vm_id r), nf_dst_vm_id := forget ids (nf_dst_vm_id r)\<rparr>) (network_flows t),
       flow_observations := map (\<lambda>r. r\<lparr>ob_src_vm_id := forget ids (ob_src_vm_id r), ob_dst_vm_id := forget ids (ob_dst_vm_id r)\<rparr>) (flow_observations t),
       unknown_internal_hosts := map (\<lambda>h. h\<lparr>hr_resolved_vm_id := forget ids (hr_resolved_vm_id h)\<rparr>) (unknown_internal_hosts t),
       connection_probes := map (\<lambda>r. r\<lparr>pb_dst_vm_id := forget ids (pb_dst_vm_id r)\<rparr>)
         (filter (\<lambda>r. pb_src_vm_id r \<notin> set ids) (connection_probes t))\<rparr>"

text \<open>
  Migration 009: intents and configurations of a deleted VM are deleted (\<open>ON DELETE CASCADE\<close>), a
  configuration loses the reference to a deleted intent, and the public addresses, firewall
  rules, policies and change events lose theirs to the VM.
\<close>

definition delete_intents :: "(intent_row \<Rightarrow> bool) \<Rightarrow> 'ip catalog \<Rightarrow> 'ip catalog" where
  "delete_intents p k =
     k\<lparr>connection_intents := filter (\<lambda>r. \<not> p r) (connection_intents k),
       connection_configurations :=
         map (\<lambda>r. r\<lparr>cr_intent_id := forget (map ir_id (filter p (connection_intents k))) (cr_intent_id r)\<rparr>) (connection_configurations k)\<rparr>"

definition delete_vm_connections :: "string list \<Rightarrow> 'ip catalog \<Rightarrow> 'ip catalog" where
  "delete_vm_connections ids k =
     (let k' = delete_intents (\<lambda>r. ir_source_vm_id r \<in> set ids \<or> ir_dest_vm_id r \<in> set ids) k
      in k'\<lparr>connection_configurations :=
             filter (\<lambda>r. \<not> (cr_source_vm_id r \<in> set ids \<or> cr_dest_vm_id r \<in> set ids)) (connection_configurations k')\<rparr>)"

definition delete_vm_context :: "string list \<Rightarrow> 'ip database \<Rightarrow> 'ip database" where
  "delete_vm_context ids d =
     d\<lparr>cloud_public_ips := map (\<lambda>r. r\<lparr>pr_vm_id := forget ids (pr_vm_id r)\<rparr>) (cloud_public_ips d),
       cloud_firewall_rules := map (\<lambda>r. r\<lparr>fr_source_vm_id := forget ids (fr_source_vm_id r), fr_dest_vm_id := forget ids (fr_dest_vm_id r)\<rparr>)
         (cloud_firewall_rules d),
       cloud_network_policies := map (\<lambda>r. r\<lparr>po_source_vm_id := forget ids (po_source_vm_id r), po_dest_vm_id := forget ids (po_dest_vm_id r)\<rparr>)
         (cloud_network_policies d),
       connection_change_events := map (\<lambda>r. r\<lparr>ce_affected_source_vm_id := forget ids (ce_affected_source_vm_id r),
           ce_affected_dest_vm_id := forget ids (ce_affected_dest_vm_id r)\<rparr>) (connection_change_events d)\<rparr>"

definition delete_vms :: "string list \<Rightarrow> 'ip database \<Rightarrow> 'ip database" where
  "delete_vms ids d =
     (let k = delete_vm_connections ids (db_catalog d)
      in delete_vm_context ids (d\<lparr>db_catalog := k\<lparr>core := delete_vm_rows ids (core k)\<rparr>\<rparr>))"

text \<open>The selected rows; \<open>locked\<close> are the pairs another transaction holds (\<open>SKIP LOCKED\<close>).\<close>

definition expired_vms :: "(string \<times> string \<Rightarrow> bool) \<Rightarrow> gotime \<Rightarrow> duration \<Rightarrow> 'ip tables \<Rightarrow> string list" where
  "expired_vms locked now deleteAfter t =
     [vm_id v. v \<leftarrow> vms t, a \<leftarrow> agents t,
        ag_vm_id a = Some (vm_id v) \<and> vm_discovered_by v = ''agent''
        \<and> max (vm_last_seen v) (ag_last_seen a) < now - interval_of deleteAfter
        \<and> \<not> locked (vm_id v, ag_id a)]"

definition seen_once :: "string list \<Rightarrow> string list" where
  "seen_once ids = collect_new (\<lambda>_. True) [] ids"

definition delete_expired_tx :: "(string \<times> string \<Rightarrow> bool) \<Rightarrow> gotime \<Rightarrow> duration \<Rightarrow> ('ip database, service_error, string list) tx" where
  "delete_expired_tx locked now deleteAfter =
     tx_bind (query DatabaseError (\<lambda>d. expired_vms locked now deleteAfter (core (db_catalog d)))) (\<lambda>rows.
       let vmIDs = seen_once rows in
       if vmIDs = [] then tx_return []
       else tx_then
              (exec DatabaseError (\<lambda>d. Some (with_core (delete_agents (\<lambda>a. \<exists>v\<in>set vmIDs. ag_vm_id a = Some v) (core (db_catalog d))) d)))
              (tx_then (exec DatabaseError (\<lambda>d. Some (delete_vms vmIDs d))) (tx_return vmIDs)))"

definition agent_DeleteExpired ::
    "(string \<times> string \<Rightarrow> bool) \<Rightarrow> gotime \<Rightarrow> duration \<Rightarrow> 'ip database \<times> nat option
     \<Rightarrow> (service_error + nat) \<times> 'ip database \<times> string list hub_call list" where
  "agent_DeleteExpired locked now deleteAfter s =
     (if deleteAfter \<le> 0 then (Inr 0, fst s, [])
      else case transaction DatabaseError (delete_expired_tx locked now deleteAfter) s of
          (Inl e, d) \<Rightarrow> (Inl e, d, [])
        | (Inr vmIDs, d) \<Rightarrow>
            (Inr (length vmIDs), d, if vmIDs = [] then [] else [CallBroadcast ''vm.deleted'' vmIDs]))"

section \<open>What is removed\<close>

lemma with_core_same [simp]: "with_core (core (db_catalog d)) d = d"
  by (simp add: with_core_def)

lemma core_with_core [simp]: "core (db_catalog (with_core t d)) = t"
  by (simp add: with_core_def)

lemma seen_once_facts: "set (seen_once ids) = set ids" "distinct (seen_once ids)"
  by (simp_all add: seen_once_def collect_new_set collect_new_distinct)

lemma set_expired:
  "set (expired_vms locked now d t) =
     {vm_id v |v a. v \<in> set (vms t) \<and> a \<in> set (agents t) \<and> ag_vm_id a = Some (vm_id v) \<and> vm_discovered_by v = ''agent''
        \<and> vm_last_seen v < now - interval_of d \<and> ag_last_seen a < now - interval_of d \<and> \<not> locked (vm_id v, ag_id a)}"
  by (auto simp: expired_vms_def)

lemma forget_eq: "forget ids v = (if v \<in> Some ` set ids then None else v)"
  by (auto simp: forget_def split: option.split)

text \<open>What removing the VMs \<open>ids\<close> does to the database.\<close>

definition purge :: "string list \<Rightarrow> 'ip database \<Rightarrow> 'ip database" where
  "purge ids d =
     (if ids = [] then d
      else delete_vms ids (with_core (delete_agents (\<lambda>a. \<exists>v\<in>set ids. ag_vm_id a = Some v) (core (db_catalog d))) d))"

lemma DeleteExpired_cases:
  obtains (failed) e where "agent_DeleteExpired locked now keep (d, c) = (Inl e, d, [])"
  | (removed) ids where
      "agent_DeleteExpired locked now keep (d, c) = (Inr (length ids), purge ids d, if ids = [] then [] else [CallBroadcast ''vm.deleted'' ids])"
      "ids = (if keep \<le> 0 then [] else seen_once (expired_vms locked now keep (core (db_catalog d))))"
proof (cases "keep \<le> 0")
  case True
  then show ?thesis using removed [of "[]"] by (simp add: agent_DeleteExpired_def purge_def)
next
  case False
  show ?thesis
  proof (cases rule: transaction_cases [of DatabaseError "delete_expired_tx locked now keep" d c])
    case (rolled_back e)
    then show ?thesis using failed False by (simp add: agent_DeleteExpired_def)
  next
    case (committed ids d' c1 c2)
    have "ids = seen_once (expired_vms locked now keep (core (db_catalog d))) \<and> d' = purge ids d"
      using committed(2)
      by (auto simp: delete_expired_tx_def tx_bind_Inr tx_then_def Let_def purge_def dest!: query_Inr exec_Inr split: if_splits)
    then show ?thesis using removed [of ids] committed(1) False by (simp add: agent_DeleteExpired_def)
  qed
qed

text \<open>
  The database \<open>d'\<close> after the machines \<open>gone\<close> have been removed from \<open>d\<close>, table by table: the
  agents and intents that go with them, and references to either.
\<close>

definition agents_of :: "string set \<Rightarrow> 'ip tables \<Rightarrow> string set" where
  "agents_of gone t = ag_id ` {a \<in> set (agents t). ag_vm_id a \<in> Some ` gone}"

definition intents_of :: "string set \<Rightarrow> 'ip catalog \<Rightarrow> string set" where
  "intents_of gone k = ir_id ` {r \<in> set (connection_intents k). ir_source_vm_id r \<in> gone \<or> ir_dest_vm_id r \<in> gone}"

definition unless_in :: "string set \<Rightarrow> string option \<Rightarrow> string option" where
  "unless_in gone v = (if v \<in> Some ` gone then None else v)"

definition machines_removed :: "string set \<Rightarrow> 'ip tables \<Rightarrow> 'ip tables \<Rightarrow> bool" where
  "machines_removed gone t t' \<longleftrightarrow>
     vms t' = filter (\<lambda>v. vm_id v \<notin> gone) (vms t)
     \<and> agents t' = filter (\<lambda>a. ag_vm_id a \<notin> Some ` gone) (agents t)
     \<and> vm_interfaces t' = filter (\<lambda>i. vi_vm_id i \<notin> gone) (vm_interfaces t)
     \<and> network_flows t' = map (\<lambda>r. r\<lparr>nf_agent_id := unless_in (agents_of gone t) (nf_agent_id r),
         nf_src_vm_id := unless_in gone (nf_src_vm_id r), nf_dst_vm_id := unless_in gone (nf_dst_vm_id r)\<rparr>) (network_flows t)
     \<and> flow_observations t' = map (\<lambda>r. r\<lparr>ob_agent_id := unless_in (agents_of gone t) (ob_agent_id r),
         ob_src_vm_id := unless_in gone (ob_src_vm_id r), ob_dst_vm_id := unless_in gone (ob_dst_vm_id r)\<rparr>) (flow_observations t)
     \<and> connection_probes t' = map (\<lambda>r. r\<lparr>pb_dst_vm_id := unless_in gone (pb_dst_vm_id r)\<rparr>)
         (filter (\<lambda>r. pb_src_vm_id r \<notin> gone \<and> pb_agent_id r \<notin> agents_of gone t) (connection_probes t))
     \<and> unknown_internal_hosts t' = map (\<lambda>h. h\<lparr>hr_resolved_vm_id := unless_in gone (hr_resolved_vm_id h)\<rparr>) (unknown_internal_hosts t)
     \<and> external_hosts t' = external_hosts t \<and> uuids_used t' = uuids_used t"

definition connections_removed :: "string set \<Rightarrow> 'ip catalog \<Rightarrow> 'ip catalog \<Rightarrow> bool" where
  "connections_removed gone k k' \<longleftrightarrow>
     connection_intents k' = filter (\<lambda>r. ir_source_vm_id r \<notin> gone \<and> ir_dest_vm_id r \<notin> gone) (connection_intents k)
     \<and> connection_configurations k' = map (\<lambda>r. r\<lparr>cr_intent_id := unless_in (intents_of gone k) (cr_intent_id r)\<rparr>)
         (filter (\<lambda>r. cr_source_vm_id r \<notin> gone \<and> cr_dest_vm_id r \<notin> gone) (connection_configurations k))"

definition context_cleared :: "string set \<Rightarrow> 'ip database \<Rightarrow> 'ip database \<Rightarrow> bool" where
  "context_cleared gone d d' \<longleftrightarrow>
     cloud_public_ips d' = map (\<lambda>r. r\<lparr>pr_vm_id := unless_in gone (pr_vm_id r)\<rparr>) (cloud_public_ips d)
     \<and> cloud_firewall_rules d' = map (\<lambda>r. r\<lparr>fr_source_vm_id := unless_in gone (fr_source_vm_id r),
         fr_dest_vm_id := unless_in gone (fr_dest_vm_id r)\<rparr>) (cloud_firewall_rules d)
     \<and> cloud_network_policies d' = map (\<lambda>r. r\<lparr>po_source_vm_id := unless_in gone (po_source_vm_id r),
         po_dest_vm_id := unless_in gone (po_dest_vm_id r)\<rparr>) (cloud_network_policies d)
     \<and> connection_change_events d' = map (\<lambda>r. r\<lparr>ce_affected_source_vm_id := unless_in gone (ce_affected_source_vm_id r),
         ce_affected_dest_vm_id := unless_in gone (ce_affected_dest_vm_id r)\<rparr>) (connection_change_events d)
     \<and> cloud_routes d' = cloud_routes d"

lemma unless_in_empty [simp]: "unless_in {} v = v"
  by (simp add: unless_in_def)

lemma purge_core: "machines_removed (set ids) (core (db_catalog d)) (core (db_catalog (purge ids d)))"
proof (cases "ids = []")
  case True
  then show ?thesis by (simp add: purge_def machines_removed_def agents_of_def)
next
  case False
  let ?p = "\<lambda>a. \<exists>v\<in>set ids. ag_vm_id a = Some v"
  have p: "?p a \<longleftrightarrow> ag_vm_id a \<in> Some ` set ids" for a by auto
  have gone: "ag_id ` {a \<in> set (agents (core (db_catalog d))). ag_vm_id a \<in> Some ` set ids} = agents_of (set ids) (core (db_catalog d))"
    by (simp add: agents_of_def)
  have "core (db_catalog (purge ids d)) = delete_vm_rows ids (delete_agents ?p (core (db_catalog d)))"
    using False by (simp add: purge_def delete_vms_def delete_vm_context_def delete_vm_connections_def delete_intents_def Let_def)
  then show ?thesis
    unfolding p
    by (simp add: machines_removed_def delete_vm_rows_def delete_agents_def Let_def forget_eq unless_in_def [abs_def] agents_of_def comp_def
        conj_commute filter_map)
qed

lemma purge_connections: "connections_removed (set ids) (db_catalog d) (db_catalog (purge ids d))"
proof (cases "ids = []")
  case True
  then show ?thesis by (simp add: purge_def connections_removed_def intents_of_def)
next
  case False
  then show ?thesis
    by (simp add: purge_def connections_removed_def delete_vms_def delete_vm_context_def delete_vm_connections_def delete_intents_def
        with_core_def Let_def forget_eq unless_in_def [abs_def] intents_of_def filter_map comp_def)
qed

lemma purge_context: "context_cleared (set ids) d (purge ids d)"
proof (cases "ids = []")
  case True
  then show ?thesis by (simp add: purge_def context_cleared_def)
next
  case False
  then show ?thesis
    by (simp add: purge_def context_cleared_def delete_vms_def delete_vm_context_def with_core_def Let_def forget_eq unless_in_def [abs_def])
qed

text \<open>
  C30. What the removal of expired machines does, exactly. It selects the VMs that were found by
  an agent and have an agent such that neither of the two was seen within the retention time and
  no other transaction holds them; it reports their number and announces them, each once. All
  agents of a selected VM go with it, even one that was seen recently, and so do its interfaces,
  the probes from it or by its agents, and the intents and configurations of its connections.
  Flows, observations, the other probes, resolved hosts, public addresses, firewall rules,
  policies and change events stay and only lose their reference to a removed VM, agent or intent.
  Every other row is untouched. A failure, or a retention time of zero, changes nothing.
\<close>

theorem delete_expired_exact:
  "case agent_DeleteExpired locked now deleteAfter (d, c) of
     (Inl e, d', calls) \<Rightarrow> d' = d \<and> calls = []
   | (Inr n, d', calls) \<Rightarrow>
       (\<exists>ids. distinct ids \<and> n = length ids \<and> calls = (if ids = [] then [] else [CallBroadcast ''vm.deleted'' ids])
         \<and> set ids = (if deleteAfter \<le> 0 then {} else
             {vm_id v |v a. v \<in> set (vms (core (db_catalog d))) \<and> a \<in> set (agents (core (db_catalog d)))
                \<and> ag_vm_id a = Some (vm_id v) \<and> vm_discovered_by v = ''agent''
                \<and> vm_last_seen v < now - interval_of deleteAfter \<and> ag_last_seen a < now - interval_of deleteAfter
                \<and> \<not> locked (vm_id v, ag_id a)})
         \<and> machines_removed (set ids) (core (db_catalog d)) (core (db_catalog d'))
         \<and> connections_removed (set ids) (db_catalog d) (db_catalog d')
         \<and> context_cleared (set ids) d d')"
proof (cases rule: DeleteExpired_cases [of locked now deleteAfter d c])
  case (failed e)
  then show ?thesis by simp
next
  case (removed ids)
  have "distinct ids" using removed(2) seen_once_facts by simp
  moreover have "set ids = (if deleteAfter \<le> 0 then {} else set (expired_vms locked now deleteAfter (core (db_catalog d))))"
    using removed(2) seen_once_facts by simp
  ultimately show ?thesis
    unfolding removed(1) set_expired prod.case sum.case
    by (intro exI [of _ ids] conjI refl purge_core purge_connections purge_context) simp_all
qed

section \<open>What stays of the tables of the cloud integration\<close>

text \<open>
  Rows of which only references were set to NULL, and the tables after any number of removals:
  intents and configurations may have been deleted, nothing else is, and no row is new.
\<close>

definition maybe_null :: "string option \<Rightarrow> string option \<Rightarrow> bool" where
  "maybe_null v v' \<longleftrightarrow> v' = v \<or> v' = None"

definition ip_kept :: "'ip public_ip_row \<Rightarrow> 'ip public_ip_row \<Rightarrow> bool" where
  "ip_kept r r' \<longleftrightarrow> maybe_null (pr_vm_id r) (pr_vm_id r') \<and> r' = r\<lparr>pr_vm_id := pr_vm_id r'\<rparr>"

definition rule_kept :: "firewall_row \<Rightarrow> firewall_row \<Rightarrow> bool" where
  "rule_kept r r' \<longleftrightarrow> maybe_null (fr_source_vm_id r) (fr_source_vm_id r') \<and> maybe_null (fr_dest_vm_id r) (fr_dest_vm_id r')
     \<and> r' = r\<lparr>fr_source_vm_id := fr_source_vm_id r', fr_dest_vm_id := fr_dest_vm_id r'\<rparr>"

definition policy_kept :: "policy_row \<Rightarrow> policy_row \<Rightarrow> bool" where
  "policy_kept r r' \<longleftrightarrow> maybe_null (po_source_vm_id r) (po_source_vm_id r') \<and> maybe_null (po_dest_vm_id r) (po_dest_vm_id r')
     \<and> r' = r\<lparr>po_source_vm_id := po_source_vm_id r', po_dest_vm_id := po_dest_vm_id r'\<rparr>"

definition change_kept :: "change_row \<Rightarrow> change_row \<Rightarrow> bool" where
  "change_kept r r' \<longleftrightarrow> maybe_null (ce_affected_source_vm_id r) (ce_affected_source_vm_id r')
     \<and> maybe_null (ce_affected_dest_vm_id r) (ce_affected_dest_vm_id r')
     \<and> r' = r\<lparr>ce_affected_source_vm_id := ce_affected_source_vm_id r', ce_affected_dest_vm_id := ce_affected_dest_vm_id r'\<rparr>"

definition config_kept :: "config_row \<Rightarrow> config_row \<Rightarrow> bool" where
  "config_kept r' r \<longleftrightarrow> maybe_null (cr_intent_id r) (cr_intent_id r') \<and> r' = r\<lparr>cr_intent_id := cr_intent_id r'\<rparr>"

definition context_kept :: "'ip database \<Rightarrow> 'ip database \<Rightarrow> bool" where
  "context_kept d d' \<longleftrightarrow>
     list_all2 ip_kept (cloud_public_ips d) (cloud_public_ips d')
     \<and> list_all2 rule_kept (cloud_firewall_rules d) (cloud_firewall_rules d')
     \<and> list_all2 policy_kept (cloud_network_policies d) (cloud_network_policies d')
     \<and> list_all2 change_kept (connection_change_events d) (connection_change_events d')
     \<and> cloud_routes d' = cloud_routes d
     \<and> subseq (connection_intents (db_catalog d')) (connection_intents (db_catalog d))
     \<and> list_emb config_kept (connection_configurations (db_catalog d')) (connection_configurations (db_catalog d))"

lemmas row_kept = maybe_null_def ip_kept_def rule_kept_def policy_kept_def change_kept_def config_kept_def

lemma kept_trans:
  "ip_kept a b \<Longrightarrow> ip_kept b c \<Longrightarrow> ip_kept a c" "rule_kept d e \<Longrightarrow> rule_kept e f \<Longrightarrow> rule_kept d f"
  "policy_kept g h \<Longrightarrow> policy_kept h i \<Longrightarrow> policy_kept g i" "change_kept j k \<Longrightarrow> change_kept k l \<Longrightarrow> change_kept j l"
  "config_kept n m \<Longrightarrow> config_kept m q \<Longrightarrow> config_kept n q"
  unfolding row_kept by (elim conjE disjE; force)+

lemma context_kept_refl: "context_kept d d"
  by (auto simp: context_kept_def row_kept list_all2_same intro: list_emb_refl)

lemma context_kept_trans:
  assumes "context_kept a b" "context_kept b c"
  shows "context_kept a c"
proof -
  have "list_emb config_kept (connection_configurations (db_catalog c)) (connection_configurations (db_catalog a))"
    using assms by (auto simp: context_kept_def intro: list_emb_trans kept_trans(5))
  moreover have "list_all2 ip_kept (cloud_public_ips a) (cloud_public_ips c)"
    using assms by (auto simp: context_kept_def intro: list_all2_trans [OF kept_trans(1)])
  moreover have "list_all2 rule_kept (cloud_firewall_rules a) (cloud_firewall_rules c)"
    using assms by (auto simp: context_kept_def intro: list_all2_trans [OF kept_trans(2)])
  moreover have "list_all2 policy_kept (cloud_network_policies a) (cloud_network_policies c)"
    using assms by (auto simp: context_kept_def intro: list_all2_trans [OF kept_trans(3)])
  moreover have "list_all2 change_kept (connection_change_events a) (connection_change_events c)"
    using assms by (auto simp: context_kept_def intro: list_all2_trans [OF kept_trans(4)])
  moreover have "subseq (connection_intents (db_catalog c)) (connection_intents (db_catalog a))"
    using assms by (auto simp: context_kept_def intro: subseq_order.trans)
  ultimately show ?thesis using assms by (simp add: context_kept_def)
qed

lemma context_kept_core: "context_kept d (with_core t d)"
  using context_kept_refl [of d] by (simp add: context_kept_def with_core_def)

lemma list_emb_map_filter: "(\<And>x. P (f x) x) \<Longrightarrow> list_emb P (map f (filter q xs)) xs"
  by (induction xs) auto

lemma context_kept_purge: "context_kept d (purge ids d)"
proof -
  have null: "maybe_null v (unless_in g v)" for v g by (simp add: maybe_null_def unless_in_def)
  show ?thesis
    using purge_context [of ids d] purge_connections [of ids d]
    by (auto simp: context_kept_def context_cleared_def connections_removed_def list_all2_map2 ip_kept_def rule_kept_def policy_kept_def
        change_kept_def config_kept_def null intro!: list_all2_refl list_emb_map_filter)
qed

end
