(* ===== verification/Flow_Views.thy ===== *)
theory Flow_Views
  imports Graph
begin

text \<open>
  The listings of flows (\<open>List\<close> and \<open>ListInternalActivity\<close> of
  \<open>src/backend/internal/service/flow_service.go\<close>) and the statistics of
  \<open>stats_service.go\<close>. The properties show that what the activity feed lists is bounded, visible
  and never a machine talking to itself, that the two ends of an exchange are reported as the
  same connection, and that the summary adds up.
\<close>

section \<open>Flows\<close>

definition flow_limit :: "int \<Rightarrow> int" where
  "flow_limit n = (if n \<le> 0 \<or> n > 2000 then 500 else n)"

definition listed_flow :: "'ip pg \<Rightarrow> 'ip flow_row \<Rightarrow> flow" where
  "listed_flow pg r =
     (let srcPort = int_or_zero (nf_src_port r); dstPort = int_or_zero (nf_dst_port r);
          (serviceName, servicePort) = classifyService (nf_protocol r) (nf_direction r) srcPort dstPort in
      \<lparr>fl_ID = nf_id r, fl_AgentID = text_or_empty (nf_agent_id r), fl_SrcVMID = text_or_empty (nf_src_vm_id r),
       fl_DstVMID = text_or_empty (nf_dst_vm_id r), fl_SrcIP = host pg (nf_src_ip r), fl_DstIP = host pg (nf_dst_ip r),
       fl_SrcPort = srcPort, fl_DstPort = dstPort, fl_Protocol = nf_protocol r, fl_Direction = nf_direction r, fl_Scope = nf_scope r,
       fl_Service = serviceName, fl_ServicePort = servicePort, fl_BytesSent = nf_bytes_sent r, fl_BytesReceived = nf_bytes_received r,
       fl_Packets = nf_packets r, fl_ConnectionCount = nf_connection_count r, fl_RequestCount = nf_request_count r,
       fl_ErrorCount = nf_error_count r, fl_Retransmissions = nf_retransmission_count r, fl_AvgRTTMs = nf_avg_rtt_ms r,
       fl_AvgAppDelayMs = nf_avg_app_delay_ms r, fl_HTTP1xx = nf_http_1xx r, fl_HTTP2xx = nf_http_2xx r, fl_HTTP3xx = nf_http_3xx r,
       fl_HTTP4xx = nf_http_4xx r, fl_HTTP5xx = nf_http_5xx r, fl_LastHTTPStatus = int_or_zero (nf_last_http_status r),
       fl_RequestsPerSec = RatePerSecond (nf_request_count r) (nf_first_seen r) (nf_last_seen r),
       fl_ConnectionsPerSec = RatePerSecond (nf_connection_count r) (nf_first_seen r) (nf_last_seen r),
       fl_FirstSeen = nf_first_seen r, fl_LastSeen = nf_last_seen r, fl_ObservedAt = nf_observed_at r,
       fl_LastErrorAt = nf_last_error_at r, fl_InterfaceName = text_or_empty (nf_interface_name r), fl_CreatedAt = nf_created_at r\<rparr>)"

definition flow_List :: "'ip pg \<Rightarrow> int \<Rightarrow> ('ip tables, service_error, flow list) tx" where
  "flow_List pg n =
     query DatabaseError (\<lambda>t. map (listed_flow pg) (limit (nat (flow_limit n)) (order_desc nf_observed_at (network_flows t))))"

section \<open>Internal activity\<close>

record internal_activity =
  ia_ID :: string
  ObserverVMID :: string
  ObserverName :: string
  ObserverIP :: string
  PeerVMID :: string
  PeerName :: string
  PeerIP :: string
  ia_SourceVMID :: string
  ia_SourceName :: string
  ia_SourceIP :: string
  DestinationVMID :: string
  DestinationName :: string
  DestinationIP :: string
  ia_Protocol :: string
  ia_Direction :: string
  ia_Scope :: string
  ia_Service :: string
  ia_ServicePort :: int
  LocalPort :: int
  PeerPort :: int
  ia_BytesSent :: i64
  ia_BytesReceived :: i64
  ia_ConnectionCount :: i64
  ia_RequestCount :: i64
  ia_ErrorCount :: i64
  ia_Retransmissions :: i64
  ia_AvgRTTMs :: f64
  ia_AvgAppDelayMs :: f64
  ia_RequestsPerSec :: f64
  ia_ConnectionsPerSec :: f64
  ia_FirstSeen :: gotime
  ia_LastSeen :: gotime
  ia_ObservedAt :: gotime

definition activity_limit :: "int \<Rightarrow> int" where
  "activity_limit n = (if n \<le> 0 \<or> n > 500 then 100 else n)"

definition activity_window :: "duration \<Rightarrow> duration" where
  "activity_window w = (if w \<le> 0 then 5 * Minute else w)"

definition query_limit :: "int \<Rightarrow> int" where
  "query_limit n = (let q = activity_limit n * 20 in if q < 200 then 200 else if q > 5000 then 5000 else q)"

text \<open>
  Array arguments. The driver sends a nil slice as NULL. The list of allowed ports comes from
  \<open>intCSV\<close> and is never nil; the lists of excluded ports and addresses come from \<open>mergeInts\<close> and
  \<open>mergeStrings\<close> of \<open>cmd/api/main.go\<close>, which return nil when they have collected nothing. A
  comparison with an element of NULL is not true, and neither is its negation.
\<close>

definition nil_if_empty :: "'a list \<Rightarrow> 'a list option" where
  "nil_if_empty xs = (if xs = [] then None else Some xs)"

definition sql_none_of :: "'a list option \<Rightarrow> 'a \<Rightarrow> 'a \<Rightarrow> bool" where
  "sql_none_of arr x y = (case arr of None \<Rightarrow> False | Some xs \<Rightarrow> \<not> (x \<in> set xs \<or> y \<in> set xs))"

definition activity_selected :: "'ip pg \<Rightarrow> graph_visibility \<Rightarrow> gotime \<Rightarrow> duration \<Rightarrow> 'ip tables \<Rightarrow> 'ip observation_row \<Rightarrow> bool" where
  "activity_selected pg vis now window t r \<longleftrightarrow>
     (let sp = int_or_zero (ob_src_port r); dp = int_or_zero (ob_dst_port r) in
      joined_vm t (ob_src_vm_id r) \<noteq> None \<and> joined_vm t (ob_dst_vm_id r) \<noteq> None
      \<and> (ob_scope r = ''internal_same_tenant'' \<or> ob_scope r = ''internal_cross_tenant'')
      \<and> (ob_request_count r > 0 \<or> ob_connection_count r > 0 \<or> ob_error_count r > 0)
      \<and> ob_observed_at r \<ge> now - interval_of window
      \<and> (AllowedPorts vis = [] \<or> sp \<in> set (AllowedPorts vis) \<or> dp \<in> set (AllowedPorts vis))
      \<and> sql_none_of (nil_if_empty (ExcludedPorts vis)) sp dp
      \<and> sql_none_of (nil_if_empty (ExcludedIPs vis)) (host pg (ob_src_ip r)) (host pg (ob_dst_ip r)))"

text \<open>
  The scanned columns. \<open>oid\<close> gives the identifier of the n-th observation; observations are
  only appended and updated in place, so their position identifies them.
\<close>

definition scan_activity :: "'ip pg \<Rightarrow> 'ip tables \<Rightarrow> string \<times> 'ip observation_row \<Rightarrow> internal_activity" where
  "scan_activity pg t ir =
     (case ir of (i, r) \<Rightarrow>
      let name = (\<lambda>v. case joined_vm t v of Some m \<Rightarrow> vm_name m | None \<Rightarrow> []) in
      \<lparr>ia_ID = i, ObserverVMID = text_or_empty (ob_src_vm_id r), ObserverName = name (ob_src_vm_id r), ObserverIP = host pg (ob_src_ip r),
       PeerVMID = text_or_empty (ob_dst_vm_id r), PeerName = name (ob_dst_vm_id r), PeerIP = host pg (ob_dst_ip r),
       ia_SourceVMID = [], ia_SourceName = [], ia_SourceIP = [], DestinationVMID = [], DestinationName = [], DestinationIP = [],
       ia_Protocol = ob_protocol r, ia_Direction = ob_direction r, ia_Scope = ob_scope r, ia_Service = [], ia_ServicePort = 0,
       LocalPort = int_or_zero (ob_src_port r), PeerPort = int_or_zero (ob_dst_port r), ia_BytesSent = ob_bytes_sent r,
       ia_BytesReceived = ob_bytes_received r, ia_ConnectionCount = ob_connection_count r, ia_RequestCount = ob_request_count r,
       ia_ErrorCount = ob_error_count r, ia_Retransmissions = ob_retransmission_count r, ia_AvgRTTMs = ob_avg_rtt_ms r,
       ia_AvgAppDelayMs = ob_avg_app_delay_ms r, ia_RequestsPerSec = 0, ia_ConnectionsPerSec = 0, ia_FirstSeen = ob_first_seen r,
       ia_LastSeen = ob_last_seen r, ia_ObservedAt = ob_observed_at r\<rparr>)"

definition with_service :: "internal_activity \<Rightarrow> internal_activity" where
  "with_service a =
     (case classifyService (ia_Protocol a) (ia_Direction a) (LocalPort a) (PeerPort a) of
        (name, port) \<Rightarrow> a\<lparr>ia_Service := name, ia_ServicePort := port\<rparr>)"

definition skip_activity :: "graph_visibility \<Rightarrow> internal_activity \<Rightarrow> bool" where
  "skip_activity vis a \<longleftrightarrow>
     ObserverIP a = PeerIP a \<or> (ObserverVMID a \<noteq> [] \<and> ObserverVMID a = PeerVMID a)
     \<or> hiddenByGraphVisibility vis (LocalPort a) (PeerPort a) (ObserverIP a) (PeerIP a) \<or> hiddenByServicePort vis (ia_ServicePort a)"

definition orient :: "internal_activity \<Rightarrow> internal_activity" where
  "orient a =
     (if shouldFlipServiceResponse (LocalPort a) (PeerPort a)
      then a\<lparr>ia_SourceVMID := PeerVMID a, ia_SourceName := PeerName a, ia_SourceIP := PeerIP a,
             DestinationVMID := ObserverVMID a, DestinationName := ObserverName a, DestinationIP := ObserverIP a,
             ia_BytesSent := ia_BytesReceived a, ia_BytesReceived := ia_BytesSent a\<rparr>
      else a\<lparr>ia_SourceVMID := ObserverVMID a, ia_SourceName := ObserverName a, ia_SourceIP := ObserverIP a,
             DestinationVMID := PeerVMID a, DestinationName := PeerName a, DestinationIP := PeerIP a\<rparr>)"

definition finish_activity :: "internal_activity \<Rightarrow> internal_activity" where
  "finish_activity a =
     orient (a\<lparr>ia_RequestsPerSec := RatePerSecond (ia_RequestCount a) (ia_FirstSeen a) (ia_LastSeen a),
       ia_ConnectionsPerSec := RatePerSecond (ia_ConnectionCount a) (ia_FirstSeen a) (ia_LastSeen a),
       ObserverName := valueOr (ObserverName a) (ObserverIP a), PeerName := valueOr (PeerName a) (PeerIP a)\<rparr>)"

text \<open>The loop over the rows, which stops when \<open>n\<close> activities are collected.\<close>

fun collect_activity :: "graph_visibility \<Rightarrow> nat \<Rightarrow> internal_activity list \<Rightarrow> internal_activity list \<Rightarrow> internal_activity list" where
  "collect_activity vis n [] acc = acc"
| "collect_activity vis n (row # rows) acc =
     (let a = with_service row in
      if skip_activity vis a then collect_activity vis n rows acc
      else let acc' = acc @ [finish_activity a] in
        if length acc' \<ge> n then acc' else collect_activity vis n rows acc')"

definition activity_rows :: "'ip pg \<Rightarrow> (nat \<Rightarrow> string) \<Rightarrow> graph_visibility \<Rightarrow> gotime \<Rightarrow> int \<Rightarrow> duration \<Rightarrow> 'ip tables \<Rightarrow> internal_activity list" where
  "activity_rows pg oid vis now n window t =
     map (scan_activity pg t) (limit (nat (query_limit n)) (order_desc (\<lambda>(i, r). ob_observed_at r)
       (filter (\<lambda>(i, r). activity_selected pg vis now (activity_window window) t r)
         (zip (map oid [0..<length (flow_observations t)]) (flow_observations t)))))"

definition ListInternalActivity ::
    "'ip pg \<Rightarrow> (nat \<Rightarrow> string) \<Rightarrow> graph_visibility \<Rightarrow> gotime \<Rightarrow> int \<Rightarrow> duration \<Rightarrow> ('ip tables, service_error, internal_activity list) tx" where
  "ListInternalActivity pg oid vis now n window =
     tx_bind (query DatabaseError (activity_rows pg oid vis now n window)) (\<lambda>rows.
       tx_return (collect_activity vis (nat (activity_limit n)) rows []))"

section \<open>Statistics\<close>

record summary =
  TotalVMs :: int
  OnlineVMs :: int
  StaleVMs :: int
  OfflineVMs :: int
  TotalFlows :: int
  InternalFlows :: int
  ExternalFlows :: int
  InternalBytes :: i64
  InternalSent :: i64
  InternalRecv :: i64
  ExternalBytes :: i64
  ExternalSent :: i64
  ExternalRecv :: i64
  UnknownInternal :: int
  RequestTotal :: i64
  RequestLastMinute :: i64
  sm_RequestsPerSec :: f64
  sm_ConnectionsPerSec :: f64
  sm_UpdatedAt :: gotime

definition count_where :: "('r \<Rightarrow> bool) \<Rightarrow> 'r list \<Rightarrow> int" where
  "count_where p rows = int (length (filter p rows))"

definition sum_where :: "('r \<Rightarrow> bool) \<Rightarrow> ('r \<Rightarrow> int) \<Rightarrow> 'r list \<Rightarrow> int" where
  "sum_where p f rows = (\<Sum>r\<leftarrow>filter p rows. f r)"

definition internal_scope :: "'ip flow_row \<Rightarrow> bool" where
  "internal_scope r \<longleftrightarrow> nf_scope r \<in> {''internal_same_tenant'', ''internal_cross_tenant'', ''unknown_internal''}"

definition external_scope :: "'ip flow_row \<Rightarrow> bool" where
  "external_scope r \<longleftrightarrow> nf_scope r \<in> {''external_public'', ''external_private''}"

definition both_bytes :: "'ip flow_row \<Rightarrow> int" where
  "both_bytes r = nf_bytes_sent r + nf_bytes_received r"

definition last_minute :: "gotime \<Rightarrow> 'ip observation_row \<Rightarrow> bool" where
  "last_minute now r \<longleftrightarrow> ob_observed_at r \<ge> now - 60 * Second"

text \<open>
  \<open>Summary\<close>. A BIGINT addition that overflows fails, and so does scanning a sum that does not
  fit an \<open>int64\<close>.
\<close>

definition summary_of :: "gotime \<Rightarrow> gotime \<Rightarrow> 'ip tables \<Rightarrow> summary" where
  "summary_of now clock t =
     \<lparr>TotalVMs = int (length (vms t)), OnlineVMs = count_where (\<lambda>v. vm_status v = ''online'') (vms t),
      StaleVMs = count_where (\<lambda>v. vm_status v = ''stale'') (vms t), OfflineVMs = count_where (\<lambda>v. vm_status v = ''offline'') (vms t),
      TotalFlows = int (length (network_flows t)), InternalFlows = count_where internal_scope (network_flows t),
      ExternalFlows = count_where external_scope (network_flows t),
      InternalBytes = sum_where internal_scope both_bytes (network_flows t),
      InternalSent = sum_where internal_scope nf_bytes_sent (network_flows t),
      InternalRecv = sum_where internal_scope nf_bytes_received (network_flows t),
      ExternalBytes = sum_where external_scope both_bytes (network_flows t),
      ExternalSent = sum_where external_scope nf_bytes_sent (network_flows t),
      ExternalRecv = sum_where external_scope nf_bytes_received (network_flows t),
      UnknownInternal = count_where (\<lambda>h. hr_resolved_vm_id h = None) (unknown_internal_hosts t),
      RequestTotal = sum_where (\<lambda>_. True) nf_request_count (network_flows t),
      RequestLastMinute = sum_where (last_minute now) ob_request_count (flow_observations t),
      sm_RequestsPerSec = f64_div (f64_of_int (sum_where (last_minute now) ob_request_count (flow_observations t))) 60,
      sm_ConnectionsPerSec = f64_div (f64_of_int (sum_where (last_minute now) ob_connection_count (flow_observations t))) 60,
      sm_UpdatedAt = clock\<rparr>"

definition summary_fits :: "'ip tables \<Rightarrow> summary \<Rightarrow> bool" where
  "summary_fits t s \<longleftrightarrow>
     list_all (\<lambda>r. internal_scope r \<or> external_scope r \<longrightarrow> in_i64 (both_bytes r)) (network_flows t)
     \<and> list_all in_i64 [InternalBytes s, InternalSent s, InternalRecv s, ExternalBytes s, ExternalSent s, ExternalRecv s, RequestTotal s, RequestLastMinute s]"

definition Summary :: "gotime \<Rightarrow> gotime \<Rightarrow> ('ip tables, service_error, summary) tx" where
  "Summary now clock =
     stmt DatabaseError (\<lambda>t. let s = summary_of now clock t in if summary_fits t s then Some (s, t) else None)"

record top_talker =
  tt_VMID :: string
  tt_Name :: string
  tt_BytesSent :: i64
  tt_BytesReceived :: i64
  tt_TotalBytes :: i64

definition talker_limit :: "int \<Rightarrow> int" where
  "talker_limit n = (if n \<le> 0 \<or> n > 100 then 10 else n)"

definition talker_of :: "'ip tables \<Rightarrow> 'ip vm_row \<Rightarrow> top_talker" where
  "talker_of t v =
     (let mine = (\<lambda>r. nf_src_vm_id r = Some (vm_id v)) in
      \<lparr>tt_VMID = vm_id v, tt_Name = vm_name v, tt_BytesSent = sum_where mine nf_bytes_sent (network_flows t),
       tt_BytesReceived = sum_where mine nf_bytes_received (network_flows t), tt_TotalBytes = sum_where mine both_bytes (network_flows t)\<rparr>)"

definition talker_fits :: "top_talker \<Rightarrow> bool" where
  "talker_fits k \<longleftrightarrow> in_i64 (tt_BytesSent k) \<and> in_i64 (tt_BytesReceived k) \<and> in_i64 (tt_TotalBytes k)"

definition TopTalkers :: "int \<Rightarrow> ('ip tables, service_error, top_talker list) tx" where
  "TopTalkers n =
     stmt DatabaseError (\<lambda>t.
       let ks = map (talker_of t) (vms t) in
       if list_all (\<lambda>r. (\<exists>v\<in>set (vms t). nf_src_vm_id r = Some (vm_id v)) \<longrightarrow> in_i64 (both_bytes r)) (network_flows t) \<and> list_all talker_fits ks
       then Some (limit (nat (talker_limit n)) (order_desc tt_TotalBytes ks), t) else None)"

section \<open>What the feed lists\<close>

text \<open>The loop is the first \<open>n\<close> of the visible rows.\<close>

definition visible_rows :: "graph_visibility \<Rightarrow> internal_activity list \<Rightarrow> internal_activity list" where
  "visible_rows vis rows = map finish_activity (filter (\<lambda>a. \<not> skip_activity vis a) (map with_service rows))"

lemma collect_activity_take:
  assumes "length acc < n"
  shows "collect_activity vis n rows acc = acc @ take (n - length acc) (visible_rows vis rows)"
  using assms
proof (induction vis n rows acc rule: collect_activity.induct)
  case (2 vis n row rows acc)
  show ?case
  proof (cases "skip_activity vis (with_service row)")
    case True
    with 2 show ?thesis by (simp add: visible_rows_def)
  next
    case False
    show ?thesis
    proof (cases "length acc + 1 \<ge> n")
      case True
      with False 2(3) have "n - length acc = 1" by simp
      with False True show ?thesis by (simp add: visible_rows_def Let_def)
    next
      case long: False
      then have "n - length acc = Suc (n - Suc (length acc))" by simp
      with False long 2(2) show ?thesis by (simp add: visible_rows_def Let_def)
    qed
  qed
qed (simp add: visible_rows_def)

lemma activity_result:
  assumes "ListInternalActivity pg oid vis now n window (t, c) = Inr (as, t', c')"
  shows "t' = t" "as = take (nat (activity_limit n)) (visible_rows vis (activity_rows pg oid vis now n window t))"
proof -
  have "as = collect_activity vis (nat (activity_limit n)) (activity_rows pg oid vis now n window t) []" and "t' = t"
    using assms by (auto simp: ListInternalActivity_def tx_bind_Inr dest!: query_Inr)
  moreover have "0 < activity_limit n" by (simp add: activity_limit_def)
  ultimately show "t' = t" "as = take (nat (activity_limit n)) (visible_rows vis (activity_rows pg oid vis now n window t))"
    by (simp_all add: collect_activity_take)
qed

lemma activity_row_cases:
  assumes "a \<in> set (activity_rows pg oid vis now n window t)"
  obtains i where "a = scan_activity pg t (oid i, flow_observations t ! i)" "i < length (flow_observations t)"
    "activity_selected pg vis now (activity_window window) t (flow_observations t ! i)"
proof -
  obtain ir where ir: "a = scan_activity pg t ir"
    "ir \<in> set (limit (nat (query_limit n)) (order_desc (\<lambda>(i, r). ob_observed_at r)
       (filter (\<lambda>(i, r). activity_selected pg vis now (activity_window window) t r)
         (zip (map oid [0..<length (flow_observations t)]) (flow_observations t)))))"
    using assms by (auto simp: activity_rows_def)
  then have "ir \<in> set (filter (\<lambda>(i, r). activity_selected pg vis now (activity_window window) t r)
         (zip (map oid [0..<length (flow_observations t)]) (flow_observations t)))"
    by (auto simp: limit_def dest!: in_set_takeD)
  with ir that show ?thesis by (auto simp: in_set_zip)
qed

text \<open>Newest first, also after hiding and cutting.\<close>

abbreviation newest_first :: "internal_activity list \<Rightarrow> bool" where
  "newest_first as \<equiv> sorted_wrt (\<lambda>a b. ia_ObservedAt b \<le> ia_ObservedAt a) as"

lemma activity_rows_sorted: "newest_first (activity_rows pg oid vis now n window t)"
proof -
  have "ia_ObservedAt (scan_activity pg t ir) = (case ir of (i, r) \<Rightarrow> ob_observed_at r)" for ir
    by (simp add: scan_activity_def Let_def split: prod.split)
  then show ?thesis
    using sorted_order_desc [of "\<lambda>(i, r). ob_observed_at r"
        "filter (\<lambda>(i, r). activity_selected pg vis now (activity_window window) t r)
          (zip (map oid [0..<length (flow_observations t)]) (flow_observations t))"]
    by (simp add: activity_rows_def limit_def sorted_wrt_map sorted_wrt_take)
qed

lemma scan_fields [simp]:
  "ia_ID (scan_activity pg t (i, r)) = i"
  "ObserverVMID (scan_activity pg t (i, r)) = text_or_empty (ob_src_vm_id r)" "PeerVMID (scan_activity pg t (i, r)) = text_or_empty (ob_dst_vm_id r)"
  "ObserverIP (scan_activity pg t (i, r)) = host pg (ob_src_ip r)" "PeerIP (scan_activity pg t (i, r)) = host pg (ob_dst_ip r)"
  "LocalPort (scan_activity pg t (i, r)) = int_or_zero (ob_src_port r)" "PeerPort (scan_activity pg t (i, r)) = int_or_zero (ob_dst_port r)"
  "ia_Protocol (scan_activity pg t (i, r)) = ob_protocol r" "ia_Direction (scan_activity pg t (i, r)) = ob_direction r"
  "ia_Scope (scan_activity pg t (i, r)) = ob_scope r" "ia_BytesSent (scan_activity pg t (i, r)) = ob_bytes_sent r"
  "ia_BytesReceived (scan_activity pg t (i, r)) = ob_bytes_received r" "ia_ConnectionCount (scan_activity pg t (i, r)) = ob_connection_count r"
  "ia_RequestCount (scan_activity pg t (i, r)) = ob_request_count r" "ia_ErrorCount (scan_activity pg t (i, r)) = ob_error_count r"
  "ia_Retransmissions (scan_activity pg t (i, r)) = ob_retransmission_count r" "ia_AvgRTTMs (scan_activity pg t (i, r)) = ob_avg_rtt_ms r"
  "ia_AvgAppDelayMs (scan_activity pg t (i, r)) = ob_avg_app_delay_ms r" "ia_FirstSeen (scan_activity pg t (i, r)) = ob_first_seen r"
  "ia_LastSeen (scan_activity pg t (i, r)) = ob_last_seen r" "ia_ObservedAt (scan_activity pg t (i, r)) = ob_observed_at r"
  by (simp_all add: scan_activity_def Let_def)

lemma with_service_fields [simp]:
  "ia_ID (with_service a) = ia_ID a"
  "ObserverVMID (with_service a) = ObserverVMID a" "PeerVMID (with_service a) = PeerVMID a"
  "ObserverIP (with_service a) = ObserverIP a" "PeerIP (with_service a) = PeerIP a"
  "LocalPort (with_service a) = LocalPort a" "PeerPort (with_service a) = PeerPort a"
  "ia_Protocol (with_service a) = ia_Protocol a" "ia_Direction (with_service a) = ia_Direction a" "ia_Scope (with_service a) = ia_Scope a"
  "ia_BytesSent (with_service a) = ia_BytesSent a" "ia_BytesReceived (with_service a) = ia_BytesReceived a"
  "ia_RequestCount (with_service a) = ia_RequestCount a" "ia_ConnectionCount (with_service a) = ia_ConnectionCount a"
  "ia_ErrorCount (with_service a) = ia_ErrorCount a" "ia_Retransmissions (with_service a) = ia_Retransmissions a"
  "ia_AvgRTTMs (with_service a) = ia_AvgRTTMs a" "ia_AvgAppDelayMs (with_service a) = ia_AvgAppDelayMs a"
  "ia_FirstSeen (with_service a) = ia_FirstSeen a" "ia_LastSeen (with_service a) = ia_LastSeen a" "ia_ObservedAt (with_service a) = ia_ObservedAt a"
  by (simp_all add: with_service_def split: prod.split)

lemma finish_fields [simp]:
  "ia_ID (finish_activity a) = ia_ID a" "ia_ServicePort (finish_activity a) = ia_ServicePort a"
  "ObserverVMID (finish_activity a) = ObserverVMID a" "PeerVMID (finish_activity a) = PeerVMID a"
  "ObserverIP (finish_activity a) = ObserverIP a" "PeerIP (finish_activity a) = PeerIP a"
  "LocalPort (finish_activity a) = LocalPort a" "PeerPort (finish_activity a) = PeerPort a"
  "ia_Protocol (finish_activity a) = ia_Protocol a" "ia_Direction (finish_activity a) = ia_Direction a" "ia_Scope (finish_activity a) = ia_Scope a"
  "ia_RequestCount (finish_activity a) = ia_RequestCount a" "ia_ConnectionCount (finish_activity a) = ia_ConnectionCount a"
  "ia_ErrorCount (finish_activity a) = ia_ErrorCount a" "ia_Retransmissions (finish_activity a) = ia_Retransmissions a"
  "ia_AvgRTTMs (finish_activity a) = ia_AvgRTTMs a" "ia_AvgAppDelayMs (finish_activity a) = ia_AvgAppDelayMs a"
  "ia_FirstSeen (finish_activity a) = ia_FirstSeen a" "ia_LastSeen (finish_activity a) = ia_LastSeen a" "ia_ObservedAt (finish_activity a) = ia_ObservedAt a"
  by (simp_all add: finish_activity_def orient_def)

lemma finish_bytes:
  "(ia_BytesSent (finish_activity a), ia_BytesReceived (finish_activity a)) =
     (if shouldFlipServiceResponse (LocalPort a) (PeerPort a) then (ia_BytesReceived a, ia_BytesSent a) else (ia_BytesSent a, ia_BytesReceived a))"
  by (simp add: finish_activity_def orient_def)

lemma visible_rows_sorted: "newest_first rows \<Longrightarrow> newest_first (visible_rows vis rows)"
  by (simp add: visible_rows_def sorted_wrt_map sorted_wrt_filter)

lemma finish_oriented:
  "ia_SourceIP (finish_activity a) = (if shouldFlipServiceResponse (LocalPort a) (PeerPort a) then PeerIP a else ObserverIP a)"
  "DestinationIP (finish_activity a) = (if shouldFlipServiceResponse (LocalPort a) (PeerPort a) then ObserverIP a else PeerIP a)"
  by (simp_all add: finish_activity_def orient_def)

lemma activity_joined:
  "activity_selected pg vis now w t r \<Longrightarrow> joined_vm t (ob_src_vm_id r) \<noteq> None \<and> joined_vm t (ob_dst_vm_id r) \<noteq> None"
  by (simp add: activity_selected_def Let_def)

lemma joined_vm_None: "joined_vm t None = None"
  by (simp add: joined_vm_def find_None_iff)

lemma joined_registered: "joined_vm t v \<noteq> None \<Longrightarrow> text_or_empty v \<in> vm_id ` set (vms t)"
  by (auto simp: joined_vm_def find_Some_iff text_or_empty_def)

text \<open>
  An entry reports an observation when it carries its machines, addresses, ports, scope, counters
  and times, with the bytes as seen from the entry's source.
\<close>

definition reports :: "'ip pg \<Rightarrow> 'ip observation_row \<Rightarrow> internal_activity \<Rightarrow> bool" where
  "reports pg r a \<longleftrightarrow>
     Some (ObserverVMID a) = ob_src_vm_id r \<and> Some (PeerVMID a) = ob_dst_vm_id r
     \<and> ObserverIP a = host pg (ob_src_ip r) \<and> PeerIP a = host pg (ob_dst_ip r)
     \<and> LocalPort a = int_or_zero (ob_src_port r) \<and> PeerPort a = int_or_zero (ob_dst_port r)
     \<and> ia_Protocol a = ob_protocol r \<and> ia_Direction a = ob_direction r \<and> ia_Scope a = ob_scope r
     \<and> ia_ConnectionCount a = ob_connection_count r \<and> ia_RequestCount a = ob_request_count r
     \<and> ia_ErrorCount a = ob_error_count r \<and> ia_Retransmissions a = ob_retransmission_count r
     \<and> ia_AvgRTTMs a = ob_avg_rtt_ms r \<and> ia_AvgAppDelayMs a = ob_avg_app_delay_ms r
     \<and> ia_FirstSeen a = ob_first_seen r \<and> ia_LastSeen a = ob_last_seen r \<and> ia_ObservedAt a = ob_observed_at r
     \<and> (ia_BytesSent a, ia_BytesReceived a) =
         (if ia_SourceIP a = ObserverIP a then (ob_bytes_sent r, ob_bytes_received r) else (ob_bytes_received r, ob_bytes_sent r))"

lemma finish_reports:
  assumes "activity_selected pg vis now w t r" "host pg (ob_src_ip r) \<noteq> host pg (ob_dst_ip r)"
  shows "reports pg r (finish_activity (with_service (scan_activity pg t (i, r))))"
proof -
  obtain v u where v: "ob_src_vm_id r = Some v" "ob_dst_vm_id r = Some u"
    using activity_joined [OF assms(1)] by (cases "ob_src_vm_id r"; cases "ob_dst_vm_id r") (auto simp: joined_vm_None)
  let ?a = "finish_activity (with_service (scan_activity pg t (i, r)))"
  have "(ia_BytesSent ?a, ia_BytesReceived ?a) =
      (if ia_SourceIP ?a = ObserverIP ?a then (ob_bytes_sent r, ob_bytes_received r) else (ob_bytes_received r, ob_bytes_sent r))"
    using assms(2) unfolding finish_bytes by (simp add: finish_oriented)
  then show ?thesis unfolding reports_def using v by (simp add: text_or_empty_def)
qed

text \<open>
  C26. The activity feed shows recent exchanges between two machines, as they were observed.
  Whatever the database holds, a listing changes nothing, has at most the requested number of
  entries (100 when the request is not between 1 and 500) and is ordered from the newest to the
  oldest; and each entry reports a stored observation, under its id and with its machines,
  addresses, ports, counters and times, that was made within the requested window (5 minutes when
  none is given, as the statement's interval spells it), has an internal scope and a request, a
  connection or an error to report; its ends are two different registered machines (when no
  machine has an empty id) with different addresses, of which one is the source and the other
  the destination; and neither the configured ports and addresses nor its service port hide it.
\<close>

theorem activity_feed_sound:
  assumes "ListInternalActivity pg oid vis now n window (t, c) = Inr (as, t', c')" and "a \<in> set as"
  shows "t' = t \<and> length as \<le> nat (activity_limit n) \<and> activity_limit n \<le> 500
    \<and> sorted_wrt (\<lambda>x y. ia_ObservedAt y \<le> ia_ObservedAt x) as
    \<and> (\<exists>i < length (flow_observations t). ia_ID a = oid i \<and> reports pg (flow_observations t ! i) a)
    \<and> now - interval_of (if window \<le> 0 then 5 * Minute else window) \<le> ia_ObservedAt a
    \<and> ia_Scope a \<in> {''internal_same_tenant'', ''internal_cross_tenant''}
    \<and> (0 < ia_RequestCount a \<or> 0 < ia_ConnectionCount a \<or> 0 < ia_ErrorCount a)
    \<and> ObserverVMID a \<in> vm_id ` set (vms t) \<and> PeerVMID a \<in> vm_id ` set (vms t) \<and> ObserverIP a \<noteq> PeerIP a
    \<and> ([] \<notin> vm_id ` set (vms t) \<longrightarrow> ObserverVMID a \<noteq> PeerVMID a)
    \<and> ia_SourceIP a \<noteq> DestinationIP a \<and> {ia_SourceIP a, DestinationIP a} = {ObserverIP a, PeerIP a}
    \<and> \<not> hiddenByGraphVisibility vis (LocalPort a) (PeerPort a) (ObserverIP a) (PeerIP a)
    \<and> \<not> hiddenByServicePort vis (ia_ServicePort a)"
proof -
  note res = activity_result [OF assms(1)]
  have "a \<in> set (visible_rows vis (activity_rows pg oid vis now n window t))" using assms(2) res(2) by (auto dest: in_set_takeD)
  then obtain row where row: "row \<in> set (activity_rows pg oid vis now n window t)" "a = finish_activity (with_service row)"
    and shown: "\<not> skip_activity vis (with_service row)"
    by (auto simp: visible_rows_def)
  from row(1) obtain i where i: "row = scan_activity pg t (oid i, flow_observations t ! i)" "i < length (flow_observations t)"
    and sel: "activity_selected pg vis now (activity_window window) t (flow_observations t ! i)"
    by (rule activity_row_cases)
  let ?r = "flow_observations t ! i"
  have skip: "ObserverIP row \<noteq> PeerIP row" "ObserverVMID row = [] \<or> ObserverVMID row \<noteq> PeerVMID row"
    "\<not> hiddenByGraphVisibility vis (LocalPort row) (PeerPort row) (ObserverIP row) (PeerIP row)"
    "\<not> hiddenByServicePort vis (ia_ServicePort (with_service row))"
    using shown by (auto simp: skip_activity_def)
  have "reports pg ?r a" using finish_reports [OF sel, of "oid i"] skip(1) by (simp add: row(2) i(1))
  moreover have "ia_ID a = oid i" by (simp add: row(2) i(1))
  moreover have "newest_first as"
    using res(2) visible_rows_sorted [OF activity_rows_sorted, of vis pg oid vis now n window t] by (simp add: sorted_wrt_take)
  moreover have "ObserverVMID a \<in> vm_id ` set (vms t)" "PeerVMID a \<in> vm_id ` set (vms t)"
    using activity_joined [OF sel] joined_registered [of t] by (simp_all add: row(2) i(1))
  moreover have "now - interval_of (if window \<le> 0 then 5 * Minute else window) \<le> ia_ObservedAt a"
    "ia_Scope a \<in> {''internal_same_tenant'', ''internal_cross_tenant''}"
    "0 < ia_RequestCount a \<or> 0 < ia_ConnectionCount a \<or> 0 < ia_ErrorCount a"
    using sel by (simp_all add: row(2) i(1) activity_selected_def activity_window_def Let_def)
  moreover have "ObserverIP a \<noteq> PeerIP a" "ia_SourceIP a \<noteq> DestinationIP a" "{ia_SourceIP a, DestinationIP a} = {ObserverIP a, PeerIP a}"
    using skip(1) by (auto simp: row(2) finish_oriented)
  moreover have "[] \<notin> vm_id ` set (vms t) \<longrightarrow> ObserverVMID a \<noteq> PeerVMID a"
    using skip(2) \<open>ObserverVMID a \<in> vm_id ` set (vms t)\<close> by (metis row(2) finish_fields(3,4) with_service_fields(2,3))
  moreover have "\<not> hiddenByGraphVisibility vis (LocalPort a) (PeerPort a) (ObserverIP a) (PeerIP a)" "\<not> hiddenByServicePort vis (ia_ServicePort a)"
    using skip(3,4) by (simp_all add: row(2))
  moreover have "length as \<le> nat (activity_limit n)" "activity_limit n \<le> 500"
    by (simp_all add: res(2) activity_limit_def)
  ultimately show ?thesis using i(2) res(1) by (intro conjI exI [of _ i]) assumption+
qed

text \<open>The report of the same exchange by the machine at its other end.\<close>

definition mirror :: "internal_activity \<Rightarrow> internal_activity" where
  "mirror a =
     a\<lparr>ObserverVMID := PeerVMID a, ObserverName := PeerName a, ObserverIP := PeerIP a, PeerVMID := ObserverVMID a, PeerName := ObserverName a,
       PeerIP := ObserverIP a, LocalPort := PeerPort a, PeerPort := LocalPort a, ia_BytesSent := ia_BytesReceived a,
       ia_BytesReceived := ia_BytesSent a\<rparr>"

text \<open>
  The two ends of an exchange are shown as one connection. When exactly one of the two
  ports is ephemeral, the report of the client and that of the server name the same source, the
  same destination and the same numbers of bytes sent and received: the client is the source.
\<close>

theorem mirrored_activity_agrees:
  assumes "0 < LocalPort a" "0 < PeerPort a" "isEphemeralPort (LocalPort a) \<noteq> isEphemeralPort (PeerPort a)"
  shows "ia_SourceVMID (finish_activity (mirror a)) = ia_SourceVMID (finish_activity a)
    \<and> ia_SourceName (finish_activity (mirror a)) = ia_SourceName (finish_activity a)
    \<and> ia_SourceIP (finish_activity (mirror a)) = ia_SourceIP (finish_activity a)
    \<and> DestinationVMID (finish_activity (mirror a)) = DestinationVMID (finish_activity a)
    \<and> DestinationName (finish_activity (mirror a)) = DestinationName (finish_activity a)
    \<and> DestinationIP (finish_activity (mirror a)) = DestinationIP (finish_activity a)
    \<and> ia_BytesSent (finish_activity (mirror a)) = ia_BytesSent (finish_activity a)
    \<and> ia_BytesReceived (finish_activity (mirror a)) = ia_BytesReceived (finish_activity a)
    \<and> ia_SourceIP (finish_activity a) = (if isEphemeralPort (LocalPort a) then ObserverIP a else PeerIP a)"
  using assms by (auto simp: mirror_def finish_activity_def orient_def shouldFlipServiceResponse_def)

text \<open>
  Observation on the code: with no excluded port the merged list is nil, the statement compares
  with NULL, and the feed is empty whatever was observed; the same holds for addresses.
\<close>

lemma nothing_excluded_hides_all:
  assumes "ExcludedPorts vis = [] \<or> ExcludedIPs vis = []" "ListInternalActivity pg oid vis now n window (t, c) = Inr (as, t', c')"
  shows "as = []"
proof -
  have "\<not> activity_selected pg vis now w t r" for w r
    using assms(1) by (auto simp: activity_selected_def nil_if_empty_def sql_none_of_def Let_def)
  then have "activity_rows pg oid vis now n window t = []" by (simp add: activity_rows_def limit_def order_desc_def)
  then show ?thesis using activity_result(2) [OF assms(2)] by (simp add: visible_rows_def)
qed

definition demo_observed :: "string tables" where
  "demo_observed = demo_tables\<lparr>vms := [demo_vm, demo_vm\<lparr>vm_id := ''vm-2'', vm_private_ip := Some ''10.0.0.9''\<rparr>],
     flow_observations := [(new_observation demo_pg 3 (demo_group ''internal_same_tenant'') ''u'' demo_flow_event)\<lparr>ob_dst_vm_id := Some ''vm-2''\<rparr>]\<rparr>"

definition demo_visibility :: graph_visibility where
  "demo_visibility = \<lparr>ExcludedPorts = [22], AllowedPorts = [], ExcludedIPs = [''127.0.0.1''], IncludeIdle = True\<rparr>"

theorem activity_feed_sound_witness:
  "\<exists>as t c a. ListInternalActivity demo_pg (\<lambda>_. ''o'') demo_visibility 5 0 0 (demo_observed, None) = Inr (as, t, c) \<and> a \<in> set as
     \<and> PeerVMID a = ''vm-2'' \<and> ia_SourceIP a \<noteq> DestinationIP a \<and> reports demo_pg (flow_observations demo_observed ! 0) a"
proof -
  have ok: "case ListInternalActivity demo_pg (\<lambda>_. ''o'') demo_visibility 5 0 0 (demo_observed, None) of
      Inr (as, t, c) \<Rightarrow> map PeerVMID as = [''vm-2''] | _ \<Rightarrow> False" by code_simp
  then obtain as t c where call: "ListInternalActivity demo_pg (\<lambda>_. ''o'') demo_visibility 5 0 0 (demo_observed, None) = Inr (as, t, c)"
    and peer: "map PeerVMID as = [''vm-2'']" by (auto split: sum.splits prod.splits)
  then obtain a where a: "as = [a]" "PeerVMID a = ''vm-2''" by (cases as) auto
  then have "a \<in> set as" by simp
  from activity_feed_sound [OF call this] have "reports demo_pg (flow_observations demo_observed ! 0) a" "ia_SourceIP a \<noteq> DestinationIP a"
    by (auto simp: demo_observed_def)
  then show ?thesis using call a by (intro exI [of _ as] exI [of _ t] exI [of _ c] exI [of _ a]) simp
qed

definition demo_activity :: internal_activity where
  "demo_activity = (scan_activity demo_pg demo_observed (''o'', hd (flow_observations demo_observed)))\<lparr>LocalPort := 50000, PeerPort := 443\<rparr>"

theorem mirrored_activity_agrees_witness:
  "ia_SourceIP (finish_activity (mirror demo_activity)) = ia_SourceIP (finish_activity demo_activity)
   \<and> DestinationIP (finish_activity (mirror demo_activity)) = DestinationIP (finish_activity demo_activity)"
proof -
  have "0 < LocalPort demo_activity" "0 < PeerPort demo_activity"
    "isEphemeralPort (LocalPort demo_activity) \<noteq> isEphemeralPort (PeerPort demo_activity)"
    by (simp_all add: demo_activity_def isEphemeralPort_def)
  from mirrored_activity_agrees [OF this] show ?thesis by simp
qed

section \<open>The summary adds up\<close>

lemma count_disjoint:
  assumes "\<And>r. \<not> (p r \<and> q r)"
  shows "count_where p rows + count_where q rows \<le> int (length rows)"
  using assms by (induction rows) (auto simp: count_where_def)

lemma sum_where_add: "sum_where p (\<lambda>r. f r + g r) rows = sum_where p f rows + sum_where p g rows"
  by (induction rows) (simp_all add: sum_where_def)

text \<open>
  The summary adds up. Bytes are the bytes sent plus the bytes received, internal and
  external flows are different flows, machines that are online, stale or offline are different
  machines, no number has wrapped, and when every flow has a known scope every flow is counted
  as internal or external. Reading the summary changes nothing.
\<close>

theorem summary_adds_up:
  assumes "Summary now clock (t, c) = Inr (s, t', c')"
  shows "t' = t \<and> InternalBytes s = InternalSent s + InternalRecv s \<and> ExternalBytes s = ExternalSent s + ExternalRecv s
    \<and> OnlineVMs s + StaleVMs s + OfflineVMs s \<le> TotalVMs s \<and> InternalFlows s + ExternalFlows s \<le> TotalFlows s
    \<and> (list_all (\<lambda>r. internal_scope r \<or> external_scope r) (network_flows t) \<longrightarrow> InternalFlows s + ExternalFlows s = TotalFlows s)
    \<and> in_i64 (InternalBytes s) \<and> in_i64 (ExternalBytes s) \<and> in_i64 (RequestTotal s)"
proof -
  have s: "s = summary_of now clock t" "t' = t" "summary_fits t s"
    using stmt_Inr [OF assms [unfolded Summary_def]] by (auto simp: Let_def split: if_splits)
  have scopes: "\<not> (internal_scope r \<and> external_scope r)" for r :: "'a flow_row"
    by (auto simp: internal_scope_def external_scope_def)
  have vms: "count_where (\<lambda>v. vm_status v = a) rows + count_where (\<lambda>v. vm_status v = b) rows + count_where (\<lambda>v. vm_status v = d) rows
      \<le> int (length rows)" if "a \<noteq> b" "a \<noteq> d" "b \<noteq> d" for a b d and rows :: "'a vm_row list"
    using that by (induction rows) (auto simp: count_where_def)
  have all: "count_where internal_scope rows + count_where external_scope rows = int (length rows)"
    if "list_all (\<lambda>r. internal_scope r \<or> external_scope r) rows" for rows :: "'a flow_row list"
    using that scopes by (induction rows) (auto simp: count_where_def)
  have bytes: "sum_where p both_bytes rows = sum_where p nf_bytes_sent rows + sum_where p nf_bytes_received rows"
    for p and rows :: "'a flow_row list"
    by (simp add: sum_where_add [symmetric] both_bytes_def [abs_def])
  show ?thesis
    using s vms [of "''online''" "''stale''" "''offline''" "vms t"]
      count_disjoint [of internal_scope external_scope "network_flows t"] scopes all [of "network_flows t"]
    by (simp add: summary_of_def bytes summary_fits_def)
qed

end
