(* ===== verification/Api.thy ===== *)
theory Api
  imports Backend_Config Flow_Views Hub
begin

text \<open>
  The HTTP interface of the backend (\<open>src/backend/internal/api\<close>): request decoding, the filters
  of the queries, every handler, the routing table and the middleware, as functions from a
  request and the database to a response, the database afterwards and the announcements to the
  hub. \<open>encoding/json\<close> is the parameter \<open>dec\<close>: it reads one value from a text and returns the
  unread rest. An error text is the value of \<open>api_error\<close> it is printed from. The properties show
  that requests that only read, and requests that fail, leave the database alone, and which
  origins are granted access.
\<close>

section \<open>Requests and responses\<close>

datatype http_method = GET | HEAD | POST | OPTIONS | OtherMethod string

text \<open>\<open>rq_Query\<close> is \<open>r.URL.Query().Get\<close>, empty for an absent parameter; the path is clean.\<close>

record http_request =
  rq_Method :: http_method
  rq_Path :: string
  rq_Origin :: string
  rq_Query :: "string \<Rightarrow> string"
  rq_Body :: string

datatype api_error =
    InvalidJSON string | OneObject | InvalidPort | InvalidMinBytes | InvalidTimeRange
  | ServiceFailed service_error | CloudFailed cloud_error | ProviderUnavailable string
  | DatabaseUnavailable | InternalServerError

datatype api_body =
    ErrorBody api_error | RootInfo | HealthInfo gotime | StatusOK | Registered registration_result
  | AgentList "agent_view list" | VMList "vm list" | FlowAccepted flow | TargetList "probe_target list"
  | ViewList "connection_view list" | ProviderInfo provider_status | ContextInfo cloud_context
  | FlowList "flow list" | ActivityList "internal_activity list" | GraphInfo graph | SummaryInfo summary
  | TalkerList "top_talker list" | EventStream | PlainText string | NoBody

record response =
  rs_Status :: nat
  rs_Headers :: "(string \<times> string) list"
  rs_Body :: api_body

datatype api_call =
    RegisterCall "registration_result hub_call" | HeartbeatCall "agent_heartbeat hub_call"
  | FlowCall "flow hub_call" | ProbeCall "probe_event hub_call"

definition writeJSON :: "(string \<times> string) list \<Rightarrow> nat \<Rightarrow> api_body \<Rightarrow> response" where
  "writeJSON hdrs status v =
     \<lparr>rs_Status = status, rs_Headers = alist_set ''Content-Type'' ''application/json'' hdrs, rs_Body = v\<rparr>"

definition writeError :: "(string \<times> string) list \<Rightarrow> nat \<Rightarrow> api_error \<Rightarrow> response" where
  "writeError hdrs status message = writeJSON hdrs status (ErrorBody message)"

text \<open>
  At most \<open>1<<20\<close> bytes are read; a second value, or anything but JSON white space, after the first
  is an error.
\<close>

definition json_space :: "char \<Rightarrow> bool" where
  "json_space ch \<longleftrightarrow> ch \<in> {CHR 0x20, CHR 0x09, CHR 0x0A, CHR 0x0D}"

definition decodeJSON :: "(string \<Rightarrow> string + 'a \<times> string) \<Rightarrow> string \<Rightarrow> api_error + 'a" where
  "decodeJSON dec body =
     (case dec (take (2 ^ 20) body) of
        Inl e \<Rightarrow> Inl (InvalidJSON e)
      | Inr (v, rest) \<Rightarrow> if list_all json_space rest then Inr v else Inl OneObject)"

section \<open>Query parameters\<close>

text \<open>The value \<open>strconv.Atoi\<close> returns beside its error: 0, or the nearest bound when out of range.\<close>

definition Atoi_value :: "string \<Rightarrow> int" where
  "Atoi_value s =
     (case Atoi s of
        Some v \<Rightarrow> v
      | None \<Rightarrow>
          let ds = (if s \<noteq> [] \<and> (hd s = CHR ''-'' \<or> hd s = CHR ''+'') then tl s else s) in
          if ds = [] \<or> \<not> list_all is_digit ds then 0
          else if hd s = CHR ''-'' then - (2 ^ 63) else 2 ^ 63 - 1)"

definition parseDuration :: "string \<Rightarrow> duration option" where
  "parseDuration raw =
     (if raw \<noteq> [] \<and> last raw = CHR ''d''
      then map_option (\<lambda>days. wrap64 (wrap64 (days * 24) * Hour)) (Atoi (butlast raw))
      else ParseDuration raw)"

definition with_time_range :: "string \<Rightarrow> duration \<Rightarrow> api_error + duration" where
  "with_time_range raw fallback =
     (if raw \<noteq> [] then (case parseDuration raw of None \<Rightarrow> Inl InvalidTimeRange | Some d \<Rightarrow> Inr d) else Inr fallback)"

definition graphFilter :: "(string \<Rightarrow> string) \<Rightarrow> (string \<Rightarrow> string) \<Rightarrow> api_error + graph_filter" where
  "graphFilter ul q =
     and_then (if q ''port'' \<noteq> []
               then (case Atoi (q ''port'') of
                       None \<Rightarrow> Inl InvalidPort
                     | Some port \<Rightarrow> if port < 1 \<or> port > 65535 then Inl InvalidPort else Inr port)
               else Inr 0) (\<lambda>port.
     and_then (if q ''min_bytes'' \<noteq> []
               then (case Atoi (q ''min_bytes'') of
                       None \<Rightarrow> Inl InvalidMinBytes
                     | Some v \<Rightarrow> if v < 0 then Inl InvalidMinBytes else Inr v)
               else Inr 0) (\<lambda>minBytes.
     and_then (with_time_range (q ''time_range'') 0) (\<lambda>range.
     Inr \<lparr>gf_AgentID = q ''agent_id'', gf_TenantID = q ''tenant_id'', gf_ProjectID = q ''project_id'', gf_VMID = q ''vm_id'',
          gf_Scope = q ''scope'', gf_Protocol = ToLower ul (q ''protocol''), gf_Port = port, gf_TimeRange = range,
          gf_MinBytes = minBytes, gf_Status = q ''status''\<rparr>)))"

definition connectionViewFilter :: "(string \<Rightarrow> string) \<Rightarrow> api_error + view_filter" where
  "connectionViewFilter q =
     and_then (with_time_range (q ''time_range'') 0) (\<lambda>range.
       Inr \<lparr>vf_TenantID = q ''tenant_id'', vf_ProjectID = q ''project_id'', vf_VMID = q ''vm_id'', vf_TimeRange = range\<rparr>)"

definition cloudContextFilter :: "(string \<Rightarrow> string) \<Rightarrow> cloud_filter" where
  "cloudContextFilter q = \<lparr>cx_TenantID = q ''tenant_id'', cx_ProjectID = q ''project_id'', cx_VMID = q ''vm_id''\<rparr>"

section \<open>Handlers\<close>

text \<open>
  The services the handlers call, with what they were built from and the parameters that stand
  for the database and the libraries; \<open>dec_*\<close> decode the four request types.
\<close>

record 'ip handlers =
  hs_pg :: "'ip pg"
  hs_ul :: "string \<Rightarrow> string"
  hs_sha :: "string \<Rightarrow> u8 list"
  hs_oid :: "nat \<Rightarrow> string"
  hs_by_name :: "'ip vm_row list \<Rightarrow> 'ip vm_row list"
  hs_by_iface :: "'ip iface_row list \<Rightarrow> 'ip iface_row list"
  hs_arrange :: "connection_view list \<Rightarrow> connection_view list"
  hs_classifier :: classifier
  hs_inventory :: "vm_inventory option"
  hs_visibility :: graph_visibility
  hs_window :: duration
  hs_provider :: "provider option"
  dec_registration :: "string \<Rightarrow> string + agent_registration \<times> string"
  dec_heartbeat :: "string \<Rightarrow> string + agent_heartbeat \<times> string"
  dec_flow :: "string \<Rightarrow> string + flow_event \<times> string"
  dec_probe :: "string \<Rightarrow> string + probe_event \<times> string"

text \<open>
  A handler gets the header fields already set, the time of the database and of the process, and
  the database with the number of statements that still succeed.
\<close>

type_synonym 'ip session = "'ip database \<times> nat option"
type_synonym 'ip served = "response \<times> 'ip database \<times> api_call list"

definition with_catalog :: "'ip catalog \<Rightarrow> 'ip database \<Rightarrow> 'ip database" where
  "with_catalog k d = d\<lparr>db_catalog := k\<rparr>"

text \<open>A service that queries the pool directly, and one that returns its announcements.\<close>

definition on_core :: "('ip tables, 'e, 'a) tx \<Rightarrow> 'ip session \<Rightarrow> ('e + 'a) \<times> 'ip database" where
  "on_core m s =
     (case m (core (db_catalog (fst s)), snd s) of
        Inl e \<Rightarrow> (Inl e, fst s)
      | Inr (a, t, _) \<Rightarrow> (Inr a, with_core t (fst s)))"

definition on_catalog :: "('ip catalog, 'e, 'a) tx \<Rightarrow> 'ip session \<Rightarrow> ('e + 'a) \<times> 'ip database" where
  "on_catalog m s =
     (case m (db_catalog (fst s), snd s) of
        Inl e \<Rightarrow> (Inl e, fst s)
      | Inr (a, k, _) \<Rightarrow> (Inr a, with_catalog k (fst s)))"

definition on_database :: "('ip database, 'e, 'a) tx \<Rightarrow> 'ip session \<Rightarrow> ('e + 'a) \<times> 'ip database" where
  "on_database m s = (case m s of Inl e \<Rightarrow> (Inl e, fst s) | Inr (a, d, _) \<Rightarrow> (Inr a, d))"

definition announcing ::
    "('ip tables \<times> nat option \<Rightarrow> ('e + 'a) \<times> 'ip tables \<times> 'c list) \<Rightarrow> 'ip session \<Rightarrow> ('e + 'a) \<times> 'ip database \<times> 'c list" where
  "announcing f s =
     (case f (core (db_catalog (fst s)), snd s) of (r, t, calls) \<Rightarrow> (r, with_core t (fst s), calls))"

type_synonym headers = "(string \<times> string) list"

definition h_Root :: "headers \<Rightarrow> 'ip session \<Rightarrow> 'ip served" where
  "h_Root hdrs s = (writeJSON hdrs 200 RootInfo, fst s, [])"

definition h_Health :: "gotime \<Rightarrow> headers \<Rightarrow> 'ip session \<Rightarrow> 'ip served" where
  "h_Health clock hdrs s =
     (case on_core (query DatabaseUnavailable (\<lambda>_. ())) s of
        (Inl e, d) \<Rightarrow> (writeError hdrs 503 e, d, [])
      | (Inr _, d) \<Rightarrow> (writeJSON hdrs 200 (HealthInfo clock), d, []))"

definition h_RegisterAgent :: "'ip handlers \<Rightarrow> gotime \<Rightarrow> string \<Rightarrow> headers \<Rightarrow> 'ip session \<Rightarrow> 'ip served" where
  "h_RegisterAgent h now body hdrs s =
     (case decodeJSON (dec_registration h) body of
        Inl e \<Rightarrow> (writeError hdrs 400 e, fst s, [])
      | Inr request \<Rightarrow>
          (case announcing (agent_Register (hs_pg h) (hs_sha h) (hs_inventory h) now request) s of
             (Inl e, d, calls) \<Rightarrow> (writeError hdrs 400 (ServiceFailed e), d, map RegisterCall calls)
           | (Inr result, d, calls) \<Rightarrow> (writeJSON hdrs 200 (Registered result), d, map RegisterCall calls)))"

definition h_Heartbeat :: "'ip handlers \<Rightarrow> gotime \<Rightarrow> string \<Rightarrow> headers \<Rightarrow> 'ip session \<Rightarrow> 'ip served" where
  "h_Heartbeat h clock body hdrs s =
     (case decodeJSON (dec_heartbeat h) body of
        Inl e \<Rightarrow> (writeError hdrs 400 e, fst s, [])
      | Inr request \<Rightarrow>
          (case announcing (agent_Heartbeat (hs_pg h) clock request) s of
             (Inl e, d, calls) \<Rightarrow> (writeError hdrs 400 (ServiceFailed e), d, map HeartbeatCall calls)
           | (Inr _, d, calls) \<Rightarrow> (writeJSON hdrs 200 StatusOK, d, map HeartbeatCall calls)))"

definition h_ListAgents :: "headers \<Rightarrow> 'ip session \<Rightarrow> 'ip served" where
  "h_ListAgents hdrs s =
     (case on_core agent_List s of
        (Inl e, d) \<Rightarrow> (writeError hdrs 500 (ServiceFailed e), d, [])
      | (Inr result, d) \<Rightarrow> (writeJSON hdrs 200 (AgentList result), d, []))"

definition h_ListVMs :: "'ip handlers \<Rightarrow> headers \<Rightarrow> 'ip session \<Rightarrow> 'ip served" where
  "h_ListVMs h hdrs s =
     (case on_core (vm_List (hs_pg h) (hs_by_name h) (hs_by_iface h)) s of
        (Inl e, d) \<Rightarrow> (writeError hdrs 500 (ServiceFailed e), d, [])
      | (Inr result, d) \<Rightarrow> (writeJSON hdrs 200 (VMList result), d, []))"

definition h_IngestFlow :: "'ip handlers \<Rightarrow> gotime \<Rightarrow> gotime \<Rightarrow> string \<Rightarrow> headers \<Rightarrow> 'ip session \<Rightarrow> 'ip served" where
  "h_IngestFlow h now clock body hdrs s =
     (case decodeJSON (dec_flow h) body of
        Inl e \<Rightarrow> (writeError hdrs 400 e, fst s, [])
      | Inr request \<Rightarrow>
          (case announcing (flow_Ingest (hs_pg h) (hs_ul h) (hs_classifier h) now clock request) s of
             (Inl e, d, calls) \<Rightarrow> (writeError hdrs 400 (ServiceFailed e), d, map FlowCall calls)
           | (Inr result, d, calls) \<Rightarrow> (writeJSON hdrs 202 (FlowAccepted result), d, map FlowCall calls)))"

definition no_store :: "headers \<Rightarrow> headers" where
  "no_store hdrs = alist_set ''Cache-Control'' ''no-store'' hdrs"

definition h_ListConnectionTargets :: "'ip handlers \<Rightarrow> gotime \<Rightarrow> (string \<Rightarrow> string) \<Rightarrow> headers \<Rightarrow> 'ip session \<Rightarrow> 'ip served" where
  "h_ListConnectionTargets h now q hdrs s =
     (let agentID = TrimSpace (q ''agent_id'') in
      case on_core (Targets (hs_pg h) (hs_inventory h) now agentID) s of
        (Inl e, d) \<Rightarrow> (writeError hdrs 400 (ServiceFailed e), d, [])
      | (Inr result, d) \<Rightarrow> (writeJSON (no_store hdrs) 200 (TargetList result), d, []))"

definition h_ListConnections :: "'ip handlers \<Rightarrow> gotime \<Rightarrow> gotime \<Rightarrow> (string \<Rightarrow> string) \<Rightarrow> headers \<Rightarrow> 'ip session \<Rightarrow> 'ip served" where
  "h_ListConnections h now clock q hdrs s =
     (case connectionViewFilter q of
        Inl e \<Rightarrow> (writeError (no_store hdrs) 400 e, fst s, [])
      | Inr f \<Rightarrow>
          (case on_catalog (connection_List (hs_pg h) (hs_arrange h) (hs_window h) now clock f) s of
             (Inl e, d) \<Rightarrow> (writeError (no_store hdrs) 500 (ServiceFailed e), d, [])
           | (Inr result, d) \<Rightarrow> (writeJSON (no_store hdrs) 200 (ViewList result), d, [])))"

definition h_CloudStatus :: "'ip handlers \<Rightarrow> headers \<Rightarrow> 'ip session \<Rightarrow> 'ip served" where
  "h_CloudStatus h hdrs s =
     (case cloud_Status (hs_provider h) of
        Inl e \<Rightarrow> (writeError (no_store hdrs) 500 (ProviderUnavailable e), fst s, [])
      | Inr result \<Rightarrow> (writeJSON (no_store hdrs) 200 (ProviderInfo result), fst s, []))"

definition h_CloudContext :: "'ip handlers \<Rightarrow> (string \<Rightarrow> string) \<Rightarrow> headers \<Rightarrow> 'ip session \<Rightarrow> 'ip served" where
  "h_CloudContext h q hdrs s =
     (case on_database (cloud_Context (hs_pg h) (hs_by_name h) (hs_provider h) (cloudContextFilter q)) s of
        (Inl e, d) \<Rightarrow> (writeError (no_store hdrs) 500 (CloudFailed e), d, [])
      | (Inr result, d) \<Rightarrow> (writeJSON (no_store hdrs) 200 (ContextInfo result), d, []))"

definition h_RecordConnectionProbe :: "'ip handlers \<Rightarrow> gotime \<Rightarrow> gotime \<Rightarrow> string \<Rightarrow> headers \<Rightarrow> 'ip session \<Rightarrow> 'ip served" where
  "h_RecordConnectionProbe h now clock body hdrs s =
     (case decodeJSON (dec_probe h) body of
        Inl e \<Rightarrow> (writeError hdrs 400 e, fst s, [])
      | Inr request \<Rightarrow>
          (case announcing (RecordProbe (hs_pg h) (hs_ul h) now clock request) s of
             (Inl e, d, calls) \<Rightarrow> (writeError hdrs 400 (ServiceFailed e), d, map ProbeCall calls)
           | (Inr _, d, calls) \<Rightarrow> (writeJSON hdrs 202 StatusOK, d, map ProbeCall calls)))"

definition h_ListFlows :: "'ip handlers \<Rightarrow> (string \<Rightarrow> string) \<Rightarrow> headers \<Rightarrow> 'ip session \<Rightarrow> 'ip served" where
  "h_ListFlows h q hdrs s =
     (case on_core (flow_List (hs_pg h) (Atoi_value (q ''limit''))) s of
        (Inl e, d) \<Rightarrow> (writeError hdrs 500 (ServiceFailed e), d, [])
      | (Inr result, d) \<Rightarrow> (writeJSON hdrs 200 (FlowList result), d, []))"

definition h_ListInternalActivity :: "'ip handlers \<Rightarrow> gotime \<Rightarrow> (string \<Rightarrow> string) \<Rightarrow> headers \<Rightarrow> 'ip session \<Rightarrow> 'ip served" where
  "h_ListInternalActivity h now q hdrs s =
     (case with_time_range (q ''time_range'') (5 * Minute) of
        Inl e \<Rightarrow> (writeError hdrs 400 e, fst s, [])
      | Inr window \<Rightarrow>
          (case on_core (ListInternalActivity (hs_pg h) (hs_oid h) (hs_visibility h) now (Atoi_value (q ''limit'')) window) s of
             (Inl e, d) \<Rightarrow> (writeError hdrs 500 (ServiceFailed e), d, [])
           | (Inr result, d) \<Rightarrow> (writeJSON (no_store hdrs) 200 (ActivityList result), d, [])))"

definition h_GetGraph :: "'ip handlers \<Rightarrow> gotime \<Rightarrow> gotime \<Rightarrow> (string \<Rightarrow> string) \<Rightarrow> headers \<Rightarrow> 'ip session \<Rightarrow> 'ip served" where
  "h_GetGraph h now clock q hdrs s =
     (case graphFilter (hs_ul h) q of
        Inl e \<Rightarrow> (writeError (no_store hdrs) 400 e, fst s, [])
      | Inr f \<Rightarrow>
          (case on_core (graph_Get (hs_pg h) (hs_by_name h) (hs_by_iface h) (hs_visibility h) (hs_window h) now clock f) s of
             (Inl e, d) \<Rightarrow> (writeError (no_store hdrs) 500 (ServiceFailed e), d, [])
           | (Inr result, d) \<Rightarrow> (writeJSON (no_store hdrs) 200 (GraphInfo result), d, [])))"

definition h_Summary :: "gotime \<Rightarrow> gotime \<Rightarrow> headers \<Rightarrow> 'ip session \<Rightarrow> 'ip served" where
  "h_Summary now clock hdrs s =
     (case on_core (Summary now clock) s of
        (Inl e, d) \<Rightarrow> (writeError hdrs 500 (ServiceFailed e), d, [])
      | (Inr result, d) \<Rightarrow> (writeJSON hdrs 200 (SummaryInfo result), d, []))"

definition h_TopTalkers :: "(string \<Rightarrow> string) \<Rightarrow> headers \<Rightarrow> 'ip session \<Rightarrow> 'ip served" where
  "h_TopTalkers q hdrs s =
     (case on_core (TopTalkers (Atoi_value (q ''limit''))) s of
        (Inl e, d) \<Rightarrow> (writeError hdrs 500 (ServiceFailed e), d, [])
      | (Inr result, d) \<Rightarrow> (writeJSON hdrs 200 (TalkerList result), d, []))"

section \<open>Routes and middleware\<close>

datatype endpoint =
    Root | Health | RegisterAgent | Heartbeat | ListAgents | ListVMs | ListFlows | InternalActivity | IngestFlow
  | ListConnections | ConnectionTargets | ConnectionProbe | CloudStatus | CloudContext | GetGraph | GetSummary
  | GetTopTalkers | Realtime

definition get_routes :: "(string \<times> endpoint) list" where
  "get_routes =
     [(''/health'', Health), (''/api/agents'', ListAgents), (''/api/vms'', ListVMs), (''/api/flows'', ListFlows),
      (''/api/internal/activity'', InternalActivity), (''/api/connections'', ListConnections),
      (''/api/connections/targets'', ConnectionTargets), (''/api/cloud/status'', CloudStatus),
      (''/api/cloud/context'', CloudContext), (''/api/graph'', GetGraph), (''/api/stats/summary'', GetSummary),
      (''/api/stats/top-talkers'', GetTopTalkers), (''/api/realtime'', Realtime)]"

definition post_routes :: "(string \<times> endpoint) list" where
  "post_routes =
     [(''/api/agents/register'', RegisterAgent), (''/api/agents/heartbeat'', Heartbeat),
      (''/api/flows/ingest'', IngestFlow), (''/api/connections/probe'', ConnectionProbe)]"

text \<open>
  \<open>http.ServeMux\<close>: the most specific pattern wins, GET patterns serve HEAD, and \<open>GET /\<close> is the
  pattern of every path without a better one, so that another verb there is not allowed.
\<close>

definition route :: "http_method \<Rightarrow> string \<Rightarrow> endpoint option" where
  "route m path =
     (if m = GET \<or> m = HEAD
      then Some (case alist_get get_routes path of Some e \<Rightarrow> e | None \<Rightarrow> Root)
      else if m = POST then alist_get post_routes path
      else None)"

text \<open>\<open>Hub.ServeHTTP\<close> sets its header fields and streams; the stream itself is modelled in \<open>Hub\<close>.\<close>

definition h_Realtime :: "headers \<Rightarrow> 'ip session \<Rightarrow> 'ip served" where
  "h_Realtime hdrs s =
     (\<lparr>rs_Status = 200,
       rs_Headers = alist_set ''X-Accel-Buffering'' ''no'' (alist_set ''Connection'' ''keep-alive''
         (alist_set ''Cache-Control'' ''no-cache'' (alist_set ''Content-Type'' ''text/event-stream'' hdrs))),
       rs_Body = EventStream\<rparr>, fst s, [])"

fun serve_endpoint :: "'ip handlers \<Rightarrow> gotime \<Rightarrow> gotime \<Rightarrow> http_request \<Rightarrow> endpoint \<Rightarrow> headers \<Rightarrow> 'ip session \<Rightarrow> 'ip served" where
  "serve_endpoint h now clock r Root hdrs s = h_Root hdrs s"
| "serve_endpoint h now clock r Health hdrs s = h_Health clock hdrs s"
| "serve_endpoint h now clock r RegisterAgent hdrs s = h_RegisterAgent h now (rq_Body r) hdrs s"
| "serve_endpoint h now clock r Heartbeat hdrs s = h_Heartbeat h clock (rq_Body r) hdrs s"
| "serve_endpoint h now clock r ListAgents hdrs s = h_ListAgents hdrs s"
| "serve_endpoint h now clock r ListVMs hdrs s = h_ListVMs h hdrs s"
| "serve_endpoint h now clock r ListFlows hdrs s = h_ListFlows h (rq_Query r) hdrs s"
| "serve_endpoint h now clock r InternalActivity hdrs s = h_ListInternalActivity h now (rq_Query r) hdrs s"
| "serve_endpoint h now clock r IngestFlow hdrs s = h_IngestFlow h now clock (rq_Body r) hdrs s"
| "serve_endpoint h now clock r ListConnections hdrs s = h_ListConnections h now clock (rq_Query r) hdrs s"
| "serve_endpoint h now clock r ConnectionTargets hdrs s = h_ListConnectionTargets h now (rq_Query r) hdrs s"
| "serve_endpoint h now clock r ConnectionProbe hdrs s = h_RecordConnectionProbe h now clock (rq_Body r) hdrs s"
| "serve_endpoint h now clock r CloudStatus hdrs s = h_CloudStatus h hdrs s"
| "serve_endpoint h now clock r CloudContext hdrs s = h_CloudContext h (rq_Query r) hdrs s"
| "serve_endpoint h now clock r GetGraph hdrs s = h_GetGraph h now clock (rq_Query r) hdrs s"
| "serve_endpoint h now clock r GetSummary hdrs s = h_Summary now clock hdrs s"
| "serve_endpoint h now clock r GetTopTalkers hdrs s = h_TopTalkers (rq_Query r) hdrs s"
| "serve_endpoint h now clock r Realtime hdrs s = h_Realtime hdrs s"

definition mux :: "'ip handlers \<Rightarrow> gotime \<Rightarrow> gotime \<Rightarrow> http_request \<Rightarrow> headers \<Rightarrow> 'ip session \<Rightarrow> 'ip served" where
  "mux h now clock r hdrs s =
     (case route (rq_Method r) (rq_Path r) of
        Some e \<Rightarrow> serve_endpoint h now clock r e hdrs s
      | None \<Rightarrow> (\<lparr>rs_Status = 405, rs_Headers = hdrs, rs_Body = PlainText ''Method Not Allowed''\<rparr>, fst s, []))"

definition cors_headers :: "string list \<Rightarrow> string \<Rightarrow> headers" where
  "cors_headers allowedOrigins origin =
     (if origin \<noteq> [] \<and> origin \<in> set allowedOrigins
      then alist_set ''Access-Control-Allow-Headers'' ''Content-Type''
             (alist_set ''Access-Control-Allow-Methods'' ''GET,POST,OPTIONS''
               (alist_set ''Vary'' ''Origin'' (alist_set ''Access-Control-Allow-Origin'' origin [])))
      else [])"

definition cors ::
    "string list \<Rightarrow> (http_request \<Rightarrow> headers \<Rightarrow> 'ip session \<Rightarrow> 'ip served) \<Rightarrow> http_request \<Rightarrow> 'ip session \<Rightarrow> 'ip served" where
  "cors allowedOrigins next r s =
     (let hdrs = cors_headers allowedOrigins (rq_Origin r) in
      if rq_Method r = OPTIONS then (\<lparr>rs_Status = 204, rs_Headers = hdrs, rs_Body = NoBody\<rparr>, fst s, [])
      else next r hdrs s)"

definition Routes :: "'ip handlers \<Rightarrow> string list \<Rightarrow> gotime \<Rightarrow> gotime \<Rightarrow> http_request \<Rightarrow> 'ip session \<Rightarrow> 'ip served" where
  "Routes h allowedOrigins now clock r s = cors allowedOrigins (mux h now clock) r s"

section \<open>What the services promise the handlers\<close>

text \<open>A reading service: when it returns, the tables are as before.\<close>

definition readonly :: "('t, 'e, 'a) tx \<Rightarrow> bool" where
  "readonly m \<longleftrightarrow> (\<forall>t c a t' c'. m (t, c) = Inr (a, t', c') \<longrightarrow> t' = t)"

lemma readonly_query: "readonly (query e f)"
  by (auto simp: readonly_def dest: query_Inr)

lemma readonly_return: "readonly (tx_return a)"
  by (simp add: readonly_def)

lemma readonly_fail: "readonly (tx_fail e)"
  by (simp add: readonly_def)

lemma readonly_stmt: "(\<And>t a t'. f t = Some (a, t') \<Longrightarrow> t' = t) \<Longrightarrow> readonly (stmt e f)"
  by (auto simp: readonly_def dest: stmt_Inr)

lemma readonly_bind:
  assumes "readonly m" "\<And>a. readonly (k a)"
  shows "readonly (tx_bind m k)"
  using assms by (fastforce simp: readonly_def tx_bind_Inr)

lemmas readonly_intros = readonly_query readonly_return readonly_fail readonly_bind

lemma with_catalog_same [simp]: "with_catalog (db_catalog d) d = d"
  by (simp add: with_catalog_def)

lemma on_catalog_reads: "readonly m \<Longrightarrow> snd (on_catalog m s) = fst s"
  by (cases s) (fastforce simp: on_catalog_def readonly_def split: sum.splits prod.splits)

lemma on_database_reads: "readonly m \<Longrightarrow> snd (on_database m s) = fst s"
  by (cases s) (fastforce simp: on_database_def readonly_def split: sum.splits prod.splits)

text \<open>The contract of a service that only reads, and of one that runs in a transaction.\<close>

locale reading_service =
  fixes m :: "('ip tables, 'e, 'a) tx"
  assumes reads: "readonly m"
begin

lemma unchanged: "snd (on_core m s) = fst s"
  using reads by (cases s) (fastforce simp: on_core_def readonly_def split: sum.splits prod.splits)

lemma answer: obtains (failed) e where "on_core m s = (Inl e, fst s)" | (done_) a where "on_core m s = (Inr a, fst s)"
  using unchanged [of s] by (cases "on_core m s"; cases "fst (on_core m s)") auto

end

locale atomic_service =
  fixes f :: "'ip tables \<times> nat option \<Rightarrow> ('e + 'a) \<times> 'ip tables \<times> 'c list"
  assumes atomic: "f (t, c) = (Inl e, t', calls) \<Longrightarrow> t' = t \<and> calls = []"
begin

lemma answer: obtains (failed) e where "announcing f s = (Inl e, fst s, [])" | (done_) a t calls where "announcing f s = (Inr a, t, calls)"
proof (cases "f (core (db_catalog (fst s)), snd s)")
  case (fields r t calls)
  show ?thesis
  proof (cases r)
    case (Inl e)
    with fields have "t = core (db_catalog (fst s)) \<and> calls = []" using atomic by blast
    with fields Inl show ?thesis using failed by (simp add: announcing_def)
  next
    case (Inr a)
    with fields show ?thesis using done_ by (simp add: announcing_def)
  qed
qed

end

interpretation ping_reader: reading_service "query DatabaseUnavailable (\<lambda>_. ())"
  by unfold_locales (rule readonly_query)

interpretation agents_reader: reading_service agent_List
  by unfold_locales (unfold agent_List_def, intro readonly_intros)

interpretation vms_reader: reading_service "vm_List pg by_name by_iface" for pg by_name by_iface
  by unfold_locales (unfold vm_List_def, intro readonly_intros)

interpretation targets_reader: reading_service "Targets pg i now agent" for pg i now agent
  by unfold_locales (auto simp: Targets_def Let_def intro: readonly_intros)

interpretation flows_reader: reading_service "flow_List pg n" for pg n
  by unfold_locales (unfold flow_List_def, intro readonly_intros)

interpretation activity_reader: reading_service "ListInternalActivity pg oid vis now n window" for pg oid vis now n window
  by unfold_locales (unfold ListInternalActivity_def, intro readonly_intros)

lemma flow_rows_readonly: "readonly (flow_rows pg now f)"
  unfolding flow_rows_def by (rule readonly_stmt) (auto split: if_splits)

interpretation graph_reader: reading_service "graph_Get pg by_name by_iface vis window now clock f" for pg by_name by_iface vis window now clock f
  by unfold_locales (unfold graph_Get_def connectionProbeRows_def vm_List_def, intro readonly_intros flow_rows_readonly)

interpretation summary_reader: reading_service "Summary now clock" for now clock
  by unfold_locales (auto simp: Summary_def Let_def intro!: readonly_stmt split: if_splits)

interpretation talkers_reader: reading_service "TopTalkers n" for n
  by unfold_locales (auto simp: TopTalkers_def Let_def intro!: readonly_stmt split: if_splits)

lemma listObserved_readonly: "readonly (listObserved pg now f)"
  unfolding listObserved_def by (rule readonly_stmt) (auto simp: Let_def split: if_splits)

lemma views_readonly: "readonly (connection_List pg arrange w now clock f)"
  unfolding connection_List_def listIntents_def listConfigurations_def listProbes_def
  by (intro readonly_intros listObserved_readonly)

lemma context_readonly: "readonly (cloud_Context pg by_name p f)"
  unfolding cloud_Context_def cloud_hosts_def publicIPs_def firewallRules_def cloud_list_routes_def networkPolicies_def
  by (cases "cloud_Status p") (simp_all, intro readonly_intros, intro readonly_intros)

interpretation register_service: atomic_service "agent_Register pg sha i now reg" for pg sha i now reg
  by unfold_locales (auto simp: agent_Register_def Let_def dest!: transaction_atomic split: if_splits prod.splits sum.splits)

interpretation ingest_service: atomic_service "flow_Ingest pg ul cls now clock e" for pg ul cls now clock e
  by unfold_locales (auto simp: flow_Ingest_def Let_def dest!: transaction_atomic split: if_splits prod.splits sum.splits)

interpretation probe_service: atomic_service "RecordProbe pg ul now clock e" for pg ul now clock e
  by unfold_locales (auto simp: RecordProbe_def Let_def dest!: transaction_atomic split: if_splits prod.splits sum.splits)

section \<open>What every endpoint does\<close>

definition posts :: "endpoint \<Rightarrow> bool" where
  "posts e \<longleftrightarrow> e \<in> {RegisterAgent, Heartbeat, IngestFlow, ConnectionProbe}"

definition no_effect :: "'ip session \<Rightarrow> 'ip served \<Rightarrow> bool" where
  "no_effect s x \<longleftrightarrow> fst (snd x) = fst s \<and> snd (snd x) = []"

lemma no_effect_simps [simp]: "no_effect s (resp, d, calls) \<longleftrightarrow> d = fst s \<and> calls = []"
  by (simp add: no_effect_def)

lemma handlers_read:
  "no_effect s (h_Root hdrs s)"
  "no_effect s (h_Health clock hdrs s)"
  "no_effect s (h_ListAgents hdrs s)"
  "no_effect s (h_ListVMs h hdrs s)"
  "no_effect s (h_ListFlows h q hdrs s)"
  "no_effect s (h_Summary now clock hdrs s)"
  "no_effect s (h_TopTalkers q hdrs s)"
  "no_effect s (h_CloudStatus h hdrs s)"
  "no_effect s (h_Realtime hdrs s)"
  using ping_reader.unchanged [of s] agents_reader.unchanged [of s] vms_reader.unchanged [of "hs_pg h" "hs_by_name h" "hs_by_iface h" s]
    flows_reader.unchanged [of "hs_pg h" "Atoi_value (q ''limit'')" s] summary_reader.unchanged [of now clock s]
    talkers_reader.unchanged [of "Atoi_value (q ''limit'')" s]
  by (auto simp: h_Root_def h_Health_def h_ListAgents_def h_ListVMs_def h_ListFlows_def h_Summary_def h_TopTalkers_def h_CloudStatus_def
      h_Realtime_def split: prod.splits sum.splits)

lemma handlers_read_filtered:
  "no_effect s (h_ListConnectionTargets h now q hdrs s)"
  "no_effect s (h_ListInternalActivity h now q hdrs s)"
  "no_effect s (h_GetGraph h now clock q hdrs s)"
  "no_effect s (h_ListConnections h now clock q hdrs s)"
  "no_effect s (h_CloudContext h q hdrs s)"
  using targets_reader.unchanged [of "hs_pg h" "hs_inventory h" now "TrimSpace (q ''agent_id'')" s]
    activity_reader.unchanged [of "hs_pg h" "hs_oid h" "hs_visibility h" now "Atoi_value (q ''limit'')" _ s]
    graph_reader.unchanged [of "hs_pg h" "hs_by_name h" "hs_by_iface h" "hs_visibility h" "hs_window h" now clock _ s]
    on_catalog_reads [OF views_readonly, of "hs_pg h" "hs_arrange h" "hs_window h" now clock _ s]
    on_database_reads [OF context_readonly, of "hs_pg h" "hs_by_name h" "hs_provider h" "cloudContextFilter q" s]
  unfolding h_ListConnectionTargets_def h_ListInternalActivity_def h_GetGraph_def h_ListConnections_def h_CloudContext_def Let_def
  by (auto split: prod.splits sum.splits; metis snd_conv)+

lemma endpoint_reads:
  assumes "\<not> posts e"
  shows "no_effect s (serve_endpoint h now clock r e hdrs s)"
  using assms by (cases e) (simp_all add: posts_def handlers_read handlers_read_filtered)

text \<open>A failed heartbeat has at most stamped the agent.\<close>

lemma heartbeat_failure:
  assumes "agent_Heartbeat pg clock hb (t, c) = (Inl e, t', calls)"
  shows "calls = [] \<and> (\<exists>as. t' = t\<lparr>agents := as\<rparr> \<and> map ag_id as = map ag_id (agents t))"
proof -
  let ?stamp = "update_where (\<lambda>a. ag_id a = ah_AgentID hb) (\<lambda>a. a\<lparr>ag_status := ''online'', ag_last_seen := stamp pg clock\<rparr>)"
  let ?first = "stmt DatabaseError (\<lambda>t. Some (length (filter (\<lambda>a. ag_id a = ah_AgentID hb) (agents t)), t\<lparr>agents := ?stamp (agents t)\<rparr>)) (t, c)"
  have same: "calls = [] \<and> (\<exists>as. t' = t\<lparr>agents := as\<rparr> \<and> map ag_id as = map ag_id (agents t))" if "calls = []" "t' = t"
    using that by (intro conjI exI [of _ "agents t"]) simp_all
  show ?thesis
  proof (cases "ah_AgentID hb = []")
    case True
    then show ?thesis using assms same by (simp add: agent_Heartbeat_def)
  next
    case False
    show ?thesis
    proof (cases ?first)
      case (Inl e1)
      then show ?thesis using assms same False by (simp add: agent_Heartbeat_def Let_def)
    next
      case (Inr x)
      obtain n t1 c1 where x: "x = (n, t1, c1)" by (cases x)
      have t1: "t1 = t\<lparr>agents := ?stamp (agents t)\<rparr>" using Inr x by (auto dest: stmt_Inr)
      have ids: "map ag_id (?stamp as) = map ag_id as" for as by (simp add: update_where_def)
      have "calls = [] \<and> t' = t1"
        using assms Inr False by (auto simp: agent_Heartbeat_def Let_def x split: if_splits sum.splits prod.splits)
      then show ?thesis using t1 ids by auto
    qed
  qed
qed

text \<open>The common shape of the four handlers that write.\<close>

definition post_reply ::
    "headers \<Rightarrow> nat \<Rightarrow> ('a \<Rightarrow> api_body) \<Rightarrow> ('c \<Rightarrow> api_call) \<Rightarrow> (api_error + 'q)
     \<Rightarrow> ('q \<Rightarrow> 'ip tables \<times> nat option \<Rightarrow> (service_error + 'a) \<times> 'ip tables \<times> 'c list) \<Rightarrow> 'ip session \<Rightarrow> 'ip served" where
  "post_reply hdrs n reply wrap request f s =
     (case request of
        Inl e \<Rightarrow> (writeError hdrs 400 e, fst s, [])
      | Inr q \<Rightarrow>
          (case announcing (f q) s of
             (Inl e, d, calls) \<Rightarrow> (writeError hdrs 400 (ServiceFailed e), d, map wrap calls)
           | (Inr a, d, calls) \<Rightarrow> (writeJSON hdrs n (reply a), d, map wrap calls)))"

lemma post_replies:
  "h_RegisterAgent h now body hdrs s =
     post_reply hdrs 200 Registered RegisterCall (decodeJSON (dec_registration h) body) (agent_Register (hs_pg h) (hs_sha h) (hs_inventory h) now) s"
  "h_Heartbeat h clock body hdrs s =
     post_reply hdrs 200 (\<lambda>_. StatusOK) HeartbeatCall (decodeJSON (dec_heartbeat h) body) (agent_Heartbeat (hs_pg h) clock) s"
  "h_IngestFlow h now clock body hdrs s =
     post_reply hdrs 202 FlowAccepted FlowCall (decodeJSON (dec_flow h) body) (flow_Ingest (hs_pg h) (hs_ul h) (hs_classifier h) now clock) s"
  "h_RecordConnectionProbe h now clock body hdrs s =
     post_reply hdrs 202 (\<lambda>_. StatusOK) ProbeCall (decodeJSON (dec_probe h) body) (RecordProbe (hs_pg h) (hs_ul h) now clock) s"
  by (simp_all only: h_RegisterAgent_def h_Heartbeat_def h_IngestFlow_def h_RecordConnectionProbe_def post_reply_def)

lemma writeJSON_simps [simp]:
  "rs_Status (writeJSON hdrs n v) = n" "rs_Status (writeError hdrs n e) = n"
  "rs_Headers (writeJSON hdrs n v) = alist_set ''Content-Type'' ''application/json'' hdrs"
  "rs_Headers (writeError hdrs n e) = alist_set ''Content-Type'' ''application/json'' hdrs"
  by (simp_all add: writeJSON_def writeError_def)

lemma post_reply_cases:
  obtains (undecoded) e where "post_reply hdrs n reply wrap request f s = (writeError hdrs 400 e, fst s, [])"
  | (refused) q e t calls where "f q (core (db_catalog (fst s)), snd s) = (Inl e, t, calls)"
      "post_reply hdrs n reply wrap request f s = (writeError hdrs 400 (ServiceFailed e), with_core t (fst s), map wrap calls)"
  | (accepted) q a t calls where "f q (core (db_catalog (fst s)), snd s) = (Inr a, t, calls)"
      "post_reply hdrs n reply wrap request f s = (writeJSON hdrs n (reply a), with_core t (fst s), map wrap calls)"
proof (cases request)
  case (Inl e)
  then show ?thesis using undecoded by (simp add: post_reply_def)
next
  case (Inr q)
  obtain r t calls where run: "f q (core (db_catalog (fst s)), snd s) = (r, t, calls)" by (metis prod_cases3)
  then show ?thesis
    using Inr refused [of q _ t calls] accepted [of q _ t calls] by (cases r) (simp_all add: post_reply_def announcing_def)
qed

lemma post_reply_core: "\<exists>t. fst (snd (post_reply hdrs n reply wrap request f s)) = with_core t (fst s)"
proof (cases rule: post_reply_cases [of hdrs n reply wrap request f s])
  case undecoded
  then show ?thesis by (intro exI [of _ "core (db_catalog (fst s))"]) simp
qed auto

lemma post_reply_atomic:
  assumes "\<And>q. atomic_service (f q)" "n < 400" "400 \<le> rs_Status (fst (post_reply hdrs n reply wrap request f s))"
  shows "no_effect s (post_reply hdrs n reply wrap request f s)"
proof (cases rule: post_reply_cases [of hdrs n reply wrap request f s])
  case undecoded
  then show ?thesis by simp
next
  case (refused q e t calls)
  then have "t = core (db_catalog (fst s)) \<and> calls = []" using atomic_service.atomic [OF assms(1)] by blast
  then show ?thesis using refused(2) by simp
next
  case (accepted q a t calls)
  then show ?thesis using assms(2,3) by simp
qed

lemma endpoint_core: "\<exists>t. fst (snd (serve_endpoint h now clock r e hdrs s)) = with_core t (fst s)"
proof (cases "posts e")
  case True
  then show ?thesis by (auto simp: posts_def post_replies post_reply_core)
next
  case False
  then have "fst (snd (serve_endpoint h now clock r e hdrs s)) = with_core (core (db_catalog (fst s))) (fst s)"
    using endpoint_reads [of e s h now clock r hdrs] by (simp add: no_effect_def)
  then show ?thesis ..
qed

lemma endpoint_error:
  assumes "400 \<le> rs_Status (fst (serve_endpoint h now clock r e hdrs s))" "e \<noteq> Heartbeat"
  shows "no_effect s (serve_endpoint h now clock r e hdrs s)"
proof (cases "posts e")
  case True
  then have "e \<in> {RegisterAgent, IngestFlow, ConnectionProbe}" using assms(2) by (auto simp: posts_def)
  then show ?thesis
    using assms(1)
    by (auto simp: post_replies intro!: post_reply_atomic register_service.atomic_service_axioms ingest_service.atomic_service_axioms
        probe_service.atomic_service_axioms)
qed (rule endpoint_reads)

lemma heartbeat_error:
  assumes "400 \<le> rs_Status (fst (serve_endpoint h now clock r Heartbeat hdrs s))"
  shows "snd (snd (serve_endpoint h now clock r Heartbeat hdrs s)) = []
    \<and> (\<exists>as. fst (snd (serve_endpoint h now clock r Heartbeat hdrs s)) = with_core ((core (db_catalog (fst s)))\<lparr>agents := as\<rparr>) (fst s)
         \<and> map ag_id as = map ag_id (agents (core (db_catalog (fst s)))))"
proof (cases rule: post_reply_cases [of hdrs 200 "\<lambda>_. StatusOK" HeartbeatCall "decodeJSON (dec_heartbeat h) (rq_Body r)" "agent_Heartbeat (hs_pg h) clock" s])
  case undecoded
  then show ?thesis by (auto simp: post_replies intro!: exI [of _ "agents (core (db_catalog (fst s)))"])
next
  case (refused q e t calls)
  then show ?thesis using heartbeat_failure [OF refused(1)] by (auto simp: post_replies)
next
  case (accepted q a t calls)
  then show ?thesis using assms by (simp add: post_replies)
qed

definition entity_headers :: "string set" where
  "entity_headers = {''Content-Type'', ''Cache-Control'', ''Connection'', ''X-Accel-Buffering''}"

lemma post_reply_headers:
  "k \<notin> entity_headers \<Longrightarrow> alist_get (rs_Headers (fst (post_reply hdrs n reply wrap request f s))) k = alist_get hdrs k"
  by (cases rule: post_reply_cases [of hdrs n reply wrap request f s]) (simp_all add: alist_get_set entity_headers_def)

lemma endpoint_headers:
  assumes "k \<notin> entity_headers"
  shows "alist_get (rs_Headers (fst (serve_endpoint h now clock r e hdrs s))) k = alist_get hdrs k"
proof (cases "posts e")
  case True
  then show ?thesis using assms by (auto simp: posts_def post_replies post_reply_headers)
next
  case False
  have "alist_get (rs_Headers (writeJSON hs n v)) k = alist_get hdrs k" "alist_get (rs_Headers (writeError hs n x)) k = alist_get hdrs k"
    if "hs \<in> {hdrs, no_store hdrs}" for hs n v x
    using assms that by (auto simp: alist_get_set no_store_def entity_headers_def)
  then show ?thesis
    using False assms
    by (cases e) (auto simp: posts_def h_Root_def h_Health_def h_ListAgents_def h_ListVMs_def h_ListFlows_def h_Summary_def h_TopTalkers_def
      h_CloudStatus_def h_Realtime_def h_ListConnectionTargets_def h_ListInternalActivity_def h_GetGraph_def h_ListConnections_def
      h_CloudContext_def Let_def alist_get_set entity_headers_def simp del: writeJSON_simps split: prod.splits sum.splits)
qed

lemma get_never_posts:
  assumes "route m path = Some e" "m \<noteq> POST"
  shows "\<not> posts e"
  using assms by (auto simp: route_def posts_def get_routes_def split: if_splits)

lemma route_heartbeat: "route m path = Some Heartbeat \<Longrightarrow> m = POST \<and> path = ''/api/agents/heartbeat''"
  using get_never_posts [of m path Heartbeat] by (auto simp: route_def posts_def post_routes_def split: if_splits)

section \<open>Properties\<close>

lemma Routes_cases:
  obtains (preflight) "rq_Method r = OPTIONS"
      "Routes h allowed now clock r s = (\<lparr>rs_Status = 204, rs_Headers = cors_headers allowed (rq_Origin r), rs_Body = NoBody\<rparr>, fst s, [])"
  | (not_allowed) "Routes h allowed now clock r s =
        (\<lparr>rs_Status = 405, rs_Headers = cors_headers allowed (rq_Origin r), rs_Body = PlainText ''Method Not Allowed''\<rparr>, fst s, [])"
  | (served) e where "route (rq_Method r) (rq_Path r) = Some e"
      "Routes h allowed now clock r s = serve_endpoint h now clock r e (cors_headers allowed (rq_Origin r)) s"
  by (cases "rq_Method r = OPTIONS"; cases "route (rq_Method r) (rq_Path r)") (auto simp: Routes_def cors_def mux_def)

text \<open>
  C22. Requests are safe. Whatever the request and whatever fails in the database, the backend
  touches nothing but the tables of agents, machines, flows and probes; a request that is not a
  POST changes no row and announces nothing, and so does every request that is answered with an
  error, except that a heartbeat may have stamped its agent before it failed.
\<close>

theorem requests_safe:
  assumes "Routes h allowed now clock r (d, c) = (resp, d', calls)"
  shows "(\<exists>t. d' = with_core t d)
    \<and> (rq_Method r \<noteq> POST \<longrightarrow> d' = d \<and> calls = [])
    \<and> (400 \<le> rs_Status resp \<longrightarrow> calls = []
         \<and> (d' = d \<or> rq_Path r = ''/api/agents/heartbeat''
              \<and> (\<exists>as. d' = with_core ((core (db_catalog d))\<lparr>agents := as\<rparr>) d \<and> map ag_id as = map ag_id (agents (core (db_catalog d))))))"
proof -
  have same: "\<exists>t. d = with_core t d" by (rule exI [of _ "core (db_catalog d)"]) simp
  show ?thesis
  proof (cases rule: Routes_cases [of r h allowed now clock "(d, c)"])
    case preflight
    then show ?thesis using assms same by simp
  next
    case not_allowed
    then show ?thesis using assms same by simp
  next
    case (served e)
    let ?x = "serve_endpoint h now clock r e (cors_headers allowed (rq_Origin r)) (d, c)"
    have x: "?x = (resp, d', calls)" using served(2) assms by simp
    have "\<exists>t. d' = with_core t d" using endpoint_core [of h now clock r e "cors_headers allowed (rq_Origin r)" "(d, c)"] x by simp
    moreover have "rq_Method r \<noteq> POST \<Longrightarrow> d' = d \<and> calls = []"
      using endpoint_reads [OF get_never_posts [OF served(1)], of "(d, c)" h now clock r] x by (metis fst_conv no_effect_simps)
    moreover have "400 \<le> rs_Status resp \<Longrightarrow> e \<noteq> Heartbeat \<Longrightarrow> d' = d \<and> calls = []"
      using endpoint_error [of h now clock r e "cors_headers allowed (rq_Origin r)" "(d, c)"] x by simp
    moreover have "400 \<le> rs_Status resp \<Longrightarrow> e = Heartbeat \<Longrightarrow> calls = [] \<and> rq_Path r = ''/api/agents/heartbeat''
        \<and> (\<exists>as. d' = with_core ((core (db_catalog d))\<lparr>agents := as\<rparr>) d \<and> map ag_id as = map ag_id (agents (core (db_catalog d))))"
      using heartbeat_error [of h now clock r "cors_headers allowed (rq_Origin r)" "(d, c)"] x route_heartbeat served(1) by simp
    ultimately show ?thesis by blast
  qed
qed

text \<open>
  C25. Only configured origins are granted access to answers. Whatever the endpoint and its
  outcome, the answer carries \<open>Access-Control-Allow-Origin\<close> exactly when the request names a
  configured origin, and then with that origin.
\<close>

theorem cors_exact:
  "alist_get (rs_Headers (fst (Routes h allowed now clock r s))) ''Access-Control-Allow-Origin''
     = (if rq_Origin r \<noteq> [] \<and> rq_Origin r \<in> set allowed then Some (rq_Origin r) else None)"
proof -
  have cors: "alist_get (cors_headers allowed (rq_Origin r)) ''Access-Control-Allow-Origin''
     = (if rq_Origin r \<noteq> [] \<and> rq_Origin r \<in> set allowed then Some (rq_Origin r) else None)"
    by (simp add: cors_headers_def)
  have outside: "''Access-Control-Allow-Origin'' \<notin> entity_headers" by (simp add: entity_headers_def)
  show ?thesis
    by (cases rule: Routes_cases [of r h allowed now clock s]) (simp_all add: cors endpoint_headers [OF outside])
qed

lemma three_choices:
  "(\<exists>x. A x \<and> (\<exists>y. B y \<and> (\<exists>z. C z \<and> Inr (F x y z) = Inr f))) \<longleftrightarrow> (\<exists>x y z. A x \<and> B y \<and> C z \<and> f = F x y z)"
  by auto

text \<open>
  The graph query is checked before it reaches the database: it is accepted exactly when its
  port, its minimum of bytes and its time range are each absent or well formed, and then the
  filter has the values of the request, 0 standing for an absent one.
\<close>

theorem graph_filter_exact:
  "graphFilter ul q = Inr f \<longleftrightarrow>
     (\<exists>port minBytes range.
        (if q ''port'' = [] then port = 0 else Atoi (q ''port'') = Some port \<and> 1 \<le> port \<and> port \<le> 65535)
        \<and> (if q ''min_bytes'' = [] then minBytes = 0 else Atoi (q ''min_bytes'') = Some minBytes \<and> 0 \<le> minBytes)
        \<and> (if q ''time_range'' = [] then range = 0 else parseDuration (q ''time_range'') = Some range)
        \<and> f = \<lparr>gf_AgentID = q ''agent_id'', gf_TenantID = q ''tenant_id'', gf_ProjectID = q ''project_id'', gf_VMID = q ''vm_id'',
               gf_Scope = q ''scope'', gf_Protocol = ToLower ul (q ''protocol''), gf_Port = port, gf_TimeRange = range,
               gf_MinBytes = minBytes, gf_Status = q ''status''\<rparr>)"
proof -
  have port: "(if q ''port'' \<noteq> [] then (case Atoi (q ''port'') of None \<Rightarrow> Inl InvalidPort
        | Some port \<Rightarrow> if port < 1 \<or> port > 65535 then Inl InvalidPort else Inr port) else Inr 0) = Inr x
      \<longleftrightarrow> (if q ''port'' = [] then x = 0 else Atoi (q ''port'') = Some x \<and> 1 \<le> x \<and> x \<le> 65535)" for x
    by (auto split: option.splits)
  have bytes: "(if q ''min_bytes'' \<noteq> [] then (case Atoi (q ''min_bytes'') of None \<Rightarrow> Inl InvalidMinBytes
        | Some v \<Rightarrow> if v < 0 then Inl InvalidMinBytes else Inr v) else Inr 0) = Inr x
      \<longleftrightarrow> (if q ''min_bytes'' = [] then x = 0 else Atoi (q ''min_bytes'') = Some x \<and> 0 \<le> x)" for x
    by (auto split: option.splits)
  have range: "with_time_range (q ''time_range'') 0 = Inr x
      \<longleftrightarrow> (if q ''time_range'' = [] then x = 0 else parseDuration (q ''time_range'') = Some x)" for x
    by (auto simp: with_time_range_def split: option.splits)
  show ?thesis unfolding graphFilter_def and_then_Inr port bytes range by (rule three_choices)
qed

text \<open>
  A time range in days means that many days: every number of days that a duration can hold,
  up to 106751, is read exactly.
\<close>

theorem day_range_exact:
  assumes "0 \<le> n" "n \<le> 106751"
  shows "parseDuration (itoa n @ ''d'') = Some (n * 24 * Hour)"
proof -
  have "Atoi (itoa n) = Some n" using assms by (intro Atoi_itoa) simp_all
  moreover have "in_i64 (n * 24)" "in_i64 (n * 24 * Hour)" using assms by (simp_all add: in_i64_def duration_defs)
  ultimately show ?thesis by (simp add: parseDuration_def)
qed

theorem day_range_exact_witness: "parseDuration (itoa 7 @ ''d'') = Some (7 * 24 * Hour)"
  by (rule day_range_exact) simp_all

text \<open>
  Observation on the code: the product of the next number of days wraps around, so a longer time
  range becomes a negative one, which the services replace by their short default.
\<close>

lemma long_range_wraps: "\<exists>d<0. parseDuration ''106752d'' = Some d"
proof -
  have "Atoi ''106752'' = Some 106752" by (simp add: Atoi_def digits_val_def is_digit_def in_i64_def)
  moreover have "wrap64 (wrap64 (106752 * 24) * Hour) < 0" by (simp add: wrap64_def duration_defs)
  ultimately show ?thesis by (auto simp: parseDuration_def)
qed

definition demo_handlers :: "string handlers" where
  "demo_handlers =
     \<lparr>hs_pg = demo_pg, hs_ul = id, hs_sha = (\<lambda>_. [1, 2, 3, 4, 5, 6, 7, 8]), hs_oid = (\<lambda>n. replicate (Suc n) CHR ''o''), hs_by_name = id,
      hs_by_iface = id, hs_arrange = id, hs_classifier = demo_classifier, hs_inventory = None, hs_visibility = demo_visibility,
      hs_window = 4 * Second, hs_provider = None, dec_registration = (\<lambda>_. Inl ''unexpected end of JSON input''),
      dec_heartbeat = (\<lambda>_. Inl ''unexpected end of JSON input''), dec_flow = (\<lambda>_. Inl ''unexpected end of JSON input''),
      dec_probe = (\<lambda>_. Inl ''unexpected end of JSON input'')\<rparr>"

definition demo_post :: http_request where
  "demo_post = \<lparr>rq_Method = POST, rq_Path = ''/api/flows/ingest'', rq_Origin = [], rq_Query = (\<lambda>_. []), rq_Body = []\<rparr>"

theorem requests_safe_witness:
  "\<exists>resp. Routes demo_handlers [] 5 9 demo_post (demo_database, None) = (resp, demo_database, []) \<and> rs_Status resp = 400"
proof -
  have run: "Routes demo_handlers [] 5 9 demo_post (demo_database, None) =
      (writeError [] 400 (InvalidJSON ''unexpected end of JSON input''), fst (demo_database, None :: nat option), [])"
    by (simp add: Routes_def cors_def mux_def route_def post_routes_def demo_post_def cors_headers_def h_IngestFlow_def decodeJSON_def
        demo_handlers_def Let_def)
  show ?thesis using requests_safe [OF run] run by (simp add: demo_post_def)
qed

end
