(* ===== verification/Schema.thy ===== *)
theory Schema
  imports Api
begin

text \<open>
  The typing of the stored rows: the value constraints that the schema of the database declares
  for agents, machines, flows, observations and probes
  (\<open>src/backend/internal/db/migrations\<close>), and that every request and every sweep keeps them. The
  statements of the model do not consult these constraints, so the property says that the checks
  in the Go code are enough: no write depends on the database to refuse an ill-typed value.
\<close>

section \<open>Typed rows\<close>

definition protocol_word :: "string \<Rightarrow> bool" where
  "protocol_word w \<longleftrightarrow> w \<in> {''tcp'', ''udp'', ''icmp''}"

definition direction_word :: "string \<Rightarrow> bool" where
  "direction_word w \<longleftrightarrow> w \<in> {''ingress'', ''egress''}"

definition scope_word :: "string \<Rightarrow> bool" where
  "scope_word w \<longleftrightarrow>
     w \<in> {''internal_same_tenant'', ''internal_cross_tenant'', ''unknown_internal'', ''external_public'', ''external_private'', ''unknown''}"

definition status_word :: "string \<Rightarrow> bool" where
  "status_word w \<longleftrightarrow> w \<in> {''online'', ''stale'', ''offline''}"

definition port_value :: "int option \<Rightarrow> bool" where
  "port_value p \<longleftrightarrow> (case p of None \<Rightarrow> True | Some n \<Rightarrow> 0 \<le> n \<and> n \<le> 65535)"

definition http_status_value :: "int option \<Rightarrow> bool" where
  "http_status_value p \<longleftrightarrow> (case p of None \<Rightarrow> True | Some n \<Rightarrow> 100 \<le> n \<and> n \<le> 599)"

definition flow_typed :: "'ip flow_row \<Rightarrow> bool" where
  "flow_typed r \<longleftrightarrow>
     protocol_word (nf_protocol r) \<and> direction_word (nf_direction r) \<and> scope_word (nf_scope r)
     \<and> port_value (nf_src_port r) \<and> port_value (nf_dst_port r) \<and> list_all (\<lambda>i. 0 \<le> Ingest.row_counter i r) all_counters
     \<and> 0 \<le> nf_avg_rtt_ms r \<and> 0 \<le> nf_avg_app_delay_ms r \<and> http_status_value (nf_last_http_status r)"

definition observation_typed :: "'ip observation_row \<Rightarrow> bool" where
  "observation_typed r \<longleftrightarrow>
     protocol_word (ob_protocol r) \<and> direction_word (ob_direction r) \<and> scope_word (ob_scope r)
     \<and> port_value (ob_src_port r) \<and> port_value (ob_dst_port r) \<and> list_all (\<lambda>i. 0 \<le> obs_counter i r) all_counters
     \<and> 0 \<le> ob_avg_rtt_ms r \<and> 0 \<le> ob_avg_app_delay_ms r \<and> http_status_value (ob_last_http_status r)"

definition schema_ok :: "'ip tables \<Rightarrow> bool" where
  "schema_ok t \<longleftrightarrow>
     list_all (\<lambda>a. status_word (ag_status a)) (agents t) \<and> list_all (\<lambda>v. status_word (vm_status v)) (vms t)
     \<and> list_all flow_typed (network_flows t) \<and> list_all observation_typed (flow_observations t)
     \<and> list_all (\<lambda>r. protocol_word (pb_protocol r)) (connection_probes t)"

section \<open>Statements that keep a property of the tables\<close>

text \<open>When \<open>P\<close> holds before and the statements return, it holds after, and the result satisfies \<open>Q\<close>.\<close>

definition triple :: "('t \<Rightarrow> bool) \<Rightarrow> ('t, 'e, 'a) tx \<Rightarrow> ('a \<Rightarrow> bool) \<Rightarrow> bool" where
  "triple P m Q \<longleftrightarrow> (\<forall>t c a t' c'. P t \<longrightarrow> m (t, c) = Inr (a, t', c') \<longrightarrow> P t' \<and> Q a)"

lemma tripleD: "triple P m Q \<Longrightarrow> P t \<Longrightarrow> m (t, c) = Inr (a, t', c') \<Longrightarrow> P t'"
  unfolding triple_def by blast

lemma triple_bind:
  assumes "triple P m Q" "\<And>a. Q a \<Longrightarrow> triple P (k a) R"
  shows "triple P (tx_bind m k) R"
  using assms unfolding triple_def tx_bind_Inr by blast

lemma triple_then: "triple P m (\<lambda>_. True) \<Longrightarrow> triple P k R \<Longrightarrow> triple P (tx_then m k) R"
  unfolding tx_then_def by (rule triple_bind)

lemma triple_return: "Q a \<Longrightarrow> triple P (tx_return a) Q"
  by (simp add: triple_def)

lemma triple_fail: "triple P (tx_fail e) Q"
  by (simp add: triple_def)

lemma triple_stmt: "(\<And>t a t'. P t \<Longrightarrow> f t = Some (a, t') \<Longrightarrow> P t' \<and> Q a) \<Longrightarrow> triple P (stmt e f) Q"
  by (auto simp: triple_def dest: stmt_Inr)

lemma triple_query: "triple P (query e f) (\<lambda>_. True)"
  unfolding query_def by (rule triple_stmt) auto

lemma triple_exec: "(\<And>t t'. P t \<Longrightarrow> f t = Some t' \<Longrightarrow> P t') \<Longrightarrow> triple P (exec e f) (\<lambda>_. True)"
  by (auto simp: triple_def dest: exec_Inr)

lemma triple_each: "(\<And>x. x \<in> set xs \<Longrightarrow> triple P (f x) (\<lambda>_. True)) \<Longrightarrow> triple P (tx_each f xs) (\<lambda>_. True)"
  by (induction xs) (auto intro: triple_return triple_then)

lemma triple_transaction:
  assumes "triple P body Q" "P t" "transaction err body (t, c) = (r, t')"
  shows "P t'"
proof (cases rule: transaction_cases [of err body t c])
  case (rolled_back e)
  then show ?thesis using assms(2,3) by simp
next
  case (committed a t'' c1 c2)
  then show ?thesis using assms tripleD by force
qed

lemma list_all_update_where: "list_all P rows \<Longrightarrow> (\<And>r. P r \<Longrightarrow> P (f r)) \<Longrightarrow> list_all P (update_where c f rows)"
  by (auto simp: list_all_iff update_where_def)

lemma list_all_upsert: "list_all P rows \<Longrightarrow> (\<And>r. P r \<Longrightarrow> P (f r)) \<Longrightarrow> P new \<Longrightarrow> list_all P (upsert c f new rows)"
  by (simp add: upsert_def list_all_update_where)

section \<open>Ingestion\<close>

lemma accepted_event:
  assumes "ValidateFlowEvent ul clock event = Inr e" "clock \<noteq> 0"
  shows "accepted e"
  using assms validate_norm [OF assms(1)] acceptable_iff [of ul clock event] norm_event_accepted by blast

lemma Scope_word:
  assumes "unregisteredInternalScope cls \<in> {ScopeExternalPrivate, ScopeUnknownInternal}"
  shows "scope_word (Scope cls src dst reg ip)"
  using assms by (auto simp: Scope_def scope_word_def go_const split: option.split)

lemma average_nonneg: "0 \<le> a \<Longrightarrow> 0 \<le> sql_average pg a b"
  by (auto simp: sql_average_def f64_ops Let_def intro!: f64_round_nonneg divide_nonneg_nonneg add_nonneg_nonneg)

lemma status_value:
  "fe_LastHTTPStatus e = 0 \<or> fe_LastHTTPStatus e \<in> {100..599} \<Longrightarrow> http_status_value (nullIfZeroStatus (fe_LastHTTPStatus e))"
  by (auto simp: nullIfZeroStatus_def http_status_value_def)

lemmas accepted_facts = accepted_def counters_ok_def ports_ok_def

lemma new_flow_typed:
  assumes "accepted e" "scope_word (gk_scope k)"
  shows "flow_typed (new_flow pg now obs k f e)" "observation_typed (new_observation pg obs k f e)"
  using assms status_value [of e]
  by (auto simp: flow_typed_def observation_typed_def new_flow_def new_observation_def accepted_facts protocol_word_def direction_word_def
      port_value_def all_counters_def go_const)

lemma grow_flow_typed:
  assumes "accepted e" "flow_typed r"
  shows "flow_typed (grow_flow pg obs e r)"
  using assms status_value [of e]
  by (auto simp: flow_typed_def grow_flow_def accepted_facts all_counters_def average_nonneg coalesce_def split: option.split)

lemma schema_simps [simp]:
  "schema_ok (t\<lparr>unknown_internal_hosts := hs\<rparr>) = schema_ok t" "schema_ok (t\<lparr>external_hosts := hs\<rparr>) = schema_ok t"
  "schema_ok (t\<lparr>vm_interfaces := is\<rparr>) = schema_ok t" "schema_ok (t\<lparr>uuids_used := n\<rparr>) = schema_ok t"
  by (simp_all add: schema_ok_def)

lemma record_host_keeps: "triple schema_ok (record_host pg scope e) (\<lambda>_. True)"
  unfolding record_host_def by (auto intro!: triple_exec triple_return)

lemma lookup_keeps: "triple schema_ok (lookup_flow pg src dst scope e) (\<lambda>(k, _). gk_scope k = scope)"
  unfolding lookup_flow_def by (rule triple_stmt) (auto simp: Let_def event_group_def split: option.splits)

lemma store_flow_keeps:
  assumes "accepted e" "scope_word (gk_scope k)"
  shows "triple schema_ok (store_flow pg now obs k e f) (\<lambda>_. True)"
proof -
  have "schema_ok t \<Longrightarrow> schema_ok (t\<lparr>network_flows := network_flows t @ [new_flow pg now obs k i e]\<rparr>)" for t i
    using new_flow_typed(1) [OF assms] by (simp add: schema_ok_def)
  moreover have "schema_ok t \<Longrightarrow> schema_ok (t\<lparr>network_flows := update_where c (grow_flow pg obs e) (network_flows t)\<rparr>)" for t c
    using grow_flow_typed [OF assms(1)] by (auto simp: schema_ok_def intro!: list_all_update_where)
  ultimately show ?thesis
    unfolding store_flow_def by (auto simp: Let_def intro!: triple_stmt split: if_splits)
qed

lemma observation_keeps:
  assumes "accepted e" "scope_word (gk_scope k)"
  shows "triple schema_ok (insert_observation pg obs k f e) (\<lambda>_. True)"
  unfolding insert_observation_def by (rule triple_exec) (use new_flow_typed(2) [OF assms] in \<open>auto simp: schema_ok_def\<close>)

lemma mark_online_keeps: "triple schema_ok (mark_online now a v) (\<lambda>_. True)"
  unfolding mark_online_def
  by (intro triple_then triple_exec) (auto simp: schema_ok_def status_word_def intro!: list_all_update_where)

lemma resolveVMByIP_keeps: "triple schema_ok (resolveVMByIP pg ip) (\<lambda>_. True)"
  unfolding resolveVMByIP_def by (rule triple_stmt) (auto split: option.splits)

lemma ingest_tx_keeps:
  assumes "accepted e" "unregisteredInternalScope cls \<in> {ScopeExternalPrivate, ScopeUnknownInternal}"
  shows "triple schema_ok (ingest_tx pg cls now obs e) (\<lambda>_. True)"
proof -
  have "triple schema_ok (ingest_flow pg now obs e src dst scope) (\<lambda>_. True)" if "scope_word scope" for src dst scope
    unfolding ingest_flow_def
    by (intro triple_then record_host_keeps triple_query triple_bind [OF lookup_keeps])
      (use assms(1) that in \<open>auto intro!: triple_bind triple_then store_flow_keeps observation_keeps mark_online_keeps triple_return\<close>)
  then show ?thesis
    unfolding ingest_tx_def Let_def
    by (intro triple_bind [OF triple_query])
      (auto intro!: triple_fail triple_bind [OF resolveVMByIP_keeps] triple_return triple_bind Scope_word [OF assms(2)] split: option.split)
qed

section \<open>Registration, probes, heartbeats and sweeps\<close>

lemma resolveUnknownHost_keeps:
  fixes pg :: "'ip pg"
  shows "triple schema_ok (resolveUnknownHost pg now vmID tenant ip) (\<lambda>_. True)"
proof -
  let ?move = "\<lambda>(vs :: 'ip vm_row list) a (r :: 'ip flow_row). case find (\<lambda>v. nf_src_vm_id r = Some (vm_id v)) vs of
      Some src \<Rightarrow> if nf_dst_vm_id r = None \<and> nf_dst_ip r = a
        then r\<lparr>nf_dst_vm_id := Some vmID,
               nf_scope := (if text_or_empty (vm_tenant_id src) = tenant then ''internal_same_tenant'' else ''internal_cross_tenant'')\<rparr>
        else r
    | None \<Rightarrow> r"
  have counters: "Ingest.row_counter i (r\<lparr>nf_dst_vm_id := v, nf_scope := x\<rparr>) = Ingest.row_counter i r" for i r v x
    by (cases i) simp_all
  have typed: "flow_typed r \<Longrightarrow> flow_typed (?move vs a r)" for vs a r
    by (auto simp: flow_typed_def scope_word_def counters split: option.split)
  have "list_all flow_typed rows \<Longrightarrow> list_all flow_typed (map (?move vs a) rows)" for rows vs a
    unfolding list.pred_map by (erule list.pred_mono_strong) (simp only: comp_apply typed)
  then have "schema_ok t \<Longrightarrow> schema_ok (t\<lparr>network_flows := map (?move (vms t) a) (network_flows t)\<rparr>)" for t a
    unfolding schema_ok_def by simp
  then show ?thesis
    unfolding resolveUnknownHost_def by (intro triple_then triple_exec) auto
qed

lemma upsert_vm_keeps: "triple schema_ok (upsert_vm pg now vmID f ip mac reg) (\<lambda>_. True)"
  unfolding upsert_vm_def
  by (rule triple_exec)
    (auto simp: schema_ok_def Let_def new_vm_def merge_vm_def status_word_def intro!: list_all_upsert split: option.splits)

lemma upsert_agent_keeps: "triple schema_ok (upsert_agent now vmID f reg) (\<lambda>_. True)"
  unfolding upsert_agent_def
  by (rule triple_exec) (auto simp: schema_ok_def Let_def new_agent_def merge_agent_def status_word_def intro!: list_all_upsert)

lemma register_interface_keeps: "triple schema_ok (register_interface pg now vmID tenant i) (\<lambda>_. True)"
  unfolding register_interface_def
  by (auto simp: Let_def intro!: triple_return triple_then triple_exec resolveUnknownHost_keeps)

lemma register_tx_keeps: "triple schema_ok (register_tx pg sha inventory now reg ip mac pub) (\<lambda>_. True)"
proof -
  have "triple schema_ok (resolveIdentity pg reg ip mac) (\<lambda>_. True)"
    by (auto simp: triple_def resolveIdentity_def dest: run_queries_same)
  then show ?thesis
    unfolding register_tx_def Let_def
    by (rule triple_bind)
      (auto intro!: triple_then upsert_vm_keeps upsert_agent_keeps triple_each register_interface_keeps resolveUnknownHost_keeps triple_return)
qed

lemma Register_keeps:
  assumes "schema_ok t" "agent_Register pg sha inventory now reg (t, c) = (r, t', calls)"
  shows "schema_ok t'"
  using assms triple_transaction [OF register_tx_keeps assms(1)]
  by (auto simp: agent_Register_def Let_def split: if_splits prod.splits sum.splits)

lemma Ingest_keeps:
  assumes "schema_ok t" "flow_Ingest pg ul cls now clock event (t, c) = (r, t', calls)" "clock \<noteq> 0"
    "unregisteredInternalScope cls \<in> {ScopeExternalPrivate, ScopeUnknownInternal}"
  shows "schema_ok t'"
proof (cases "ValidateFlowEvent ul clock event")
  case (Inl e)
  then show ?thesis using assms(1,2) by (simp add: flow_Ingest_def)
next
  case (Inr e)
  have "transaction DatabaseError (ingest_tx pg cls now clock e) (t, c) = (r', t'') \<Longrightarrow> schema_ok t''" for r' t''
    using triple_transaction [OF ingest_tx_keeps [OF accepted_event [OF Inr assms(3)] assms(4)] assms(1)] by blast
  then show ?thesis using assms(2) Inr by (auto simp: flow_Ingest_def Let_def split: prod.splits sum.splits)
qed

lemma check_probe_word: "check_probe ul clock event = Inr e \<Longrightarrow> protocol_word (pe_Protocol e)"
  by (auto simp: check_probe_def probe_defaults_def probeDefaultProtocol_def protocol_word_def Let_def split: if_splits)

lemma upsert_probe_keeps:
  assumes "protocol_word (pe_Protocol e)"
  shows "triple schema_ok (exec DatabaseError (upsert_probe pg now e src dst)) (\<lambda>_. True)"
  by (rule triple_exec)
    (use assms in \<open>auto simp: upsert_probe_def schema_ok_def Let_def new_probe_def update_probe_def intro!: list_all_upsert split: option.splits if_splits\<close>)

lemma record_probe_keeps:
  assumes "protocol_word (pe_Protocol e)"
  shows "triple schema_ok (record_probe_tx pg now e) (\<lambda>_. True)"
  unfolding record_probe_tx_def Let_def
  by (intro triple_bind [OF triple_query])
    (use assms in \<open>auto intro!: triple_fail triple_bind [OF resolveVMByIP_keeps] triple_then upsert_probe_keeps mark_online_keeps triple_return
      split: option.split\<close>)

lemma RecordProbe_keeps:
  assumes "schema_ok t" "RecordProbe pg ul now clock event (t, c) = (r, t', calls)"
  shows "schema_ok t'"
proof (cases "check_probe ul clock event")
  case (Inl e)
  then show ?thesis using assms by (simp add: RecordProbe_def)
next
  case (Inr e)
  have "transaction DatabaseError (record_probe_tx pg now e) (t, c) = (r', t'') \<Longrightarrow> schema_ok t''" for r' t''
    using triple_transaction [OF record_probe_keeps [OF check_probe_word [OF Inr]] assms(1)] by blast
  then show ?thesis using assms(2) Inr by (auto simp: RecordProbe_def split: prod.splits sum.splits)
qed

lemma Heartbeat_keeps:
  assumes "schema_ok t" "agent_Heartbeat pg clock hb (t, c) = (r, t', calls)"
  shows "schema_ok t'"
proof -
  let ?first = "stmt DatabaseError (\<lambda>t. Some (length (filter (\<lambda>a. ag_id a = ah_AgentID hb) (agents t)),
      t\<lparr>agents := update_where (\<lambda>a. ag_id a = ah_AgentID hb) (\<lambda>a. a\<lparr>ag_status := ''online'', ag_last_seen := stamp pg clock\<rparr>) (agents t)\<rparr>))"
  let ?second = "exec DatabaseError (\<lambda>t. Some (t\<lparr>vms := update_where (\<lambda>v. vm_agent_id v = Some (ah_AgentID hb))
      (\<lambda>v. v\<lparr>vm_status := ''online'', vm_last_seen := stamp pg clock\<rparr>) (vms t)\<rparr>))"
  have first: "triple schema_ok ?first (\<lambda>_. True)"
    by (rule triple_stmt) (auto simp: schema_ok_def status_word_def intro!: list_all_update_where)
  have second: "triple schema_ok ?second (\<lambda>_. True)"
    by (rule triple_exec) (auto simp: schema_ok_def status_word_def intro!: list_all_update_where)
  show ?thesis
  proof (cases "ah_AgentID hb = []")
    case True
    then show ?thesis using assms by (simp add: agent_Heartbeat_def)
  next
    case False
    show ?thesis
    proof (cases "?first (t, c)")
      case (Inl e)
      then show ?thesis using assms False by (simp add: agent_Heartbeat_def Let_def)
    next
      case (Inr x)
      obtain n t1 c1 where x: "x = (n, t1, c1)" by (cases x)
      note one = Inr [unfolded x]
      have t1: "schema_ok t1" using tripleD [OF first assms(1) one] .
      have "t' = t1 \<or> (\<exists>u c2. ?second (t1, c1) = Inr (u, t', c2))"
        using assms(2) False one by (auto simp: agent_Heartbeat_def Let_def split: if_splits sum.splits)
      then show ?thesis using t1 tripleD [OF second t1] by blast
    qed
  qed
qed

lemma forget_counters [simp]:
  "Ingest.row_counter i (r\<lparr>nf_agent_id := a, nf_src_vm_id := v, nf_dst_vm_id := w\<rparr>) = Ingest.row_counter i r"
  "obs_counter i (q\<lparr>ob_agent_id := a, ob_src_vm_id := v, ob_dst_vm_id := w\<rparr>) = obs_counter i q"
  by (cases i; simp)+

lemma forget_typed [simp]:
  "flow_typed (r\<lparr>nf_agent_id := a, nf_src_vm_id := v, nf_dst_vm_id := w\<rparr>) = flow_typed r"
  "observation_typed (q\<lparr>ob_agent_id := a, ob_src_vm_id := v, ob_dst_vm_id := w\<rparr>) = observation_typed q"
  by (simp_all add: flow_typed_def observation_typed_def)

lemma removal_keeps: "schema_ok t \<Longrightarrow> machines_removed gone t t' \<Longrightarrow> schema_ok t'"
  by (auto simp: schema_ok_def machines_removed_def list_all_iff)

lemma sweep_keeps:
  assumes "schema_ok (core (db_catalog d))" "sweep_tick locked now1 now2 cfg c1 c2 d = (d', calls)"
  shows "schema_ok (core (db_catalog d'))"
proof -
  have words: "status_word (agentStatusForLastSeen now x)" for now x by (simp add: agentStatusForLastSeen_def status_word_def Let_def)
  obtain r t1 calls1 where up: "agent_UpdateStatuses now1 (core (db_catalog d), c1) = (r, t1, calls1)" by (metis prod_cases3)
  have t1: "schema_ok t1"
  proof (cases rule: UpdateStatuses_cases [of now1 "core (db_catalog d)" c1])
    case (failed e)
    then show ?thesis using up assms(1) by simp
  next
    case (swept t'' n)
    then show ?thesis using up assms(1) words by (auto simp: schema_ok_def list_all_iff)
  qed
  have "schema_ok (core (db_catalog (purge ids (with_core t1 d))))" for ids
    using removal_keeps [OF t1] purge_core [of ids "with_core t1 d"] by simp
  then show ?thesis
    using assms(2) up t1
    by (cases rule: DeleteExpired_cases [of locked now2 "bc_VMDeleteAfter cfg" "with_core t1 d" c2]) (auto simp: sweep_tick_def)
qed

text \<open>A sweep leaves the tables of the cloud integration to the foreign keys, and untouched when nothing is deleted.\<close>

lemma sweep_context:
  assumes "sweep_tick locked now1 now2 cfg c1 c2 d = (d', calls)"
  shows "context_kept d d'" and "bc_VMDeleteAfter cfg = 0 \<Longrightarrow> \<exists>t. d' = with_core t d"
proof -
  obtain f g ids t1 where d': "d' = purge ids (with_core t1 d)"
    and gone: "\<forall>x\<in>set ids. 0 < bc_VMDeleteAfter cfg \<and> (\<exists>v\<in>set (vms (core (db_catalog d))). vm_id v = x \<and> vm_discovered_by v = ''agent''
       \<and> vm_last_seen v < now2 - interval_of (bc_VMDeleteAfter cfg))"
    using assms by (rule sweep_tick_result)
  show "context_kept d d'" using context_kept_core context_kept_purge context_kept_trans unfolding d' by blast
  show "\<exists>t. d' = with_core t d" if "bc_VMDeleteAfter cfg = 0"
  proof -
    have "ids = []" using gone that by (cases ids) auto
    then show ?thesis using d' by (auto simp: purge_def)
  qed
qed

section \<open>Every request and every sweep\<close>

lemma NewClassifier_scope:
  assumes "NewClassifier cidrs w = Inr cls"
  shows "unregisteredInternalScope cls \<in> {ScopeExternalPrivate, ScopeUnknownInternal}"
proof -
  have "add_prefixes c cs = Inr cls \<Longrightarrow> unregisteredInternalScope cls = unregisteredInternalScope c" for c cs
    by (induction c cs rule: add_prefixes.induct) (auto split: option.splits)
  with assms show ?thesis by (fastforce simp: NewClassifier_def Let_def split: if_splits)
qed

lemma backend_start_scope:
  "backend_start ul getenv file1 file2 = Inr (cfg, cls, inventory, vis) \<Longrightarrow> unregisteredInternalScope cls \<in> {ScopeExternalPrivate, ScopeUnknownInternal}"
  using NewClassifier_scope by (auto simp: backend_start_def Let_def split: sum.splits)

lemma post_reply_keeps:
  assumes "schema_ok (core (db_catalog (fst s)))" "\<And>q t c r t' calls. schema_ok t \<Longrightarrow> f q (t, c) = (r, t', calls) \<Longrightarrow> schema_ok t'"
  shows "schema_ok (core (db_catalog (fst (snd (post_reply hdrs n reply wrap request f s)))))"
  by (cases rule: post_reply_cases [of hdrs n reply wrap request f s]) (use assms in auto)

lemma endpoint_keeps:
  assumes s: "schema_ok (core (db_catalog (fst s)))"
    and scope: "unregisteredInternalScope (hs_classifier h) \<in> {ScopeExternalPrivate, ScopeUnknownInternal}" and "clock \<noteq> 0"
  shows "schema_ok (core (db_catalog (fst (snd (serve_endpoint h now clock r e hdrs s)))))"
proof (cases "posts e")
  case True
  then consider "e = RegisterAgent" | "e = Heartbeat" | "e = IngestFlow" | "e = ConnectionProbe" by (auto simp: posts_def)
  then show ?thesis
  proof cases
    case 1
    show ?thesis unfolding 1 serve_endpoint.simps post_replies by (rule post_reply_keeps [OF s]) (rule Register_keeps)
  next
    case 2
    show ?thesis unfolding 2 serve_endpoint.simps post_replies by (rule post_reply_keeps [OF s]) (rule Heartbeat_keeps)
  next
    case 3
    show ?thesis
      unfolding 3 serve_endpoint.simps post_replies by (rule post_reply_keeps [OF s]) (rule Ingest_keeps [OF _ _ assms(3) scope])
  next
    case 4
    show ?thesis unfolding 4 serve_endpoint.simps post_replies by (rule post_reply_keeps [OF s]) (rule RecordProbe_keeps)
  qed
next
  case False
  then show ?thesis using endpoint_reads [of e s h now clock r hdrs] s by (simp add: no_effect_def)
qed

text \<open>
  The stored rows keep the types of the schema. On a backend started with a configuration it
  accepts, whatever request arrives and whatever statement fails, and at every tick of the status
  sweeper, well-typed tables stay well typed: statuses, protocols, directions and scopes are the
  words the schema lists, ports and HTTP statuses are in range, and no counter or average is
  negative.
\<close>

theorem requests_keep_schema:
  assumes "backend_start ul getenv file1 file2 = Inr (cfg, hs_classifier h, inventory, vis)" "clock \<noteq> 0"
    and "schema_ok (core (db_catalog d))"
  shows "schema_ok (core (db_catalog (fst (snd (Routes h (bc_AllowedOrigins cfg) now clock r (d, c))))))
    \<and> schema_ok (core (db_catalog (fst (sweep_tick locked now clock cfg c1 c2 d))))"
proof
  note scope = backend_start_scope [OF assms(1)]
  show "schema_ok (core (db_catalog (fst (snd (Routes h (bc_AllowedOrigins cfg) now clock r (d, c))))))"
  proof (cases rule: Routes_cases [of r h "bc_AllowedOrigins cfg" now clock "(d, c)"])
    case (served e)
    have "schema_ok (core (db_catalog (fst (d, c))))" using assms(3) by simp
    then show ?thesis unfolding served(2) by (rule endpoint_keeps [OF _ scope assms(2)])
  qed (use assms(3) in simp_all)
  show "schema_ok (core (db_catalog (fst (sweep_tick locked now clock cfg c1 c2 d))))"
    using sweep_keeps [OF assms(3)] by (metis prod.collapse)
qed

lemma demo_schema: "schema_ok (core (db_catalog demo_database))"
  by (simp add: schema_ok_def demo_database_def demo_tables_def demo_agent_def demo_vm_def status_word_def)

lemma Load_networks:
  assumes "backend_Load ul getenv = Inr cfg"
  shows "bc_InternalCIDRs cfg = backend_csv (backend_env getenv ''INTERNAL_CIDRS''
      ''10.0.0.0/8,172.16.0.0/12,192.168.0.0/16,127.0.0.0/8,fc00::/7,fe80::/10,::1/128'')"
    "bc_UnregisteredInternalScope cfg = backend_env getenv ''UNREGISTERED_INTERNAL_SCOPE'' ''external_private''"
  using assms by (auto simp: backend_Load_def and_then_Inr check_settings_Inr)

text \<open>An environment that configures no internal network.\<close>

definition demo_getenv :: "string \<Rightarrow> string" where
  "demo_getenv key = (if key = ''INTERNAL_CIDRS'' then '','' else [])"

lemma demo_start: "\<exists>x. backend_start id demo_getenv NotExist NotExist = Inr x"
proof -
  have trim: "TrimSpace [] = []" by code_simp
  have nets: "backend_csv (backend_env demo_getenv ''INTERNAL_CIDRS'' d) = []" for d
  proof -
    have "TrimSpace '','' = '',''" "backend_csv '','' = []" by code_simp+
    then show ?thesis by (simp add: backend_env_def demo_getenv_def)
  qed
  have graph: "load_graph id demo_getenv = load_graph id (\<lambda>_. [])" by (simp add: load_graph_def backend_env_def envBool_def demo_getenv_def)
  have env: "key \<noteq> ''INTERNAL_CIDRS'' \<Longrightarrow> backend_env demo_getenv key d = d" for key d by (simp add: backend_env_def demo_getenv_def trim)
  have "key \<noteq> ''INTERNAL_CIDRS'' \<Longrightarrow> duration_env demo_getenv key d = Inr d" for key d by (simp add: duration_env_def demo_getenv_def)
  then have "\<exists>cfg. backend_Load id demo_getenv = Inr cfg"
    by (simp add: backend_Load_def check_settings_Inr settings_ok_def graph demo_ports env duration_defs)
  then obtain cfg where cfg: "backend_Load id demo_getenv = Inr cfg" ..
  have "NewClassifier [] ''external_private'' = Inr \<lparr>cidr_prefixes = [], unregisteredInternalScope = ''external_private''\<rparr>"
    by (simp add: NewClassifier_def go_const)
  then show ?thesis using cfg Load_networks [OF cfg] by (simp add: backend_start_def nets env Let_def)
qed

theorem requests_keep_schema_witness:
  "\<exists>cfg cls inventory vis. backend_start id demo_getenv NotExist NotExist = Inr (cfg, cls, inventory, vis)
     \<and> schema_ok (core (db_catalog (fst (snd (Routes (demo_handlers\<lparr>hs_classifier := cls\<rparr>) (bc_AllowedOrigins cfg) 5 9 demo_post (demo_database, None))))))"
proof -
  obtain cfg cls inventory vis where started: "backend_start id demo_getenv NotExist NotExist = Inr (cfg, cls, inventory, vis)"
    using demo_start by auto
  then have "backend_start id demo_getenv NotExist NotExist = Inr (cfg, hs_classifier (demo_handlers\<lparr>hs_classifier := cls\<rparr>), inventory, vis)"
    by simp
  from requests_keep_schema [OF this _ demo_schema, of 9] started show ?thesis by auto
qed

end
