(* ===== verification/Spec2Isabelle.thy ===== *)
theory Spec2Isabelle
  imports Agent_Run Fan_In Backend_Run
begin

text \<open>
  VMLens: a verification development of the agent and the backend.

  \<^bold>\<open>The program.\<close> VMLens shows which machines of a cloud network talk to each other. On every
  machine an agent (\<open>src/agent\<close>) captures traffic with eBPF programs, turns samples into flow
  events, adds the events up per flow and posts the sums to a backend at a fixed interval. The
  backend (\<open>src/backend\<close>) validates what it gets, attributes it to machines, stores it in
  PostgreSQL, announces changes to browsers and answers queries: lists, statistics, a graph,
  connection states, a cloud context. The development follows a flow from the 82 bytes of a sample
  to the sums in the tables and to the answers. Definitions keep the names of the source where
  Isabelle allows it; a prefix (\<open>agent_\<close>, \<open>backend_\<close>, \<open>flow_\<close>, \<open>svc_\<close>, \<open>h_\<close>) tells apart functions of
  the same name in different packages.

  \<^bold>\<open>The language.\<close> \<open>Prelude\<close> has Go's integers (\<open>u8\<close> to \<open>u64\<close> are words, so sums wrap; \<open>int64\<close> is
  \<open>int\<close> with the conversions written out), byte strings, association lists for Go maps, times as
  nanoseconds with 0 for the zero time, the theorem collections and the locales \<open>tallying\<close> and
  \<open>counting\<close> for counters that add up. \<open>Float64\<close> models \<open>float64\<close> as the rational a finite value
  denotes, rounded to nearest even after every operation; the locale \<open>rounding\<close> holds what averages
  need of it. \<open>Netip\<close> models \<open>net\<close> and \<open>net/netip\<close>: parsing and printing of addresses and prefixes,
  containment. \<open>Go_Parse\<close> models \<open>ParseBool\<close>, \<open>Atoi\<close> and \<open>ParseDuration\<close>.

  \<^bold>\<open>The agent.\<close>
  \<^item> \<open>Reducers\<close>: \<open>internal/features\<close>, the classification of a flow and the reducers of bytes, packets,
    connections, RTT, retransmissions and HTTP status. Each is shown to count exactly; the RTT
    average stays between the least and the greatest sample.
  \<^item> \<open>Flow_Store\<close>: \<open>internal/pipeline\<close> and \<open>internal/flow\<close>, keys, flow states, the accumulator with
    \<open>Add\<close>, \<open>Drain\<close> and \<open>AddAll\<close>. The store holds for each key the state made by its events, and a
    batch that is put back restores it.
  \<^item> \<open>Packet_Parse\<close>, \<open>Collectors\<close>, \<open>Fan_In\<close>: \<open>features/traffic/packet\<close> and \<open>features/protocols\<close>, the
    decoding of samples and packets, the attaching and releasing of kernel hooks, and the goroutines
    that read samples and merge several collectors, as a step relation over bounded channels.
  \<^item> \<open>Agent_Filter\<close>, \<open>Agent_Loop\<close>: the filters, the \<open>select\<close> loop and the sender of
    \<open>cmd/agent/main.go\<close>. The state is what the loop and the sender hold; the steps are the cases of
    the two \<open>select\<close> statements in any order. Traffic is conserved in every interleaving.
  \<^item> \<open>Exporter\<close>: \<open>internal/exporter\<close> and the retry loops; \<open>Agent_Config\<close>: \<open>internal/config\<close>,
    \<open>internal/identity\<close> and the probe round of \<open>internal/probe\<close>.
  \<^item> \<open>Agent_Run\<close>: \<open>run\<close> itself with its early returns and deferred calls, the ICMP socket, the
    heartbeat loop, the probe listener and target loop, the five calls of the backend.

  \<^bold>\<open>The backend.\<close>
  \<^item> \<open>Metrics\<close>: \<open>internal/telemetry/metrics\<close>, validation and normal form of events, rates, severities.
  \<^item> \<open>Classify\<close>, \<open>Inventory\<close>: scopes, service names and visibility; the operator's inventory file.
  \<^item> \<open>Database\<close>: the tables as lists of rows, and transactions as functions on the tables together with
    the number of statements that still succeed, so that every statement of every transaction may
    be the one that fails. A failed transaction is rolled back.
  \<^item> \<open>Hub\<close>: \<open>internal/realtime\<close>, clients with bounded buffers and throttled events with their timers, as
    a step relation with one step per critical section of the two locks and per offer to a client,
    so that a flush is interleaved with its broadcast and broadcasts with each other. The latest
    update always reaches its broadcast, and clients are served without reordering but for overlap.
  \<^item> \<open>Ingest\<close>, \<open>Agents\<close>, \<open>Graph\<close>, \<open>Connections\<close>, \<open>Connection_Views\<close>, \<open>Flow_Views\<close>,
    \<open>Cloud_Context\<close>: the services of \<open>internal/service\<close>, one theory each (\<open>Flow_Views\<close> has the listings
    of flows and the statistics, \<open>Agents\<close> also the status sweep, \<open>Graph\<close> also the listing
    of machines). \<open>Expiry\<close> has the removal of expired machines with what the foreign keys of all
    migrations do to the other tables, given exactly. SQL statements are written as functions on rows; the
    counters of the graph are 64-bit sums that wrap.
  \<^item> \<open>Backend_Config\<close>, \<open>Api\<close>: \<open>internal/config\<close>; the handlers, the routing table and CORS of
    \<open>internal/api\<close>, with every request as a function from the database to an answer, the new database and
    the announcements.
  \<^item> \<open>Schema\<close>: the value constraints that the migrations declare, kept by every request and sweep though
    the model of a statement never checks them.
  \<^item> \<open>Backend_Run\<close>: \<open>internal/db\<close> and \<open>run\<close> of \<open>cmd/api/main.go\<close>, from the environment to the served
    requests and the ticks of the sweeper.

  This theory holds the properties that need both programs: what the agent's store sends is accepted
  and counted exactly once per delivery, and an agent that the backend has removed comes back.

  \<^bold>\<open>Interfaces.\<close> A locale states what a client may rely on, and is interpreted on the model's own
  definitions: \<open>tallying\<close> and \<open>counting\<close> (the reducers and the flow state), \<open>rounding\<close> (\<open>f64_round\<close>),
  \<open>keyed_fold\<close> (the four merges of the connection views and the map of configurations),
  \<open>wrapped_counter\<close> (edges and nodes of the graph), \<open>owned_listing\<close> (the five listings of the cloud
  context), \<open>reading_service\<close> and \<open>atomic_service\<close> (the services behind the handlers).

  \<^bold>\<open>Parameters.\<close> Code outside the repository is an argument of the definitions that use it: the
  database's reading and printing of addresses, its time stamps and identifiers and the number it takes a
  floating-point argument for whose type it infers (\<open>'ip pg\<close>; identifiers are assumed fresh where two rows must differ), its collations, SHA-256, the lower case of
  non-ASCII letters (\<open>ul\<close>), JSON encoding and decoding, the HTTP client, the resolver (assumed to return
  4- or 16-byte addresses), URL parsing, the file system, the environment, the random source of the
  mock collector, the kernel interface of \<open>cilium/ebpf\<close> and the socket calls (which of them fail), the
  order in which a Go map is traversed, and all clocks.

  \<^bold>\<open>Loops and bounds.\<close> Every function is total by structural recursion or a measure, except
  \<open>registerUntilReady\<close>, which may run for ever and is a \<open>partial_function\<close> with a proof of when it
  returns. Loops over the outside world (reading samples, accepting connections, ticks) consume a list of what
  happens, of any length. \<open>ParseDuration\<close> recurses with the length of its text as fuel, and every item
  consumes a character. The agent's sums are exact while they stay below \<open>2 ^ 63\<close>, and
  fewer than \<open>2 ^ 64\<close> events make up a flow; stored sums are bounded by the database, which refuses a
  statement that leaves the 64-bit range.

  \<^bold>\<open>Not modelled.\<close> The eBPF programs (C in the kernel; the agent is modelled from the bytes of a sample
  on), the frontend and the deployment scripts (not Go). Logging, including \<open>flow/debug.go\<close>, has no effect that
  a definition returns. The texts of most errors are constructors with their arguments. Signals, the
  listening server and its shutdown are the standard library's. The request logger and the recoverer of
  \<open>middleware.go\<close> are left out: the modelled handlers are total, so there is no panic to recover from. So is the
  answer "streaming unsupported" of the event stream: no middleware wraps the response writer, and that of
  \<open>net/http\<close> can flush. Requests of the backend take effect one after the other: the locks and row
  locks inside a transaction are statements that may fail, but two transactions are not interleaved.
  The meaning of the SQL scripts of the migrations is a parameter; the tables that they create and their value
  constraints are those of \<open>Database\<close> and \<open>Schema\<close>. A few declared but unused packages of the
  agent (\<open>shared/network\<close>, the parsers of DNS, TLS and HTTP payloads, and the empty
  per-protocol collectors) are left out.
\<close>

section \<open>What the agent sends, the backend accepts\<close>

text \<open>A running mean: a count of samples and a float64 average.\<close>

definition mean_ok :: "nat \<Rightarrow> u64 \<Rightarrow> f64 \<Rightarrow> bool" where
  "mean_ok n samples avg \<longleftrightarrow> (\<exists>m\<le>n. samples = of_nat m \<and> (m = 0 \<longrightarrow> avg = 0)) \<and> is_f64 avg \<and> 0 \<le> avg"

lemma mean_ok_Suc: "mean_ok n c a \<Longrightarrow> mean_ok (Suc n) c a"
  by (auto simp: mean_ok_def intro: le_SucI)

lemma mean_step:
  assumes mean: "mean_ok n c a" and v: "0 < v" "is_f64 v" and n: "Suc n < 2 ^ 64"
  shows "mean_ok (Suc n) (c + 1) (f64_add a (f64_div (f64_sub v a) (f64_of_u64 (c + 1))))"
proof -
  obtain m where m: "m \<le> n" "c = of_nat m" "m = 0 \<longrightarrow> a = 0" using mean by (auto simp: mean_ok_def)
  have a: "f64_round a = a" "0 \<le> a" and fv: "f64_round v = v" using mean v by (auto simp: mean_ok_def is_f64_def)
  let ?r = "f64_round (a + f64_round (f64_round (v - a) / f64_of_u64 (c + 1)))"
  have "0 \<le> ?r"
  proof (cases "m = 0")
    case True
    then show ?thesis using m v f64_of_int_exact [of 1] by (simp add: f64_ops fv)
  next
    case False
    then have "2 \<le> f64_of_u64 (c + 1)" using f64_of_u64_ge_2 [of "Suc m"] m n by (simp add: add.commute)
    then show ?thesis using f64.mean_between [OF a(1) fv, of _ 0 "max a v"] a v by simp
  qed
  moreover have "c + 1 = of_nat (Suc m)" by (simp add: m add.commute)
  ultimately show ?thesis using m(1) unfolding mean_ok_def by (auto simp: f64_add_def f64_sub_def f64_div_def ac_simps intro!: exI [of _ "Suc m"])
qed

text \<open>A metric as the collectors make them, and what a state keeps of such metrics.\<close>

definition metric_ok :: "flow_metric \<Rightarrow> bool" where
  "metric_ok e \<longleftrightarrow>
     TrimSpace (fm_AgentID e) \<noteq> [] \<and> fm_Protocol e \<in> {ProtocolTCP, ProtocolUDP, ProtocolICMP} \<and> fm_Direction e \<in> {Ingress, Egress}
     \<and> ParseAddr (fm_SrcIP e) \<noteq> None \<and> ParseAddr (fm_DstIP e) \<noteq> None
     \<and> 0 \<le> fm_SrcPort e \<and> fm_SrcPort e \<le> 65535 \<and> 0 \<le> fm_DstPort e \<and> fm_DstPort e \<le> 65535
     \<and> 0 < fm_FirstSeen e \<and> fm_FirstSeen e \<le> fm_LastSeen e \<and> is_f64 (fm_RTTMs e) \<and> is_f64 (fm_AppDelayMs e)"

definition times_ok :: "nat \<Rightarrow> flow_state \<Rightarrow> bool" where
  "times_ok n s \<longleftrightarrow> (if n = 0 then fs_FirstSeen s = 0 \<and> fs_LastSeen s = 0 else 0 < fs_FirstSeen s \<and> fs_FirstSeen s \<le> fs_LastSeen s)"

definition state_ok :: "nat \<Rightarrow> flow_state \<Rightarrow> bool" where
  "state_ok n s \<longleftrightarrow>
     0 \<le> fs_SrcPort s \<and> fs_SrcPort s \<le> 65535 \<and> times_ok n s
     \<and> (st_Last (ap_HTTPStatus (fs_Application s)) = 0
        \<or> 100 \<le> st_Last (ap_HTTPStatus (fs_Application s)) \<and> st_Last (ap_HTTPStatus (fs_Application s)) \<le> 599)
     \<and> mean_ok n (rt_Samples (tc_RTT (fs_TCP s))) (rt_AvgMs (tc_RTT (fs_TCP s)))
     \<and> mean_ok n (ap_Samples (fs_Application s)) (ap_AvgDelayMs (fs_Application s))"

lemma state_ok_new: "state_ok 0 (State_new k)"
  by (simp add: state_ok_def times_ok_def State_new_def mean_ok_def is_f64_def rtt_zero_def status_zero_def)

lemma rtt_mean: "mean_ok n (rt_Samples m) (rt_AvgMs m) \<Longrightarrow> is_f64 v \<Longrightarrow> Suc n < 2 ^ 64 \<Longrightarrow>
    mean_ok (Suc n) (rt_Samples (rtt_Apply m v)) (rt_AvgMs (rtt_Apply m v))"
  using mean_step [of n "rt_Samples m" "rt_AvgMs m" v] by (auto simp: rtt_Apply_def Let_def mean_ok_Suc)

lemma delay_mean: "mean_ok n (ap_Samples m) (ap_AvgDelayMs m) \<Longrightarrow> is_f64 v \<Longrightarrow> Suc n < 2 ^ 64 \<Longrightarrow>
    mean_ok (Suc n) (ap_Samples (applyAppDelay m v)) (ap_AvgDelayMs (applyAppDelay m v))"
  using mean_step [of n "ap_Samples m" "ap_AvgDelayMs m" v] by (auto simp: applyAppDelay_def Let_def mean_ok_Suc)

lemma status_last:
  "st_Last c = 0 \<or> 100 \<le> st_Last c \<and> st_Last c \<le> 599 \<Longrightarrow>
   st_Last (ApplyStatus c v) = 0 \<or> 100 \<le> st_Last (ApplyStatus c v) \<and> st_Last (ApplyStatus c v) \<le> 599"
  by (auto simp: ApplyStatus_def Let_def)

lemma Apply_fields [simp]:
  "fs_SrcPort (State_Apply s e) = (if fs_SrcPort s = 0 \<and> fm_SrcPort e > 0 then fm_SrcPort e else fs_SrcPort s)"
  "ap_HTTPStatus (fs_Application (State_Apply s e)) = ApplyStatus (ap_HTTPStatus (fs_Application s)) (fm_HTTPStatus e)"
  "tc_RTT (fs_TCP (State_Apply s e)) = rtt_Apply (tc_RTT (fs_TCP s)) (fm_RTTMs e)"
  "ap_Samples (fs_Application (State_Apply s e)) = ap_Samples (applyAppDelay (fs_Application s) (fm_AppDelayMs e))"
  "ap_AvgDelayMs (fs_Application (State_Apply s e)) = ap_AvgDelayMs (applyAppDelay (fs_Application s) (fm_AppDelayMs e))"
  "fs_FirstSeen (State_Apply s e) =
     (if IsZero (fs_FirstSeen s) \<or> \<not> IsZero (fm_FirstSeen e) \<and> fm_FirstSeen e < fs_FirstSeen s then fm_FirstSeen e else fs_FirstSeen s)"
  "fs_LastSeen (State_Apply s e) = (if fm_LastSeen e > fs_LastSeen s then fm_LastSeen e else fs_LastSeen s)"
  by (simp_all add: State_Apply_def Let_def)

lemma times_ok_Apply: "times_ok n s \<Longrightarrow> metric_ok e \<Longrightarrow> times_ok (Suc n) (State_Apply s e)"
  by (auto simp: times_ok_def metric_ok_def IsZero_def split: if_splits)

lemma state_ok_Apply: "state_ok n s \<Longrightarrow> metric_ok e \<Longrightarrow> Suc n < 2 ^ 64 \<Longrightarrow> state_ok (Suc n) (State_Apply s e)"
  using times_ok_Apply [of n s e] status_last [of "ap_HTTPStatus (fs_Application s)" "fm_HTTPStatus e"]
  by (simp add: state_ok_def metric_ok_def rtt_mean delay_mean)

lemma state_ok_fold:
  "state_ok n s \<Longrightarrow> list_all metric_ok es \<Longrightarrow> n + length es < 2 ^ 64 \<Longrightarrow> state_ok (n + length es) (foldl State_Apply s es)"
proof (induction es arbitrary: n s)
  case (Cons e es)
  then show ?case using state_ok_Apply [of n s e] Cons.IH [of "Suc n" "State_Apply s e"] by simp
qed simp

lemma u64_to_i64_nonneg: "uint w < 2 ^ 63 \<Longrightarrow> 0 \<le> u64_to_i64 w"
  by (simp add: u64_to_i64_small)

lemma payload_norm_counter: "i \<noteq> FConn conn_counter.Requests \<Longrightarrow> payload_counter i (norm_event ul now e) = payload_counter i e"
  by (cases "(i, e)" rule: payload_counter.cases)
     (simp_all add: norm_event_def fix_requests_def fix_times_def fix_ports_direction_def fix_words_def Let_def split: prod.split)

lemma payload_acceptable:
  assumes s: "s = foldl State_Apply (State_new (KeyFromMetric e)) es" "metric_ok e" "state_ok n s" "n \<noteq> 0"
    and small: "\<And>i. uint (flow_tally i s) < 2 ^ 63"
  shows "acceptable ul now (FromFlowState s)"
proof -
  have key: "fs_Key s = KeyFromMetric e" by (simp add: s(1) State_new_def)
  have nonneg: "0 \<le> payload_counter i (FromFlowState s)" for i
    using small [of i] by (simp add: payload_counter_From u64_to_i64_nonneg)
  have "\<not> negative_counters (FromFlowState s)"
    using nonneg [of "FBytes byte_counter.Sent"] nonneg [of "FBytes byte_counter.Received"] nonneg [of FPackets] nonneg [of "FConn conn_counter.Opens"]
      nonneg [of "FConn conn_counter.Requests"] nonneg [of "FConn conn_counter.Errors"] nonneg [of FRetrans]
    by (simp add: negative_counters_def)
  moreover have "\<not> negative_http (FromFlowState s)"
    using nonneg [of "FStatus Informational"] nonneg [of "FStatus Success"] nonneg [of "FStatus Redirect"]
      nonneg [of "FStatus ClientError"] nonneg [of "FStatus ServerError"] by (simp add: negative_http_def)
  moreover have "\<not> negative_latency (FromFlowState s)" "\<not> bad_http_status (FromFlowState s)"
    using s(3) by (auto simp: negative_latency_def bad_http_status_def FromFlowState_def state_ok_def mean_ok_def)
  ultimately have "counters_ok (FromFlowState s)" by (simp add: tests_meaning(1) [symmetric])
  moreover have "addresses_ok (FromFlowState s)" "TrimSpace (fe_AgentID (FromFlowState s)) \<noteq> []"
    "ports_ok (FromFlowState s)"
    using s(2,3) by (simp_all add: addresses_ok_def FromFlowState_def key KeyFromMetric_def metric_ok_def state_ok_def ports_ok_def)
  moreover have "fe_Protocol (FromFlowState s) \<in> {ProtocolTCP, ProtocolUDP, ProtocolICMP}" "fe_Direction (FromFlowState s) \<in> {Ingress, Egress}"
    using s(2) by (simp_all add: FromFlowState_def key KeyFromMetric_def metric_ok_def)
  moreover have "fe_FirstSeen (FromFlowState s) \<noteq> 0" "fe_FirstSeen (FromFlowState s) \<le> fe_LastSeen (FromFlowState s)"
    using s(3,4) by (simp_all add: FromFlowState_def state_ok_def times_ok_def)
  ultimately show ?thesis
    by (auto simp: acceptable_def norm_words go_const)
qed

text \<open>
  What the agent sends is accepted by the backend, and counted as it was observed. For
  every flow in the agent's store after any well-formed events, the payload made from it passes
  the backend's validation at any time, and every counter of the validated event (all but the
  request count, which the backend may infer) is the sum of what the flow's events contributed,
  as long as these sums stay below \<open>2 ^ 63\<close>.
\<close>

lemma accepted_payload:
  assumes "list_all metric_ok es" "length es < 2 ^ 64"
    and get: "alist_get (flows (foldl Accumulator_Add NewAccumulator es)) k = Some s"
    and small: "\<And>i. (\<Sum>e\<leftarrow>events_of k es. uint (flow_contrib i e)) < 2 ^ 63"
  shows "ValidateFlowEvent ul now (FromFlowState s) = Inr (norm_event ul now (FromFlowState s))"
    and "i \<noteq> FConn conn_counter.Requests \<Longrightarrow>
      payload_counter i (norm_event ul now (FromFlowState s)) = (\<Sum>e\<leftarrow>events_of k es. uint (flow_contrib i e))"
proof -
  have s: "s = foldl State_Apply (State_new k) (events_of k es)" and ne: "events_of k es \<noteq> []"
    using get by (auto simp: get_fold_Add split: if_splits)
  then obtain e where e: "e \<in> set (events_of k es)" by (cases "events_of k es") auto
  then have k: "k = KeyFromMetric e" and ok: "metric_ok e" using assms(1) by (auto simp: events_of_def list_all_iff)
  have "length (events_of k es) < 2 ^ 64" using assms(2) length_filter_le [of _ es] unfolding events_of_def by (meson le_less_trans)
  moreover have "list_all metric_ok (events_of k es)" using assms(1) by (auto simp: events_of_def list_all_iff)
  ultimately have st: "state_ok (length (events_of k es)) s" using state_ok_fold [OF state_ok_new, of "events_of k es" k] s by simp
  have "uint (\<Sum>w\<leftarrow>map (flow_contrib i) (events_of k es). w) = (\<Sum>e\<leftarrow>events_of k es. uint (flow_contrib i e))" for i
    using small [of i] uint_sum_list [of "map (flow_contrib i) (events_of k es)"] by (simp add: comp_def)
  then have tally: "uint (flow_tally i s) = (\<Sum>e\<leftarrow>events_of k es. uint (flow_contrib i e))" for i
    by (simp add: s flow.tally_fold flow_tally_new)
  have "acceptable ul now (FromFlowState s)"
    using payload_acceptable [OF s [unfolded k] ok st] ne small tally k by simp
  then show "ValidateFlowEvent ul now (FromFlowState s) = Inr (norm_event ul now (FromFlowState s))" by (simp add: validate_norm_iff)
  show "payload_counter i (norm_event ul now (FromFlowState s)) = (\<Sum>e\<leftarrow>events_of k es. uint (flow_contrib i e))"
    if "i \<noteq> FConn conn_counter.Requests"
    using that small [of i] tally [of i] by (simp add: payload_norm_counter payload_counter_From u64_to_i64_small)
qed

definition demo_metric :: flow_metric where
  "demo_metric = flow_metric_zero\<lparr>fm_AgentID := ''a'', fm_SrcIP := ''10.0.0.1'', fm_DstIP := ''10.0.0.2'', fm_SrcPort := 50000, fm_DstPort := 443,
     fm_Protocol := ProtocolTCP, fm_Direction := Egress, fm_ByteCount := 100, fm_PacketCount := 7, fm_FirstSeen := 5, fm_LastSeen := 9\<rparr>"

lemma demo_metric_ok: "metric_ok demo_metric"
proof -
  have "TrimSpace ''a'' \<noteq> []" "ParseAddr ''10.0.0.1'' \<noteq> None" "ParseAddr ''10.0.0.2'' \<noteq> None" by code_simp+
  then show ?thesis by (simp add: metric_ok_def demo_metric_def flow_metric_zero_def is_f64_def)
qed

lemma demo_metric_small: "uint (flow_contrib i demo_metric) < 2 ^ 63"
proof (cases i)
  case (FBytes j)
  then show ?thesis by (cases j) (simp_all add: demo_metric_def flow_metric_zero_def nonNegative_def to_u64_def go_const)
next
  case (FConn j)
  then show ?thesis
    by (cases j) (simp_all add: demo_metric_def flow_metric_zero_def conn_event_of_def nonNegative_def to_u32_def go_const
        InferRequestCount_def event_requests_def Let_def u32_to_i64_def to_u64_def)
next
  case (FStatus j)
  then show ?thesis by (cases j) (simp_all add: demo_metric_def flow_metric_zero_def status_contrib_def)
qed (simp_all add: demo_metric_def flow_metric_zero_def nonNegative_def to_u64_def)

definition demo_flow :: flow_state where
  "demo_flow = State_Apply (State_new (KeyFromMetric demo_metric)) demo_metric"

lemma demo_stored: "alist_get (flows (foldl Accumulator_Add NewAccumulator [demo_metric])) (KeyFromMetric demo_metric) = Some demo_flow"
  by (simp add: Accumulator_Add_def NewAccumulator_def Let_def demo_flow_def)

lemma demo_events: "events_of (KeyFromMetric demo_metric) [demo_metric] = [demo_metric]"
  by (simp add: events_of_def)

lemma demo_packets: "uint (flow_contrib FPackets demo_metric) = 7"
  by (simp add: demo_metric_def flow_metric_zero_def nonNegative_def to_u64_def)

section \<open>What the agent observes, the backend counts\<close>

text \<open>The column that keeps a counter of the agent.\<close>

fun stored_as :: "flow_counter \<Rightarrow> Ingest.counter" where
  "stored_as (FBytes byte_counter.Sent) = BytesSent"
| "stored_as (FBytes byte_counter.Received) = BytesReceived"
| "stored_as FPackets = Ingest.Packets"
| "stored_as (FConn conn_counter.Opens) = Connections"
| "stored_as (FConn conn_counter.Errors) = Ingest.Errors"
| "stored_as (FConn conn_counter.Requests) = Ingest.Requests"
| "stored_as FRetrans = Ingest.Retransmissions"
| "stored_as (FStatus Informational) = Ingest.HTTP1xx"
| "stored_as (FStatus Success) = Ingest.HTTP2xx"
| "stored_as (FStatus Redirect) = Ingest.HTTP3xx"
| "stored_as (FStatus ClientError) = Ingest.HTTP4xx"
| "stored_as (FStatus ServerError) = Ingest.HTTP5xx"

lemma event_counter_stored: "event_counter (stored_as i) e = payload_counter i e"
  by (cases i rule: stored_as.cases) simp_all

text \<open>The answer of the backend as the agent's HTTP client sees it; \<open>enc\<close> encodes a body.\<close>

definition as_received :: "(api_body \<Rightarrow> string) \<Rightarrow> (nat \<Rightarrow> string) \<Rightarrow> Api.response \<Rightarrow> 'e Exporter.response" where
  "as_received enc status_line resp =
     \<lparr>re_StatusCode = int (rs_Status resp), re_Status = status_line (rs_Status resp), re_Body = enc (rs_Body resp), re_BodyError = None\<rparr>"

definition post_to :: "string \<Rightarrow> string \<Rightarrow> http_request" where
  "post_to path body = \<lparr>rq_Method = POST, rq_Path = path, rq_Origin = [], rq_Query = (\<lambda>_. []), rq_Body = body\<rparr>"

text \<open>
  A network that brings a request of the agent to the backend behind its base URL, and the answer
  back.
\<close>

definition direct_network ::
    "(api_body \<Rightarrow> string) \<Rightarrow> (nat \<Rightarrow> string) \<Rightarrow> (http_request \<Rightarrow> 'ip served) \<Rightarrow> sender \<Rightarrow> string \<Rightarrow> string \<Rightarrow> 'e + 'e Exporter.response" where
  "direct_network enc status_line serve client url payload =
     Inr (as_received enc status_line (fst (serve (post_to (drop (length (baseURL client)) url) payload))))"

lemma route_ingest: "route POST ''/api/flows/ingest'' = Some IngestFlow"
  by (simp add: route_def post_routes_def)

lemma Sender_Flow_ok:
  assumes "marshal event = Inr body" "fst (serve (post_to ''/api/flows/ingest'' body)) = resp"
    and "200 \<le> rs_Status resp" "rs_Status resp < 300"
  shows "Sender_Flow marshal (direct_network enc status_line serve client) client event = None"
  using assms
  by (simp add: Sender_Flow_def Sender_post_def direct_network_def error_of_def handle_response_def read_limited_def as_received_def)

lemma norm_event_addresses:
  "fe_SrcIP (norm_event ul now e) = fe_SrcIP e" "fe_DstIP (norm_event ul now e) = fe_DstIP e"
  "fe_AgentID (norm_event ul now e) = TrimSpace (fe_AgentID e)"
  by (simp_all add: norm_event_def fix_requests_def fix_times_def fix_ports_direction_def fix_words_def Let_def split: prod.split)

text \<open>
  C5. What the agents observe is what the backend counts. Take any well-formed events and a
  flow of the agent's store after them, and let the network bring its payload to the backend (where
  the request body decodes to the payload). When the agent is registered with a machine, the database accepts the
  two addresses and the stored sums stay within 64 bits, then the call of the agent succeeds,
  so that the flow is not sent again; exactly one update of that flow is announced; and
  the stored totals of one group of flows, with the flow's addresses, protocol, direction and
  destination port, grow by exactly what the flow's events contributed to each counter (except the request
  count, which the backend may infer), while the totals of every other group stay as they were.
\<close>

theorem observed_flows_counted:
  assumes events: "list_all metric_ok es" "length es < 2 ^ 64"
    and get: "alist_get (flows (foldl Accumulator_Add NewAccumulator es)) k = Some s"
    and small: "\<And>i. (\<Sum>e\<leftarrow>events_of k es. uint (flow_contrib i e)) < 2 ^ 63"
    and sent: "marshal (FromFlowState s) = Inr body" "dec_flow h (take (2 ^ 20) body) = Inr (FromFlowState s, rest)" "list_all json_space rest"
    and tables: "fresh_uuids (hs_pg h)" "flows_wf (hs_pg h) (core (db_catalog d))"
    and known: "source_of_agent (TrimSpace (fe_AgentID (FromFlowState s))) (core (db_catalog d)) = Some v"
    and inets: "inet (hs_pg h) (fe_SrcIP (FromFlowState s)) = Some sip" "inet (hs_pg h) (fe_DstIP (FromFlowState s)) = Some dip"
    and room: "has_room (norm_event (hs_ul h) clock (FromFlowState s)) (core (db_catalog d))"
  shows "Sender_Flow marshal (direct_network enc status_line (\<lambda>r. Routes h allowed now clock r (d, None)) client) client (FromFlowState s) = None
    \<and> (\<exists>resp d' f g. Routes h allowed now clock (post_to ''/api/flows/ingest'' body) (d, None)
      = (resp, d', [FlowCall (CallBroadcastLatest ''flow.updated'' f (500 * Millisecond))])
    \<and> gk_src_ip g = sip \<and> gk_dst_ip g = dip \<and> gk_protocol g = fl_Protocol f \<and> gk_direction g = fl_Direction f
    \<and> gk_dst_port g = Some (fl_DstPort f)
    \<and> (\<forall>g' i. i \<noteq> FConn conn_counter.Requests \<longrightarrow>
         flow_total (core (db_catalog d')) g' (stored_as i) = flow_total (core (db_catalog d)) g' (stored_as i)
           + (if g' = g then (\<Sum>e\<leftarrow>events_of k es. uint (flow_contrib i e)) else 0)))"
proof -
  let ?t = "core (db_catalog d)" and ?e = "norm_event (hs_ul h) clock (FromFlowState s)"
  note valid = accepted_payload [OF events get small, where ul = "hs_ul h" and now = clock]
  note addr = norm_event_addresses [of "hs_ul h" clock "FromFlowState s"]
  obtain f t' calls where run: "flow_Ingest (hs_pg h) (hs_ul h) (hs_classifier h) now clock (FromFlowState s) (?t, None) = (Inr f, t', calls)"
    using flow_Ingest_done [OF valid(1)] known inets room addr by metis
  from run obtain r g where f: "f = ingested_flow clock ?e r" and calls: "calls = [CallBroadcastLatest ''flow.updated'' f (500 * Millisecond)]"
    and st: "stored (hs_pg h) now clock g ?e ?t (fst r) t'" "gk_protocol g = fe_Protocol ?e" "gk_direction g = fe_Direction ?e"
      "gk_dst_port g = Some (fe_DstPort ?e)" "gk_src_ip g = sip" "gk_dst_ip g = dip"
  proof (cases rule: flow_Ingest_cases [of "hs_pg h" "hs_ul h" "hs_classifier h" now clock "FromFlowState s" ?t None])
    case (stored_event e r t'' g)
    then show ?thesis using that [of r g] run valid(1) inets addr by simp
  qed simp
  have served: "Routes h allowed now clock (post_to ''/api/flows/ingest'' body) (d, None)
      = (writeJSON (cors_headers allowed []) 202 (FlowAccepted f), with_core t' d, map FlowCall calls)"
    using run sent by (simp add: Routes_def cors_def mux_def post_to_def route_ingest h_IngestFlow_def decodeJSON_def announcing_def)
  have fields: "fl_Protocol f = fe_Protocol ?e" "fl_Direction f = fe_Direction ?e" "fl_DstPort f = fe_DstPort ?e"
    by (simp_all add: f ingested_flow_def Let_def case_prod_unfold)
  have totals: "flow_total t' g' (stored_as i) = flow_total ?t g' (stored_as i)
      + (if g' = g then (\<Sum>e\<leftarrow>events_of k es. uint (flow_contrib i e)) else 0)" if "i \<noteq> FConn conn_counter.Requests" for g' i
    using stored_totals [OF tables st(1-4), of g' "stored_as i"] valid(2) [OF that] by (simp add: event_counter_stored)
  let ?resp = "writeJSON (cors_headers allowed []) 202 (FlowAccepted f)"
  have "Sender_Flow marshal (direct_network enc status_line (\<lambda>r. Routes h allowed now clock r (d, None)) client) client (FromFlowState s) = None"
    using sent(1) by (rule Sender_Flow_ok [where body = body and resp = ?resp]) (simp_all add: served)
  then show ?thesis
    using served calls fields st(2-6) totals
    by (intro conjI exI [of _ ?resp] exI [of _ "with_core t' d"] exI [of _ f] exI [of _ g]) simp_all
qed

theorem observed_flows_counted_witness:
  "\<exists>g. flow_total (core (db_catalog (fst (snd (Routes (demo_handlers\<lparr>dec_flow := \<lambda>_. Inr (FromFlowState demo_flow, [])\<rparr>)
      [] 5 9 (post_to ''/api/flows/ingest'' ''{}'') (demo_database, None)))))) g Ingest.Packets = 7"
proof -
  let ?h = "demo_handlers\<lparr>dec_flow := \<lambda>_. Inr (FromFlowState demo_flow, [])\<rparr>"
  have h: "hs_pg ?h = demo_pg" by (simp add: demo_handlers_def)
  have d: "core (db_catalog demo_database) = demo_tables" by (simp add: demo_database_def)
  have agent: "TrimSpace (fe_AgentID (FromFlowState demo_flow)) = ''a''" by code_simp
  have known: "source_of_agent ''a'' demo_tables = Some demo_vm"
    by (simp add: source_of_agent_def demo_tables_def demo_agent_def demo_vm_def first_row_def)
  have ok: "list_all metric_ok [demo_metric]" by (simp add: demo_metric_ok)
  have small: "(\<Sum>e\<leftarrow>events_of (KeyFromMetric demo_metric) [demo_metric]. uint (flow_contrib i e)) < 2 ^ 63" for i
    using demo_metric_small by (simp add: demo_events)
  have dec: "dec_flow ?h (take (2 ^ 20) ''{}'') = Inr (FromFlowState demo_flow, [])" by simp
  have json: "list_all json_space []" "length [demo_metric] < 2 ^ 64" by simp_all
  have fresh: "fresh_uuids (hs_pg ?h)" unfolding h by (rule demo_pg_fresh)
  have wf: "flows_wf (hs_pg ?h) (core (db_catalog demo_database))" unfolding h d by (rule demo_tables_wf)
  have src: "source_of_agent (TrimSpace (fe_AgentID (FromFlowState demo_flow))) (core (db_catalog demo_database)) = Some demo_vm"
    unfolding agent d by (rule known)
  have inets: "inet (hs_pg ?h) x = Some x" for x unfolding h by (simp add: demo_pg_def)
  have room: "has_room e (core (db_catalog demo_database))" for e unfolding d by (simp add: has_room_def demo_tables_def)
  define marshal :: "flow_event \<Rightarrow> string + string" where "marshal = (\<lambda>_. Inr ''{}'')"
  have enc: "marshal (FromFlowState demo_flow) = Inr ''{}''" by (simp add: marshal_def)
  note result = observed_flows_counted [where marshal = marshal and s = demo_flow and body = "''{}''" and h = ?h and clock = 9
      and allowed = "[]" and now = 5, OF ok json(2) demo_stored small enc dec json(1) fresh wf src inets inets room]
  obtain resp d' f g where "Routes ?h [] 5 9 (post_to ''/api/flows/ingest'' ''{}'') (demo_database, None) = (resp, d', f)"
    and "\<forall>g' i. i \<noteq> FConn conn_counter.Requests \<longrightarrow> flow_total (core (db_catalog d')) g' (stored_as i)
      = flow_total demo_tables g' (stored_as i) + (if g' = g then (\<Sum>e\<leftarrow>[demo_metric]. uint (flow_contrib i e)) else 0)"
    using result unfolding d demo_events by blast
  moreover from this(2) have "flow_total (core (db_catalog d')) g (stored_as FPackets) = flow_total demo_tables g (stored_as FPackets) + 7"
    using demo_packets by (simp del: flow_contrib.simps stored_as.simps)
  ultimately show ?thesis by (intro exI [of _ g]) (simp add: flow_total_def demo_tables_def)
qed

section \<open>A removed agent comes back\<close>

lemma source_of_registered:
  assumes "identities_wf t" "a \<in> set (agents t)" "ag_vm_id a = Some vmID" "vmID \<in> vm_id ` set (vms t)"
  shows "\<exists>v. source_of_agent (ag_id a) t = Some v \<and> vm_id v = vmID"
proof -
  let ?rows = "[v. a' \<leftarrow> agents t, ag_id a' = ag_id a, v \<leftarrow> vms t, ag_vm_id a' = Some (vm_id v)]"
  have "distinct (map ag_id (agents t))" using assms(1) by (simp add: identities_wf_def)
  then have same: "a' = a" if "a' \<in> set (agents t)" "ag_id a' = ag_id a" for a'
    using that assms(2) by (metis distinct_map inj_onD)
  obtain v where "v \<in> set (vms t)" "vm_id v = vmID" using assms(4) by auto
  then have "v \<in> set ?rows" using assms(2,3) by fastforce
  then obtain w ws where rows: "?rows = w # ws" by (cases ?rows) auto
  then have "w \<in> set ?rows" by simp
  then have "vm_id w = vmID" using same assms(3) by (fastforce split: if_splits)
  moreover have "source_of_agent (ag_id a) t = Some w" unfolding source_of_agent_def rows first_row_def by simp
  ultimately show ?thesis by blast
qed

text \<open>
  C11. A removed agent comes back by itself. When the backend has no row of an agent any more, for
  instance because its machine was deleted as expired, its next heartbeat is refused and changes no
  row; the agent answers a failed heartbeat with a registration; and after a successful
  registration its heartbeats are accepted and announced again, and its flows are attributed to the
  machine that the registration returned.
\<close>

theorem removed_agent_recovers:
  assumes "identities_wf t" "ah_AgentID hb \<notin> ag_id ` set (agents t)"
    and "ah_AgentID hb \<noteq> []" "TrimSpace (ar_AgentID reg) = ah_AgentID hb"
    and "agent_Register pg sha inventory now reg (t, c) = (Inr r, t', calls)"
  shows "agent_Heartbeat pg clock hb (t, None) = (Inl (NotRegistered (ah_AgentID hb)), t, [])
    \<and> lifecycle_Run own [LifecycleTick now' False]
        = [SendHeartbeat \<lparr>hp_AgentID = rg_AgentID own, hp_Status = ''online'', hp_Timestamp = now'\<rparr>, SendRegister own]
    \<and> (\<exists>t''. agent_Heartbeat pg clock' hb (t', None) = (Inr (), t'', [CallBroadcast ''agent.heartbeat'' hb]))
    \<and> (\<exists>v. source_of_agent (ah_AgentID hb) t' = Some v \<and> vm_id v = rr_VMID r)"
proof (intro conjI)
  have other: "ag_id a \<noteq> ah_AgentID hb" if "a \<in> set (agents t)" for a using assms(2) that by (metis image_eqI)
  then have none: "filter (\<lambda>a. ag_id a = ah_AgentID hb) (agents t) = []" by (simp add: filter_empty_conv)
  have "update_where (\<lambda>a. ag_id a = ah_AgentID hb) f (agents t) = agents t" for f
    using other unfolding update_where_def by (intro map_idI) simp
  with none assms(3) show "agent_Heartbeat pg clock hb (t, None) = (Inl (NotRegistered (ah_AgentID hb)), t, [])"
    by (simp add: agent_Heartbeat_def Let_def)
  obtain pub c1 c2 where tx: "register_tx pg sha inventory now (normal_registration reg)
      (firstValidIP (ar_PrivateIPs reg) (ar_Interfaces (normal_registration reg)))
      (svc_firstNonEmpty (ar_MACAddresses reg @ interfaceMACs (ar_Interfaces (normal_registration reg)))) pub
      (t, c1) = Inr (rr_VMID r, t', c2)"
    using agent_Register_ok [OF assms(5)] by blast
  note facts = register_tx_facts [OF assms(1) tx]
  obtain a where a: "a \<in> set (agents t')" "ag_id a = ah_AgentID hb" "ag_vm_id a = Some (rr_VMID r)"
    using facts(3) assms(4) by (auto simp: normal_registration_def Let_def)
  then have "filter (\<lambda>a. ag_id a = ah_AgentID hb) (agents t') \<noteq> []" by (auto simp: filter_empty_conv)
  with assms(3) show "\<exists>t''. agent_Heartbeat pg clock' hb (t', None) = (Inr (), t'', [CallBroadcast ''agent.heartbeat'' hb])"
    by (simp add: agent_Heartbeat_def Let_def exec_def)
  have "rr_VMID r \<in> vm_id ` set (vms t')" using facts(2) by (metis image_eqI)
  then show "\<exists>v. source_of_agent (ah_AgentID hb) t' = Some v \<and> vm_id v = rr_VMID r"
    using source_of_registered [OF facts(1) a(1,3)] a(2) by simp
qed simp

theorem removed_agent_recovers_witness:
  "\<exists>v. source_of_agent ''agent-7'' (fst (snd (agent_Register demo_pg (\<lambda>_. [1, 2, 3, 4, 5, 6, 7, 8]) None 9 demo_registration (demo_tables, None)))) = Some v
     \<and> vm_id v = ''vm-0102030405060708''"
proof -
  let ?hb = "\<lparr>ah_AgentID = ''agent-7'', ah_Status = ''online'', ah_Timestamp = 3\<rparr>"
  obtain r t calls where ok: "agent_Register demo_pg (\<lambda>_. [1, 2, 3, 4, 5, 6, 7, 8]) None 9 demo_registration (demo_tables, None) = (Inr r, t, calls)"
    and r: "rr_VMID r = ''vm-0102030405060708''"
    using demo_register by (auto split: sum.splits prod.splits)
  have "ah_AgentID ?hb \<notin> ag_id ` set (agents demo_tables)" by (simp add: demo_tables_def demo_agent_def)
  moreover have "TrimSpace (ar_AgentID demo_registration) = ah_AgentID ?hb" by code_simp
  ultimately show ?thesis
    using removed_agent_recovers [OF demo_tables_identities _ _ _ ok, of ?hb] r ok by simp
qed

end
